(* ===== verification/Prelude.thy ===== *)
theory Prelude
  imports Main "HOL-Library.Word"
begin

text \<open>
  Shared vocabulary of the development: Go's machine integers and durations, Go's error
  values with \<^verbatim>\<open>errors.Is\<close>, the pieces of the packages \<^verbatim>\<open>strings\<close> and \<^verbatim>\<open>strconv\<close>
  the source calls, reachability of a transition system, and the contract of an inductive
  invariant as a locale.  Generic list facts used by several components are collected here.
\<close>

named_theorems go_arith
named_theorems go_string

section \<open>Machine integers and durations\<close>

text \<open>
  Go's \<^verbatim>\<open>int\<close> and \<^verbatim>\<open>int64\<close> (and so \<^verbatim>\<open>time.Duration\<close>, a number of nanoseconds) are 64-bit
  two's complement on the platforms the module targets.  A value is an \<^typ>\<open>int\<close> and every
  operation that can leave the range goes through \<open>i64\<close>.
\<close>

type_synonym duration = int

definition i64 :: "int \<Rightarrow> int" where
  "i64 x = (x + 2 ^ 63) mod 2 ^ 64 - 2 ^ 63"

definition in_i64 :: "int \<Rightarrow> bool" where
  "in_i64 x \<longleftrightarrow> - (2 ^ 63) \<le> x \<and> x < 2 ^ 63"

abbreviation millisecond :: duration where "millisecond \<equiv> 1000000"
abbreviation second :: duration where "second \<equiv> 1000000000"
abbreviation minute :: duration where "minute \<equiv> 60000000000"
abbreviation hour :: duration where "hour \<equiv> 3600000000000"

lemma i64_id [go_arith]: "- (2 ^ 63) \<le> x \<Longrightarrow> x < 2 ^ 63 \<Longrightarrow> i64 x = x"
  by (simp add: i64_def)

lemma i64_in_range [go_arith]: "in_i64 (i64 x)"
proof -
  have "0 \<le> (x + 2 ^ 63) mod 2 ^ 64" and "(x + 2 ^ 63) mod 2 ^ 64 < (2 ^ 64 :: int)"
    by simp_all
  then show ?thesis by (simp add: i64_def in_i64_def)
qed

section \<open>Error values\<close>

text \<open>
  An error is a package-level sentinel, a value made by \<^verbatim>\<open>errors.New\<close> or by \<^verbatim>\<open>fmt.Errorf\<close>
  without \<^verbatim>\<open>%w\<close>, a \<^verbatim>\<open>fmt.Errorf\<close> value with \<^verbatim>\<open>%w\<close> (the text before and after the wrapped
  error is kept), or a \<^verbatim>\<open>*pgconn.PgError\<close> (its fields \<^verbatim>\<open>Code\<close>, \<^verbatim>\<open>Detail\<close>, \<^verbatim>\<open>Message\<close> and
  its \<^verbatim>\<open>Error()\<close> text).  The nil error is \<^term>\<open>None\<close>.
\<close>

datatype go_error =
    Sentinel string
  | ErrorString string
  | Wrapped string go_error string
  | PgError string string string string

primrec err_text :: "go_error \<Rightarrow> string" where
  "err_text (Sentinel s) = s"
| "err_text (ErrorString s) = s"
| "err_text (Wrapped pre e post) = pre @ err_text e @ post"
| "err_text (PgError code detail message text) = text"

text \<open>\<^verbatim>\<open>errors.Is(err, target)\<close> for a sentinel target: the chain of wrapped errors holds it.\<close>

primrec errors_is :: "go_error \<Rightarrow> string \<Rightarrow> bool" where
  "errors_is (Sentinel s) t = (s = t)"
| "errors_is (ErrorString s) t = False"
| "errors_is (Wrapped pre e post) t = errors_is e t"
| "errors_is (PgError code detail message text) t = False"

definition wrap_prefix :: "string \<Rightarrow> go_error \<Rightarrow> go_error" where
  "wrap_prefix msg e = Wrapped msg e []"

lemma errors_is_wrap_prefix [simp]: "errors_is (wrap_prefix msg e) t = errors_is e t"
  by (simp add: wrap_prefix_def)

definition context_Canceled :: string where
  "context_Canceled = ''context canceled''"

definition context_DeadlineExceeded :: string where
  "context_DeadlineExceeded = ''context deadline exceeded''"

section \<open>Strings\<close>

text \<open>
  Go strings and byte slices are byte sequences, \<^typ>\<open>string\<close> here.  The case and space
  functions below are those of the package \<^verbatim>\<open>strings\<close> on ASCII input.
\<close>

fun split_on :: "char \<Rightarrow> string \<Rightarrow> string list" where
  "split_on c [] = [[]]"
| "split_on c (x # xs) =
     (if x = c then [] # split_on c xs
      else (case split_on c xs of [] \<Rightarrow> [[x]] | p # ps \<Rightarrow> (x # p) # ps))"

definition is_space :: "char \<Rightarrow> bool" where
  "is_space c \<longleftrightarrow> (let n = of_char c :: nat in n = 32 \<or> (9 \<le> n \<and> n \<le> 13))"

definition trim_space :: "string \<Rightarrow> string" where
  "trim_space s = rev (dropWhile is_space (rev (dropWhile is_space s)))"

definition lower_char :: "char \<Rightarrow> char" where
  "lower_char c =
     (let n = of_char c :: nat in if 65 \<le> n \<and> n \<le> 90 then char_of (n + 32) else c)"

definition upper_char :: "char \<Rightarrow> char" where
  "upper_char c =
     (let n = of_char c :: nat in if 97 \<le> n \<and> n \<le> 122 then char_of (n - 32) else c)"

definition to_lower :: "string \<Rightarrow> string" where
  "to_lower s = map lower_char s"

fun dec_digits :: "nat \<Rightarrow> string" where
  "dec_digits n =
     (if n < 10 then [char_of (48 + n)] else dec_digits (n div 10) @ [char_of (48 + n mod 10)])"

declare dec_digits.simps [simp del]

text \<open>\<^verbatim>\<open>strconv.Itoa\<close>.\<close>

definition itoa :: "int \<Rightarrow> string" where
  "itoa i = (if i < 0 then CHR ''-'' # dec_digits (nat (- i)) else dec_digits (nat i))"

lemma split_on_nonempty [simp]: "split_on c s \<noteq> []"
  by (induction s) (auto split: list.splits)

lemma split_on_no_sep [go_string]: "c \<notin> set s \<Longrightarrow> split_on c s = [s]"
  by (induction s) auto

lemma split_on_append [go_string]:
  "c \<notin> set s \<Longrightarrow> split_on c (s @ c # t) = s # split_on c t"
  by (induction s) auto

fun join_with :: "char \<Rightarrow> string list \<Rightarrow> string" where
  "join_with c [] = []"
| "join_with c [p] = p"
| "join_with c (p # ps) = p @ c # join_with c ps"

lemma join_split: "join_with c (split_on c s) = s"
proof (induction s)
  case (Cons x xs)
  obtain p ps where ps: "split_on c xs = p # ps" by (metis neq_Nil_conv split_on_nonempty)
  with Cons show ?case by (cases ps) auto
qed simp

lemma split_on_parts: "p \<in> set (split_on c s) \<Longrightarrow> c \<notin> set p"
  by (induction s arbitrary: p) (auto split: if_splits list.splits)

lemma split_on_two:
  "split_on c s = [a, b] \<longleftrightarrow> s = a @ c # b \<and> c \<notin> set a \<and> c \<notin> set b"
proof
  assume *: "split_on c s = [a, b]"
  then have "s = a @ c # b" using join_split [of c s] by simp
  moreover have "c \<notin> set a" "c \<notin> set b" using split_on_parts [of _ c s] * by simp_all
  ultimately show "s = a @ c # b \<and> c \<notin> set a \<and> c \<notin> set b" by simp
qed (simp add: split_on_append split_on_no_sep)

section \<open>Transition systems\<close>

text \<open>
  A component with concurrent clients is a predicate for its first states and a labelled
  step relation; \<open>reach\<close> is the set of its reachable states.
\<close>

inductive reach :: "('s \<Rightarrow> bool) \<Rightarrow> ('s \<Rightarrow> 'l \<Rightarrow> 's \<Rightarrow> bool) \<Rightarrow> 's \<Rightarrow> bool"
  for init step where
  reach_init: "init s \<Longrightarrow> reach init step s"
| reach_step: "reach init step s \<Longrightarrow> step s l t \<Longrightarrow> reach init step t"

text \<open>The contract of an invariant: first states satisfy it and every step keeps it.\<close>

locale inductive_invariant =
  fixes init :: "'s \<Rightarrow> bool"
    and step :: "'s \<Rightarrow> 'l \<Rightarrow> 's \<Rightarrow> bool"
    and inv :: "'s \<Rightarrow> bool"
  assumes inv_init: "init s \<Longrightarrow> inv s"
    and inv_step: "step s l t \<Longrightarrow> inv s \<Longrightarrow> inv t"
begin

lemma holds: "reach init step s \<Longrightarrow> inv s"
  by (induction rule: reach.induct) (auto intro: inv_init inv_step)

lemma holds_step: "reach init step s \<Longrightarrow> step s l t \<Longrightarrow> inv t"
  by (rule holds) (rule reach_step)

end

end
