(* ===== verification/Kafka_Consumer.thy ===== *)
theory Kafka_Consumer
  imports Prelude
begin

text \<open>
  \<^verbatim>\<open>messaging/consumer.go\<close>: the Kafka consumer.  \<open>NewConsumer\<close> fills in the defaults of the
  configuration, \<open>processWithRetry\<close> runs the handler with exponential backoff and moves a
  poison message to the dead letter queue, \<open>Start\<close> polls, processes and commits.

  The handler, the dead letter producer, the Kafka client and the tracing library are
  parameters, the fields of \<open>consumer_env\<close>: functions over an abstract world \<open>'w\<close> (what
  they may change) and an abstract context type \<open>'c\<close>.  What the consumer does is recorded
  in order in a trace of events, so that ordering and loss are statements about the trace.
\<close>

section \<open>Data\<close>

record consumer_config =
  Brokers :: "string list"
  GroupID :: string
  Topic :: string
  MaxRetries :: int
  InitialBackoff :: duration
  MaxBackoff :: duration
  DLQTopic :: string
  StrictMode :: bool

text \<open>The fields of \<^verbatim>\<open>kgo.Record\<close> the consumer reads.\<close>

record krecord =
  rec_topic :: string
  rec_partition :: int
  rec_offset :: int
  rec_key :: string
  rec_value :: string
  rec_headers :: "(string \<times> string) list"

text \<open>What one \<^verbatim>\<open>PollFetches\<close> returns: \<^verbatim>\<open>fetches.Err()\<close> and the records of its iterator.\<close>

record fetches =
  fetch_err :: "go_error option"
  fetch_records :: "krecord list"

datatype cevent =
    EvPollError go_error
  | EvHandle krecord "go_error option"
  | EvWait duration
  | EvPublish string string string "go_error option"
  | EvDrop krecord
  | EvCommit krecord "go_error option"

record 'w cstate =
  world :: 'w
  trace :: "cevent list"

text \<open>
  \<open>ctx_err\<close> is \<^verbatim>\<open>ctx.Err()\<close>.  \<open>await\<close> is the \<^verbatim>\<open>select\<close> on \<^verbatim>\<open>ctx.Done()\<close> and
  \<^verbatim>\<open>time.After(d)\<close>: \<^term>\<open>None\<close> when the timer fires, \<open>Some err\<close> when the context is done
  with \<^verbatim>\<open>ctx.Err()\<close> equal to \<open>err\<close> (never nil then).  \<open>dlq\<close> is the field \<^verbatim>\<open>dlqProducer\<close>,
  \<^term>\<open>None\<close> when it is nil.  \<open>Extract\<close> is the propagator's \<^verbatim>\<open>Extract\<close>, \<open>start_span\<close> the
  context \<^verbatim>\<open>tracer.Start\<close> returns.
\<close>

record ('w, 'c) consumer_env =
  handler :: "'c \<Rightarrow> string \<Rightarrow> string \<Rightarrow> 'w \<Rightarrow> go_error option \<times> 'w"
  dlq :: "('c \<Rightarrow> string \<Rightarrow> string \<Rightarrow> string \<Rightarrow> 'w \<Rightarrow> go_error option \<times> 'w) option"
  ctx_err :: "'c \<Rightarrow> 'w \<Rightarrow> go_error option"
  await :: "'c \<Rightarrow> duration \<Rightarrow> 'w \<Rightarrow> go_error option \<times> 'w"
  poll :: "'c \<Rightarrow> 'w \<Rightarrow> fetches \<times> 'w"
  commit :: "'c \<Rightarrow> krecord \<Rightarrow> 'w \<Rightarrow> go_error option \<times> 'w"
  Extract :: "'c \<Rightarrow> (string \<rightharpoonup> string) \<Rightarrow> 'c"
  start_span :: "'c \<Rightarrow> krecord \<Rightarrow> 'c"

section \<open>NewConsumer\<close>

text \<open>The configuration \<^verbatim>\<open>NewConsumer\<close> stores.\<close>

definition NewConsumer_config :: "consumer_config \<Rightarrow> consumer_config" where
  "NewConsumer_config cfg =
     (let cfg1 = (if InitialBackoff cfg = 0 then cfg\<lparr>InitialBackoff := 100 * millisecond\<rparr> else cfg);
          cfg2 = (if MaxBackoff cfg1 = 0 then cfg1\<lparr>MaxBackoff := 30 * second\<rparr> else cfg1)
      in if MaxRetries cfg2 > 0 \<and> DLQTopic cfg2 = []
         then cfg2\<lparr>DLQTopic := Topic cfg2 @ ''.dlq''\<rparr> else cfg2)"

section \<open>processWithRetry\<close>

datatype pw_result = Ret "go_error option" | Panic string

definition emit :: "cevent \<Rightarrow> 'w cstate \<Rightarrow> 'w cstate" where
  "emit ev s = s\<lparr>trace := trace s @ [ev]\<rparr>"

definition call_handler ::
  "('w, 'c) consumer_env \<Rightarrow> 'c \<Rightarrow> krecord \<Rightarrow> 'w cstate \<Rightarrow> go_error option \<times> 'w cstate" where
  "call_handler e ctx r s =
     (let (err, w) = handler e ctx (rec_key r) (rec_value r) (world s)
      in (err, emit (EvHandle r err) (s\<lparr>world := w\<rparr>)))"

definition wait_backoff ::
  "('w, 'c) consumer_env \<Rightarrow> 'c \<Rightarrow> duration \<Rightarrow> 'w cstate \<Rightarrow> go_error option \<times> 'w cstate" where
  "wait_backoff e ctx d s =
     (let (err, w) = await e ctx d (world s) in (err, emit (EvWait d) (s\<lparr>world := w\<rparr>)))"

text \<open>The message of the error returned when the dead letter queue fails in strict mode.\<close>

definition dlq_failure_msg :: "go_error \<Rightarrow> go_error \<Rightarrow> string" where
  "dlq_failure_msg dlqErr err =
     ''FATAL: Failed to publish to DLQ: '' @ err_text dlqErr @ '' (Original: '' @ err_text err @ '')''"

definition no_dlq_msg :: string where
  "no_dlq_msg = ''CRITICAL: MaxRetries reached but no DLQ Producer configured.''"

text \<open>The dead letter branch, taken when the attempts are used up.\<close>

definition dlq_handling ::
  "('w, 'c) consumer_env \<Rightarrow> consumer_config \<Rightarrow> 'c \<Rightarrow> krecord \<Rightarrow> go_error \<Rightarrow> 'w cstate
    \<Rightarrow> pw_result \<times> 'w cstate" where
  "dlq_handling e cfg ctx r err s =
     (case dlq e of
        None \<Rightarrow>
          if StrictMode cfg
          then (Panic (no_dlq_msg @ '' STRICT POLICY: Halting to prevent data loss.''), s)
          else (Ret None, emit (EvDrop r) s)
      | Some publish \<Rightarrow>
          (let (dlqErr, w) = publish ctx (DLQTopic cfg) (rec_key r) (rec_value r) (world s);
               s' = emit (EvPublish (DLQTopic cfg) (rec_key r) (rec_value r) dlqErr) (s\<lparr>world := w\<rparr>)
           in case dlqErr of
                Some de \<Rightarrow>
                  if StrictMode cfg then (Ret (Some (ErrorString (dlq_failure_msg de err))), s')
                  else (Ret None, emit (EvDrop r) s')
              | None \<Rightarrow> (Ret None, s')))"

definition next_backoff :: "consumer_config \<Rightarrow> duration \<Rightarrow> duration" where
  "next_backoff cfg b = (let b' = i64 (b * 2) in if b' > MaxBackoff cfg then MaxBackoff cfg else b')"

text \<open>The check on the number of attempts made; without a limit it never holds.\<close>

definition exhausted :: "consumer_config \<Rightarrow> int \<Rightarrow> bool" where
  "exhausted cfg attempt \<longleftrightarrow> MaxRetries cfg > 0 \<and> attempt \<ge> MaxRetries cfg"

text \<open>The \<^verbatim>\<open>for\<close> loop; \<^term>\<open>None\<close> means that it never returns.\<close>

partial_function (option) retry_loop ::
  "('w, 'c) consumer_env \<Rightarrow> consumer_config \<Rightarrow> 'c \<Rightarrow> krecord \<Rightarrow> int \<Rightarrow> duration \<Rightarrow> 'w cstate
    \<Rightarrow> (pw_result \<times> 'w cstate) option" where
  "retry_loop e cfg ctx r attempt backoff s =
     (case ctx_err e ctx (world s) of
        Some err \<Rightarrow> Some (Ret (Some err), s)
      | None \<Rightarrow>
          (case call_handler e ctx r s of (herr, s1) \<Rightarrow>
            (case herr of
               None \<Rightarrow> Some (Ret None, s1)
             | Some err \<Rightarrow>
                 (if exhausted cfg (i64 (attempt + 1))
                  then Some (dlq_handling e cfg ctx r err s1)
                  else (case wait_backoff e ctx backoff s1 of (derr, s2) \<Rightarrow>
                    (case derr of
                       Some err' \<Rightarrow> Some (Ret (Some err'), s2)
                     | None \<Rightarrow>
                         retry_loop e cfg ctx r (i64 (attempt + 1)) (next_backoff cfg backoff) s2))))))"

definition processWithRetry ::
  "('w, 'c) consumer_env \<Rightarrow> consumer_config \<Rightarrow> 'c \<Rightarrow> krecord \<Rightarrow> 'w cstate
    \<Rightarrow> (pw_result \<times> 'w cstate) option" where
  "processWithRetry e cfg ctx r s = retry_loop e cfg ctx r 0 (InitialBackoff cfg) s"

section \<open>Start\<close>

text \<open>The carrier: a later header with the same key overwrites an earlier one.\<close>

fun carrier_of :: "(string \<times> string) list \<Rightarrow> (string \<rightharpoonup> string) \<Rightarrow> (string \<rightharpoonup> string)" where
  "carrier_of [] m = m"
| "carrier_of ((k, v) # hs) m = carrier_of hs (m(k \<mapsto> v))"

datatype 'c flow = Continue 'c | Return "go_error option" | Panicking string

text \<open>
  The loop over the records of one poll.  The first assignment of the loop body writes the
  \<^verbatim>\<open>ctx\<close> of the enclosing function, so the extracted context is the one the next record
  (and the next poll) starts from; the span's context \<open>ctx'\<close> lives for one record.
\<close>

fun process_records ::
  "('w, 'c) consumer_env \<Rightarrow> consumer_config \<Rightarrow> krecord list \<Rightarrow> 'c \<Rightarrow> 'w cstate
    \<Rightarrow> ('c flow \<times> 'w cstate) option" where
  "process_records e cfg [] ctx s = Some (Continue ctx, s)"
| "process_records e cfg (r # rs) ctx s =
     (let ctx1 = Extract e ctx (carrier_of (rec_headers r) Map.empty);
          ctx' = start_span e ctx1 r
      in case processWithRetry e cfg ctx' r s of
           None \<Rightarrow> None
         | Some (Panic msg, s1) \<Rightarrow> Some (Panicking msg, s1)
         | Some (Ret (Some err), s1) \<Rightarrow> Some (Return (Some err), s1)
         | Some (Ret None, s1) \<Rightarrow>
             (let (cerr, w) = commit e ctx' r (world s1)
              in process_records e cfg rs ctx1 (emit (EvCommit r cerr) (s1\<lparr>world := w\<rparr>))))"

text \<open>One iteration of the outer loop: poll, then the records unless the poll has an error.\<close>

definition start_iter ::
  "('w, 'c) consumer_env \<Rightarrow> consumer_config \<Rightarrow> 'c \<Rightarrow> 'w cstate \<Rightarrow> ('c flow \<times> 'w cstate) option" where
  "start_iter e cfg ctx s =
     (let (f, w) = poll e ctx (world s); s1 = s\<lparr>world := w\<rparr>
      in case fetch_err f of
           Some err \<Rightarrow>
             if errors_is err context_Canceled then Some (Return None, s1)
             else Some (Continue ctx, emit (EvPollError err) s1)
         | None \<Rightarrow> process_records e cfg (fetch_records f) ctx s1)"

text \<open>
  \<open>Start n\<close> is the consumer after at most \<open>n\<close> iterations of its endless outer loop:
  \<open>Continue\<close> while the loop is still running.
\<close>

fun Start ::
  "nat \<Rightarrow> ('w, 'c) consumer_env \<Rightarrow> consumer_config \<Rightarrow> 'c \<Rightarrow> 'w cstate \<Rightarrow> ('c flow \<times> 'w cstate) option"
where
  "Start 0 e cfg ctx s = Some (Continue ctx, s)"
| "Start (Suc n) e cfg ctx s =
     (case start_iter e cfg ctx s of
        None \<Rightarrow> None
      | Some (Continue ctx', s') \<Rightarrow> Start n e cfg ctx' s'
      | Some (Return err, s') \<Rightarrow> Some (Return err, s')
      | Some (Panicking msg, s') \<Rightarrow> Some (Panicking msg, s'))"

section \<open>The retry policy\<close>

text \<open>
  The abstract specification of one message's processing, independent of the environment:
  which sequences of events, with which result, the policy allows from attempt \<open>a\<close> and
  backoff \<open>b\<close>.  \<open>dlq_policy\<close> is the part after the attempts are used up: a message leaves
  by the dead letter queue, is dropped (permissive mode only), or halts the consumer
  (strict mode only).
\<close>

inductive dlq_policy ::
  "consumer_config \<Rightarrow> krecord \<Rightarrow> go_error \<Rightarrow> cevent list \<Rightarrow> pw_result \<Rightarrow> bool"
  for cfg r err where
  halted: "StrictMode cfg \<Longrightarrow> dlq_policy cfg r err [] (Panic msg)"
| dropped: "\<not> StrictMode cfg \<Longrightarrow> dlq_policy cfg r err [EvDrop r] (Ret None)"
| quarantined: "dlq_policy cfg r err [EvPublish (DLQTopic cfg) (rec_key r) (rec_value r) None] (Ret None)"
| refused: "StrictMode cfg \<Longrightarrow> dlq_policy cfg r err
     [EvPublish (DLQTopic cfg) (rec_key r) (rec_value r) (Some de)]
     (Ret (Some (ErrorString (dlq_failure_msg de err))))"
| dropped_after: "\<not> StrictMode cfg \<Longrightarrow> dlq_policy cfg r err
     [EvPublish (DLQTopic cfg) (rec_key r) (rec_value r) (Some de), EvDrop r] (Ret None)"

inductive retry_policy ::
  "consumer_config \<Rightarrow> krecord \<Rightarrow> int \<Rightarrow> duration \<Rightarrow> cevent list \<Rightarrow> pw_result \<Rightarrow> bool"
  for cfg r where
  cancelled: "retry_policy cfg r a b [] (Ret (Some err))"
| success: "retry_policy cfg r a b [EvHandle r None] (Ret None)"
| give_up: "exhausted cfg (i64 (a + 1)) \<Longrightarrow> dlq_policy cfg r err evs res \<Longrightarrow>
     retry_policy cfg r a b (EvHandle r (Some err) # evs) res"
| interrupted: "\<not> exhausted cfg (i64 (a + 1)) \<Longrightarrow>
     retry_policy cfg r a b [EvHandle r (Some err), EvWait b] (Ret (Some err'))"
| retry: "\<not> exhausted cfg (i64 (a + 1)) \<Longrightarrow> retry_policy cfg r (i64 (a + 1)) (next_backoff cfg b) evs res \<Longrightarrow>
     retry_policy cfg r a b (EvHandle r (Some err) # EvWait b # evs) res"

text \<open>A run that extends the trace by events the policy allows.\<close>

definition follows_policy ::
  "consumer_config \<Rightarrow> krecord \<Rightarrow> int \<Rightarrow> duration \<Rightarrow> 'w cstate \<Rightarrow> pw_result \<times> 'w cstate \<Rightarrow> bool"
where
  "follows_policy cfg r a b s out \<longleftrightarrow>
    (\<exists>evs. trace (snd out) = trace s @ evs \<and> retry_policy cfg r a b evs (fst out))"

section \<open>Observations on a trace\<close>

fun handle_results :: "cevent list \<Rightarrow> go_error option list" where
  "handle_results [] = []"
| "handle_results (EvHandle r x # evs) = x # handle_results evs"
| "handle_results (_ # evs) = handle_results evs"

fun waits :: "cevent list \<Rightarrow> duration list" where
  "waits [] = []"
| "waits (EvWait d # evs) = d # waits evs"
| "waits (_ # evs) = waits evs"

fun publishes :: "cevent list \<Rightarrow> (string \<times> string \<times> string \<times> go_error option) list" where
  "publishes [] = []"
| "publishes (EvPublish t k v x # evs) = (t, k, v, x) # publishes evs"
| "publishes (_ # evs) = publishes evs"

text \<open>A message is settled when the handler accepted it or the dead letter queue took it.\<close>

definition settled :: "consumer_config \<Rightarrow> krecord \<Rightarrow> cevent list \<Rightarrow> bool" where
  "settled cfg r evs \<longleftrightarrow> EvHandle r None \<in> set evs \<or>
     EvPublish (DLQTopic cfg) (rec_key r) (rec_value r) None \<in> set evs"

text \<open>The \<open>i\<close>-th wait of an exponential backoff that starts at \<open>b\<close>, capped after the first.\<close>

definition backoff_at :: "consumer_config \<Rightarrow> duration \<Rightarrow> nat \<Rightarrow> duration" where
  "backoff_at cfg b i = (if i = 0 then b else min (MaxBackoff cfg) (b * 2 ^ i))"

fun commits :: "cevent list \<Rightarrow> krecord list" where
  "commits [] = []"
| "commits (EvCommit r c # evs) = r # commits evs"
| "commits (_ # evs) = commits evs"

text \<open>
  \<open>ordered rs\<close> accepts a trace in which the handler is only called for the first pending
  record of \<open>rs\<close> and only a commit of that record makes the next one pending.
\<close>

fun ordered :: "krecord list \<Rightarrow> cevent list \<Rightarrow> bool" where
  "ordered rs [] = True"
| "ordered rs (EvHandle r x # evs) = (rs \<noteq> [] \<and> r = hd rs \<and> ordered rs evs)"
| "ordered rs (EvCommit r c # evs) = (rs \<noteq> [] \<and> r = hd rs \<and> ordered (tl rs) evs)"
| "ordered rs (_ # evs) = ordered rs evs"

text \<open>
  \<open>acked_safely\<close> accepts a trace in which every commit of a record follows, since the
  commit before it (\<open>seen\<close> at the start), the event that settles the record.
\<close>

fun acked_safely :: "consumer_config \<Rightarrow> cevent list \<Rightarrow> cevent list \<Rightarrow> bool" where
  "acked_safely cfg seen [] = True"
| "acked_safely cfg seen (EvCommit r c # evs) = (settled cfg r seen \<and> acked_safely cfg [] evs)"
| "acked_safely cfg seen (ev # evs) = acked_safely cfg (seen @ [ev]) evs"

definition batch_ok :: "consumer_config \<Rightarrow> krecord list \<Rightarrow> cevent list \<Rightarrow> 'c flow \<Rightarrow> bool" where
  "batch_ok cfg rs evs fl \<longleftrightarrow>
     ordered rs evs \<and> commits evs = take (length (commits evs)) rs \<and>
     (length (commits evs) = length rs \<longleftrightarrow> (\<exists>ctx. fl = Continue ctx)) \<and>
     (StrictMode cfg \<longrightarrow> acked_safely cfg [] evs)"

section \<open>A concrete consumer\<close>

text \<open>Inputs for the witnesses: a handler that always fails, a queue that accepts, a closed client.\<close>

definition demo_cfg :: consumer_config where
  "demo_cfg = \<lparr>Brokers = [''k:9092''], GroupID = ''g'', Topic = ''t'', MaxRetries = 3,
     InitialBackoff = 100 * millisecond, MaxBackoff = 30 * second, DLQTopic = ''t.dlq'', StrictMode = True\<rparr>"

definition demo_record :: krecord where
  "demo_record = \<lparr>rec_topic = ''t'', rec_partition = 0, rec_offset = 7, rec_key = ''k'', rec_value = ''v'',
     rec_headers = [(''traceparent'', ''00-a'')]\<rparr>"

definition demo_env :: "(nat, string list) consumer_env" where
  "demo_env = \<lparr>handler = \<lambda>c k v w. (Some (ErrorString ''boom''), Suc w),
     dlq = Some (\<lambda>c t k v w. (None, w)), ctx_err = \<lambda>c w. None, await = \<lambda>c d w. (None, w),
     poll = \<lambda>c w. (\<lparr>fetch_err = Some (Sentinel ''client closed''), fetch_records = []\<rparr>, w),
     commit = \<lambda>c r w. (None, w),
     Extract = \<lambda>c m. (case m ''traceparent'' of None \<Rightarrow> c | Some v \<Rightarrow> [v]),
     start_span = \<lambda>c r. rec_value r # c\<rparr>"

lemmas demo_defs = demo_cfg_def demo_record_def demo_env_def

lemmas run_defs = processWithRetry_def retry_loop.simps exhausted_def i64_def call_handler_def
  wait_backoff_def dlq_handling_def emit_def next_backoff_def

section \<open>The loop implements the policy\<close>

lemma trace_emit [simp]: "trace (emit ev s) = trace s @ [ev]"
  by (simp add: emit_def)

lemma world_emit [simp]: "world (emit ev s) = world s"
  by (simp add: emit_def)

lemma dlq_handling_policy:
  "\<exists>evs. trace (snd (dlq_handling e cfg ctx r err s)) = trace s @ evs \<and>
     dlq_policy cfg r err evs (fst (dlq_handling e cfg ctx r err s))"
  by (auto simp: dlq_handling_def Let_def split: option.splits prod.splits
      intro: dlq_policy.intros)

lemma call_handler_trace:
  "call_handler e ctx r s = (herr, s1) \<Longrightarrow> trace s1 = trace s @ [EvHandle r herr]"
  by (auto simp: call_handler_def split: prod.splits)

lemma wait_backoff_trace:
  "wait_backoff e ctx d s = (derr, s1) \<Longrightarrow> trace s1 = trace s @ [EvWait d]"
  by (auto simp: wait_backoff_def split: prod.splits)

lemma fst_call_handler: "fst (call_handler e ctx r s) = fst (handler e ctx (rec_key r) (rec_value r) (world s))"
  by (simp add: call_handler_def split: prod.split)

lemma fst_wait_backoff: "fst (wait_backoff e ctx d s) = fst (await e ctx d (world s))"
  by (simp add: wait_backoff_def split: prod.split)

lemma follows_give_up:
  assumes "call_handler e ctx r s = (Some err, s1)" "exhausted cfg (i64 (a + 1))"
  shows "follows_policy cfg r a b s (dlq_handling e cfg ctx r err s1)"
  using call_handler_trace [OF assms(1)] dlq_handling_policy [of e cfg ctx r err s1] assms(2)
  by (auto simp: follows_policy_def intro: retry_policy.give_up)

lemma follows_retry:
  assumes "call_handler e ctx r s = (Some err, s1)" "\<not> exhausted cfg (i64 (a + 1))"
    and "wait_backoff e ctx b s1 = (derr, s2)"
    and "follows_policy cfg r (i64 (a + 1)) (next_backoff cfg b) s2 out"
  shows "follows_policy cfg r a b s out"
  using call_handler_trace [OF assms(1)] wait_backoff_trace [OF assms(3)] assms(2,4)
  by (auto simp: follows_policy_def intro: retry_policy.retry)

lemma follows_interrupted:
  assumes "call_handler e ctx r s = (Some err, s1)" "\<not> exhausted cfg (i64 (a + 1))"
    and "wait_backoff e ctx b s1 = (Some err', s2)"
  shows "follows_policy cfg r a b s (Ret (Some err'), s2)"
  using call_handler_trace [OF assms(1)] wait_backoff_trace [OF assms(3)] assms(2)
  by (auto simp: follows_policy_def intro: retry_policy.interrupted)

lemma follows_cancelled: "follows_policy cfg r a b s (Ret (Some err), s)"
  by (auto simp: follows_policy_def intro: retry_policy.cancelled)

lemma follows_success:
  "call_handler e ctx r s = (None, s1) \<Longrightarrow> follows_policy cfg r a b s (Ret None, s1)"
  using call_handler_trace [of e ctx r s None s1]
  by (auto simp: follows_policy_def intro: retry_policy.success)

lemma retry_loop_refines:
  assumes ret: "retry_loop e cfg ctx r a b s = Some out"
  shows "follows_policy cfg r a b s out"
proof (rule retry_loop.raw_induct [where P = "\<lambda>e cfg ctx r a b s out. follows_policy cfg r a b s out",
      OF _ ret], goal_cases)
  case (1 f e cfg ctx r a b s out)
  from 1(2) show ?case
    by (auto split: option.splits prod.splits if_splits
        intro: follows_cancelled follows_success follows_give_up follows_interrupted
          follows_retry [OF _ _ _ 1(1)])
qed

lemma retry_loop_total:
  assumes "0 < MaxRetries cfg" "MaxRetries cfg < 2 ^ 63" "0 \<le> a" "a < MaxRetries cfg"
  shows "\<exists>out. retry_loop e cfg ctx r a b s = Some out"
  using assms
proof (induction "nat (MaxRetries cfg - a)" arbitrary: a b s rule: less_induct)
  case less
  have i: "i64 (a + 1) = a + 1" using less.prems by (simp add: i64_id)
  have IH: "\<exists>out. retry_loop e cfg ctx r (a + 1) b' s' = Some out" if "\<not> exhausted cfg (a + 1)" for b' s'
    using less.hyps [of "a + 1"] less.prems that by (simp add: exhausted_def)
  show ?case
    by (subst retry_loop.simps)
      (auto simp: i simp del: split_paired_Ex split: option.splits prod.splits intro: IH)
qed

section \<open>Consequences of the policy\<close>

lemma dlq_policy_observe:
  "dlq_policy cfg r err evs res \<Longrightarrow>
     handle_results evs = [] \<and> waits evs = [] \<and> length (publishes evs) \<le> 1 \<and>
     (\<forall>t k v x. EvPublish t k v x \<in> set evs \<longrightarrow> t = DLQTopic cfg \<and> k = rec_key r \<and> v = rec_value r)"
  by (induction rule: dlq_policy.induct) auto

lemma retry_policy_attempts:
  "retry_policy cfg r a b evs res \<Longrightarrow> 0 < MaxRetries cfg \<Longrightarrow> MaxRetries cfg < 2 ^ 63 \<Longrightarrow>
   0 \<le> a \<Longrightarrow> a < MaxRetries cfg \<Longrightarrow>
   int (length (handle_results evs)) \<le> MaxRetries cfg - a \<and> length (publishes evs) \<le> 1 \<and>
   (publishes evs \<noteq> [] \<longrightarrow> int (length (handle_results evs)) = MaxRetries cfg - a \<and>
       None \<notin> set (handle_results evs))"
  by (induction rule: retry_policy.induct)
    (auto simp: exhausted_def i64_id dest!: dlq_policy_observe)

lemma retry_policy_settled:
  "retry_policy cfg r a b evs res \<Longrightarrow> res = Ret None \<Longrightarrow> StrictMode cfg \<Longrightarrow> settled cfg r evs"
  by (induction rule: retry_policy.induct) (auto simp: settled_def elim!: dlq_policy.cases)

lemma backoff_at_0 [simp]: "backoff_at cfg b 0 = b"
  by (simp add: backoff_at_def)

lemma next_backoff_eq:
  "0 < b \<Longrightarrow> b < 2 ^ 62 \<Longrightarrow> next_backoff cfg b = min (MaxBackoff cfg) (b * 2)"
  by (auto simp: next_backoff_def Let_def i64_id)

lemma backoff_at_Suc:
  assumes "0 < b" "b < 2 ^ 62" "0 < MaxBackoff cfg"
  shows "backoff_at cfg (next_backoff cfg b) i = backoff_at cfg b (Suc i)"
  using assms
proof (cases i)
  case (Suc j)
  have "min m (min m (b * 2) * 2 ^ Suc j) = min m (b * 2 * 2 ^ Suc j)" if "0 < m" for m :: int
  proof (cases "m \<le> b * 2")
    case True
    moreover have "m * 1 \<le> m * 2 ^ Suc j" and "b * 2 * 1 \<le> b * 2 * 2 ^ Suc j"
      using that assms by (intro mult_left_mono one_le_power; simp)+
    ultimately show ?thesis by (auto simp: min_def)
  qed (auto simp: min_def)
  from this [OF assms(3)] show ?thesis using assms Suc
    by (simp add: backoff_at_def next_backoff_eq ac_simps)
qed (auto simp: backoff_at_def next_backoff_eq)

lemma retry_policy_waits:
  "retry_policy cfg r a b evs res \<Longrightarrow> 0 < b \<Longrightarrow> b < 2 ^ 62 \<Longrightarrow>
   0 < MaxBackoff cfg \<Longrightarrow> MaxBackoff cfg < 2 ^ 62 \<Longrightarrow>
   waits evs = map (backoff_at cfg b) [0..<length (waits evs)]"
proof (induction rule: retry_policy.induct)
  case (retry a b evs res err)
  have "0 < next_backoff cfg b" "next_backoff cfg b < 2 ^ 62"
    using retry.prems by (auto simp: next_backoff_eq)
  with retry have "waits evs = map (backoff_at cfg (next_backoff cfg b)) [0..<length (waits evs)]"
    by blast
  also have "\<dots> = map (\<lambda>i. backoff_at cfg b (Suc i)) [0..<length (waits evs)]"
    using retry.prems by (simp add: backoff_at_Suc)
  also have "\<dots> = map (backoff_at cfg b) [1..<Suc (length (waits evs))]"
    by (simp add: map_Suc_upt [symmetric] del: upt_Suc)
  finally have "waits evs = map (backoff_at cfg b) [1..<Suc (length (waits evs))]" .
  then show ?case
    by (simp add: upt_conv_Cons del: upt_Suc)
qed (auto simp: backoff_at_def dest: dlq_policy_observe)


lemma dlq_policy_local: "dlq_policy cfg r err evs res \<Longrightarrow> commits evs = []"
  by (induction rule: dlq_policy.induct) auto

lemma retry_policy_no_commit: "retry_policy cfg r a b evs res \<Longrightarrow> commits evs = []"
  by (induction rule: retry_policy.induct) (auto dest: dlq_policy_local)

lemma dlq_policy_ordered: "dlq_policy cfg r err evs res \<Longrightarrow> ordered rs (evs @ rest) = ordered rs rest"
  by (induction rule: dlq_policy.induct) auto

lemma retry_policy_ordered:
  "retry_policy cfg r a b evs res \<Longrightarrow> rs \<noteq> [] \<Longrightarrow> hd rs = r \<Longrightarrow> ordered rs (evs @ rest) = ordered rs rest"
  by (induction rule: retry_policy.induct) (auto simp: dlq_policy_ordered)

lemma commits_append [simp]: "commits (xs @ ys) = commits xs @ commits ys"
  by (induction xs rule: commits.induct) auto

lemma acked_safely_append:
  "commits xs = [] \<Longrightarrow> acked_safely cfg seen (xs @ ys) = acked_safely cfg (seen @ xs) ys"
  by (induction cfg seen xs rule: acked_safely.induct) auto

lemma settled_mono: "settled cfg r xs \<Longrightarrow> set xs \<subseteq> set ys \<Longrightarrow> settled cfg r ys"
  by (auto simp: settled_def)

lemma acked_safely_mono:
  "acked_safely cfg seen evs \<Longrightarrow> set seen \<subseteq> set seen' \<Longrightarrow> acked_safely cfg seen' evs"
proof (induction evs arbitrary: seen seen')
  case (Cons ev evs)
  have "set (seen @ [ev]) \<subseteq> set (seen' @ [ev])" using Cons.prems(2) by auto
  with Cons show ?case by (cases ev) (auto intro: settled_mono)
qed simp

lemma acked_safely_join:
  "acked_safely cfg seen xs \<Longrightarrow> acked_safely cfg [] ys \<Longrightarrow> acked_safely cfg seen (xs @ ys)"
  by (induction cfg seen xs rule: acked_safely.induct) (auto intro: acked_safely_mono)

lemma processWithRetry_refines:
  "processWithRetry e cfg ctx r s = Some (res, s') \<Longrightarrow>
   \<exists>evs. trace s' = trace s @ evs \<and> retry_policy cfg r 0 (InitialBackoff cfg) evs res"
  by (auto simp: processWithRetry_def follows_policy_def dest: retry_loop_refines)

section \<open>Batches and the poll loop\<close>

lemma batch_ok_Nil: "batch_ok cfg [] [] (Continue ctx)"
  by (simp add: batch_ok_def)

lemma batch_ok_stop:
  assumes "retry_policy cfg r a b evs res" "\<And>ctx. fl \<noteq> Continue ctx"
  shows "batch_ok cfg (r # rs) evs fl"
  using assms retry_policy_no_commit [OF assms(1)] retry_policy_ordered [OF assms(1), of "r # rs" "[]"]
    acked_safely_append [of evs cfg "[]" "[]"]
  by (simp add: batch_ok_def)

lemma batch_ok_Cons:
  assumes "retry_policy cfg r a b evs (Ret None)" "batch_ok cfg rs evs' fl"
  shows "batch_ok cfg (r # rs) (evs @ EvCommit r c # evs') fl"
  using assms retry_policy_no_commit [OF assms(1)]
    retry_policy_ordered [OF assms(1), of "r # rs" "EvCommit r c # evs'"]
    retry_policy_settled [OF assms(1)]
    acked_safely_append [of evs cfg "[]" "EvCommit r c # evs'"]
  by (auto simp: batch_ok_def)

lemma process_records_ok:
  "process_records e cfg rs ctx s = Some (fl, s') \<Longrightarrow>
   \<exists>evs. trace s' = trace s @ evs \<and> batch_ok cfg rs evs fl"
proof (induction rs arbitrary: ctx s)
  case Nil
  then show ?case by (auto intro: batch_ok_Nil)
next
  case (Cons r rs)
  define ctx1 where "ctx1 = Extract e ctx (carrier_of (rec_headers r) Map.empty)"
  from Cons.prems obtain res s1 where
    p: "processWithRetry e cfg (start_span e ctx1 r) r s = Some (res, s1)"
    by (auto simp: ctx1_def Let_def split: option.splits)
  from processWithRetry_refines [OF this] obtain evs where
    evs: "trace s1 = trace s @ evs" "retry_policy cfg r 0 (InitialBackoff cfg) evs res" by blast
  show ?case
  proof (cases "res = Ret None")
    case True
    obtain cerr w where c: "commit e (start_span e ctx1 r) r (world s1) = (cerr, w)" by fastforce
    with True p Cons.prems have
      "process_records e cfg rs ctx1 (emit (EvCommit r cerr) (s1\<lparr>world := w\<rparr>)) = Some (fl, s')"
      by (simp add: ctx1_def)
    from Cons.IH [OF this] obtain evs' where
      "trace s' = trace s1 @ EvCommit r cerr # evs'" "batch_ok cfg rs evs' fl" by auto
    with evs True show ?thesis by (auto intro: batch_ok_Cons)
  next
    case False
    with p Cons.prems have "s' = s1 \<and> (\<forall>ctx. fl \<noteq> Continue ctx)"
      by (auto simp: ctx1_def [symmetric] split: pw_result.splits option.splits)
    with evs show ?thesis by (auto intro: batch_ok_stop)
  qed
qed

lemma process_records_total:
  assumes "0 < MaxRetries cfg" "MaxRetries cfg < 2 ^ 63"
  shows "\<exists>out. process_records e cfg rs ctx s = Some out"
proof (induction rs arbitrary: ctx s)
  case (Cons r rs)
  have "\<exists>res s1. processWithRetry e cfg ctx' r s = Some (res, s1)" for ctx'
    using retry_loop_total [OF assms, of 0] assms by (auto simp: processWithRetry_def)
  then obtain res s1 where "processWithRetry e cfg
      (start_span e (Extract e ctx (carrier_of (rec_headers r) Map.empty)) r) r s = Some (res, s1)"
    by blast
  with Cons.IH show ?case
    by (auto simp: Let_def simp del: split_paired_Ex split: pw_result.splits option.splits prod.splits)
qed simp


lemma start_iter_ok:
  assumes "start_iter e cfg ctx s = Some (fl, s')" "StrictMode cfg"
  shows "\<exists>evs. trace s' = trace s @ evs \<and> acked_safely cfg [] evs"
proof -
  obtain f w where f: "poll e ctx (world s) = (f, w)" by fastforce
  show ?thesis
  proof (cases "fetch_err f")
    case None
    with assms(1) f have "process_records e cfg (fetch_records f) ctx (s\<lparr>world := w\<rparr>) = Some (fl, s')"
      by (simp add: start_iter_def)
    from process_records_ok [OF this] assms(2) show ?thesis by (auto simp: batch_ok_def)
  next
    case (Some err)
    with assms(1) f show ?thesis by (auto simp: start_iter_def Let_def split: if_splits)
  qed
qed

lemma Start_acks_safely:
  "Start n e cfg ctx s = Some (fl, s') \<Longrightarrow> StrictMode cfg \<Longrightarrow>
   \<exists>evs. trace s' = trace s @ evs \<and> acked_safely cfg [] evs"
proof (induction n arbitrary: ctx s)
  case (Suc n)
  then obtain fl1 s1 where it: "start_iter e cfg ctx s = Some (fl1, s1)"
    by (auto split: option.splits)
  from start_iter_ok [OF it Suc.prems(2)] obtain evs where
    evs: "trace s1 = trace s @ evs" "acked_safely cfg [] evs" by blast
  show ?case
  proof (cases fl1)
    case (Continue ctx')
    with Suc.IH [of ctx' s1] Suc.prems it evs show ?thesis
      by (auto intro: acked_safely_join)
  qed (use Suc.prems it evs in auto)
qed simp

lemma Start_total:
  assumes "0 < MaxRetries cfg" "MaxRetries cfg < 2 ^ 63"
  shows "\<exists>out. Start n e cfg ctx s = Some out"
proof (induction n arbitrary: ctx s)
  case (Suc n)
  have "\<exists>out. start_iter e cfg ctx s = Some out"
    using process_records_total [OF assms] by (auto simp: start_iter_def Let_def split: prod.splits option.splits)
  with Suc.IH show ?case by (auto split: flow.splits simp del: split_paired_Ex)
qed simp

lemma Start_closed_client_loops:
  assumes "\<And>ctx w. fetch_err (fst (poll e ctx w)) = Some (Sentinel ''client closed'')"
  shows "\<exists>s'. Start n e cfg ctx s = Some (Continue ctx, s') \<and> length (trace s') = length (trace s) + n"
proof (induction n arbitrary: s)
  case (Suc n)
  obtain f w where f: "poll e ctx (world s) = (f, w)" by fastforce
  with assms [of ctx "world s"] have
    it: "start_iter e cfg ctx s =
      Some (Continue ctx, emit (EvPollError (Sentinel ''client closed'')) (s\<lparr>world := w\<rparr>))"
    by (simp add: start_iter_def context_Canceled_def)
  from Suc.IH [of "emit (EvPollError (Sentinel ''client closed'')) (s\<lparr>world := w\<rparr>)"] it
  show ?case by auto
qed simp

lemma process_records_context:
  "process_records e cfg rs ctx s = Some (Continue ctx', s') \<Longrightarrow>
   ctx' = foldl (\<lambda>c r. Extract e c (carrier_of (rec_headers r) Map.empty)) ctx rs"
  by (induction rs arbitrary: ctx s)
    (auto simp: Let_def split: option.splits pw_result.splits prod.splits)

lemma retry_loop_poison:
  assumes env: "\<And>c k v w. fst (handler e c k v w) = Some err" "\<And>c w. ctx_err e c w = None"
      "\<And>c d w. fst (await e c d w) = None" "dlq e = Some pub" "\<And>c t k v w. fst (pub c t k v w) = None"
    and "0 < MaxRetries cfg" "MaxRetries cfg < 2 ^ 63" "0 \<le> a" "a < MaxRetries cfg"
  shows "\<exists>s' evs. retry_loop e cfg ctx r a b s = Some (Ret None, s') \<and> trace s' = trace s @ evs \<and>
     publishes evs = [(DLQTopic cfg, rec_key r, rec_value r, None)]"
  using assms(6-9)
proof (induction "nat (MaxRetries cfg - a)" arbitrary: a b s rule: less_induct)
  case less
  have i: "i64 (a + 1) = a + 1" using less.prems by (simp add: i64_id)
  obtain s1 where h: "call_handler e ctx r s = (Some err, s1)"
    by (metis env(1) fst_call_handler prod.collapse)
  obtain s2 where w: "wait_backoff e ctx b s1 = (None, s2)"
    by (metis env(3) fst_wait_backoff prod.collapse)
  note tr = call_handler_trace [OF h] wait_backoff_trace [OF w]
  show ?case
  proof (cases "exhausted cfg (a + 1)")
    case True
    have "\<exists>s'. dlq_handling e cfg ctx r err s1 = (Ret None, s') \<and>
        trace s' = trace s1 @ [EvPublish (DLQTopic cfg) (rec_key r) (rec_value r) None]"
      using env(5) [of ctx "DLQTopic cfg" "rec_key r" "rec_value r" "world s1"]
      by (auto simp: dlq_handling_def env(4) Let_def split: prod.splits)
    with True h tr show ?thesis by (subst retry_loop.simps) (auto simp: env(2) i)
  next
    case False
    with less.hyps [of "a + 1" "next_backoff cfg b" s2] less.prems obtain s' evs where
      "retry_loop e cfg ctx r (a + 1) (next_backoff cfg b) s2 = Some (Ret None, s')"
      "trace s' = trace s2 @ evs" "publishes evs = [(DLQTopic cfg, rec_key r, rec_value r, None)]"
      by (auto simp: exhausted_def)
    with False h w tr show ?thesis by (subst retry_loop.simps) (auto simp: env(2) i)
  qed
qed

section \<open>Properties\<close>



text \<open>
  The handler is called at most \<^verbatim>\<open>MaxRetries\<close> times for a message, the dead letter queue
  at most once, and only after exactly \<^verbatim>\<open>MaxRetries\<close> calls that all failed.
\<close>

lemma processWithRetry_attempts:
  assumes "processWithRetry e cfg ctx r s = Some (res, s')"
    and "0 < MaxRetries cfg" and "MaxRetries cfg < 2 ^ 63"
  shows "\<exists>evs. trace s' = trace s @ evs \<and>
     int (length (handle_results evs)) \<le> MaxRetries cfg \<and> length (publishes evs) \<le> 1 \<and>
     (publishes evs \<noteq> [] \<longrightarrow> int (length (handle_results evs)) = MaxRetries cfg \<and>
        None \<notin> set (handle_results evs))"
proof -
  from processWithRetry_refines [OF assms(1)] obtain evs where
    "trace s' = trace s @ evs" "retry_policy cfg r 0 (InitialBackoff cfg) evs res" by blast
  with retry_policy_attempts [of cfg r 0] assms(2,3) show ?thesis by auto
qed

lemma processWithRetry_attempts_witness:
  "\<exists>s' evs. processWithRetry demo_env demo_cfg [] demo_record \<lparr>world = 0, trace = []\<rparr> = Some (Ret None, s') \<and>
     trace s' = [] @ evs \<and> int (length (handle_results evs)) \<le> MaxRetries demo_cfg"
proof -
  obtain s' where run:
    "processWithRetry demo_env demo_cfg [] demo_record \<lparr>world = 0, trace = []\<rparr> = Some (Ret None, s')"
    by (simp add: demo_defs run_defs)
  from processWithRetry_attempts [OF run] run show ?thesis by (auto simp: demo_cfg_def)
qed

text \<open>
  Strict mode loses nothing: \<^verbatim>\<open>processWithRetry\<close> returns nil, so that the message is
  acknowledged, only if the handler accepted the message or the dead letter queue took it.
\<close>

lemma processWithRetry_strict_no_loss:
  assumes "processWithRetry e cfg ctx r s = Some (Ret None, s')" and "StrictMode cfg"
  shows "\<exists>evs. trace s' = trace s @ evs \<and> settled cfg r evs"
  using processWithRetry_refines [OF assms(1)] retry_policy_settled [of cfg r] assms(2) by blast

text \<open>
  C24. The waits between attempts are the exponential backoff: the first is
  \<^verbatim>\<open>InitialBackoff\<close>, uncapped, and the \<open>i\<close>-th later one is \<^verbatim>\<open>InitialBackoff\<close> times \<open>2\<close> to
  the \<open>i\<close>, capped at \<^verbatim>\<open>MaxBackoff\<close>.  Both settings below \<open>2\<close> to the \<open>62\<close> nanoseconds, the
  doubling never wraps around.
\<close>

theorem processWithRetry_backoff:
  assumes "processWithRetry e cfg ctx r s = Some (res, s')"
    and "0 < InitialBackoff cfg" and "InitialBackoff cfg < 2 ^ 62"
    and "0 < MaxBackoff cfg" and "MaxBackoff cfg < 2 ^ 62"
  shows "\<exists>evs. trace s' = trace s @ evs \<and>
     waits evs = map (backoff_at cfg (InitialBackoff cfg)) [0..<length (waits evs)]"
  using processWithRetry_refines [OF assms(1)] retry_policy_waits assms(2-5) by blast

theorem processWithRetry_backoff_witness:
  "\<exists>s' evs. processWithRetry demo_env demo_cfg [] demo_record \<lparr>world = 0, trace = []\<rparr> = Some (Ret None, s') \<and>
     trace s' = [] @ evs \<and>
     waits evs = map (backoff_at demo_cfg (InitialBackoff demo_cfg)) [0..<length (waits evs)]"
proof -
  obtain s' where run:
    "processWithRetry demo_env demo_cfg [] demo_record \<lparr>world = 0, trace = []\<rparr> = Some (Ret None, s')"
    by (simp add: demo_defs run_defs)
  from processWithRetry_backoff [OF run] run show ?thesis by (auto simp: demo_cfg_def)
qed

text \<open>
  A poison message is quarantined: if every call of the handler fails, the context stays
  alive and the dead letter producer accepts, \<^verbatim>\<open>processWithRetry\<close> returns nil after publishing
  the message's key and payload once to \<^verbatim>\<open>DLQTopic\<close>.
\<close>

lemma processWithRetry_quarantines_poison:
  assumes "\<And>c k v w. fst (handler e c k v w) = Some err" and "\<And>c w. ctx_err e c w = None"
    and "\<And>c d w. fst (await e c d w) = None"
    and "dlq e = Some pub" and "\<And>c t k v w. fst (pub c t k v w) = None"
    and "0 < MaxRetries cfg" and "MaxRetries cfg < 2 ^ 63"
  shows "\<exists>s' evs. processWithRetry e cfg ctx r s = Some (Ret None, s') \<and> trace s' = trace s @ evs \<and>
     publishes evs = [(DLQTopic cfg, rec_key r, rec_value r, None)]"
  unfolding processWithRetry_def by (rule retry_loop_poison [OF assms]) (use assms(6) in simp_all)

lemma processWithRetry_quarantines_poison_witness:
  "\<exists>s' evs. processWithRetry demo_env demo_cfg [] demo_record \<lparr>world = 0, trace = []\<rparr> = Some (Ret None, s') \<and>
     trace s' = [] @ evs \<and> publishes evs = [(''t.dlq'', ''k'', ''v'', None)]"
  using processWithRetry_quarantines_poison
    [of demo_env "ErrorString ''boom''" "\<lambda>c t k v w. (None, w)" demo_cfg "[]" demo_record
       "\<lparr>world = 0, trace = []\<rparr>"]
  by (simp add: demo_defs)

text \<open>
  C21. Strict ordering within a poll: the handler is called for a record only after every
  record before it in the batch is committed, the commits are a prefix of the batch, the
  whole batch exactly when the loop goes on, and in strict mode a record is committed only
  when it is settled.
\<close>

theorem process_records_in_order:
  assumes "process_records e cfg rs ctx s = Some (fl, s')"
  shows "\<exists>evs. trace s' = trace s @ evs \<and> ordered rs evs \<and>
     commits evs = take (length (commits evs)) rs \<and>
     (length (commits evs) = length rs \<longleftrightarrow> (\<exists>ctx'. fl = Continue ctx')) \<and>
     (StrictMode cfg \<longrightarrow> acked_safely cfg [] evs)"
  using process_records_ok [OF assms] by (auto simp: batch_ok_def)

theorem process_records_in_order_witness:
  "\<exists>fl s' evs. process_records demo_env demo_cfg [demo_record] [] \<lparr>world = 0, trace = []\<rparr> = Some (fl, s') \<and>
     trace s' = [] @ evs \<and> ordered [demo_record] evs"
proof -
  obtain fl s' where run:
    "process_records demo_env demo_cfg [demo_record] [] \<lparr>world = 0, trace = []\<rparr> = Some (fl, s')"
    using process_records_total [of demo_cfg demo_env "[demo_record]" "[]" "\<lparr>world = 0, trace = []\<rparr>"]
    by (auto simp: demo_cfg_def)
  from process_records_in_order [OF run] run show ?thesis by auto
qed

text \<open>
  C13. At-least-once delivery over the whole run: with a retry limit, the consumer never hangs
  on a message, and after any number of polls every offset it committed in strict mode
  belongs to a message that had been handled or quarantined since the commit before.
\<close>

theorem Start_strict_at_least_once:
  assumes "0 < MaxRetries cfg" and "MaxRetries cfg < 2 ^ 63" and "StrictMode cfg"
  shows "\<exists>fl s' evs. Start n e cfg ctx s = Some (fl, s') \<and> trace s' = trace s @ evs \<and>
     acked_safely cfg [] evs"
proof -
  obtain fl s' where "Start n e cfg ctx s = Some (fl, s')"
    using Start_total [OF assms(1,2)] by fastforce
  with Start_acks_safely [OF this assms(3)] show ?thesis by blast
qed

theorem Start_strict_at_least_once_witness:
  "StrictMode demo_cfg \<and> (\<exists>fl s' evs. Start 5 demo_env demo_cfg [] \<lparr>world = 0, trace = []\<rparr> = Some (fl, s') \<and>
     trace s' = [] @ evs \<and> acked_safely demo_cfg [] evs)"
  using Start_strict_at_least_once [of demo_cfg 5 demo_env "[]" "\<lparr>world = 0, trace = []\<rparr>"]
  by (simp add: demo_cfg_def)

text \<open>
  The trace context leaks from one record to the next: the loop assigns the extracted
  context to the variable of the enclosing function, so when a record carries trace headers
  and the records after it carry none, the first record's remote trace is still the current
  context after them (the propagator leaves a context alone when the carrier is empty).
\<close>

lemma context_leaks_between_records:
  assumes "process_records e cfg (r # rs) ctx s = Some (Continue ctx', s')"
    and "\<And>c. Extract e c Map.empty = c" and "\<forall>r' \<in> set rs. rec_headers r' = []"
  shows "ctx' = Extract e ctx (carrier_of (rec_headers r) Map.empty)"
proof -
  have "foldl (\<lambda>c r. Extract e c (carrier_of (rec_headers r) Map.empty)) c rs = c" for c
    using assms(2,3) by (induction rs) auto
  with process_records_context [OF assms(1)] show ?thesis by simp
qed

lemma context_leaks_between_records_witness:
  "\<exists>ctx' s'. process_records demo_env demo_cfg [demo_record, demo_record\<lparr>rec_headers := []\<rparr>] []
     \<lparr>world = 0, trace = []\<rparr> = Some (Continue ctx', s') \<and> ctx' = [''00-a'']"
proof -
  obtain ctx' s' where run: "process_records demo_env demo_cfg
      [demo_record, demo_record\<lparr>rec_headers := []\<rparr>] [] \<lparr>world = 0, trace = []\<rparr> = Some (Continue ctx', s')"
    by (simp add: demo_defs run_defs)
  from context_leaks_between_records [OF run] run show ?thesis
    by (auto simp: demo_defs)
qed

end
