(* ===== verification/Messaging.thy ===== *)
theory Messaging
  imports Kafka_Consumer
begin

text \<open>
  \<^verbatim>\<open>messaging/producer.go\<close> and \<^verbatim>\<open>messaging/manager.go\<close>: the synchronous producer with trace headers, and
  the manager that runs and stops several consumers.  The Kafka client's \<^verbatim>\<open>ProduceSync\<close> and the
  propagator's \<^verbatim>\<open>Inject\<close> are parameters.
\<close>

section \<open>The producer\<close>

record produced_record =
  out_Topic :: string
  out_Key :: string
  out_Value :: string
  out_Headers :: "(string \<times> string) list"

text \<open>
  \<open>Inject\<close> gives the entries the propagator puts into the carrier, in the order the loop over the
  map visits them; \<open>ProduceSync\<close> the first error of the result.
\<close>

record ('w, 'c) producer_env =
  Inject :: "'c \<Rightarrow> (string \<times> string) list"
  ProduceSync :: "'c \<Rightarrow> produced_record \<Rightarrow> 'w \<Rightarrow> go_error option \<times> 'w"

text \<open>The loop that appends the carrier's entries to the record's headers.\<close>

fun add_headers :: "(string \<times> string) list \<Rightarrow> (string \<times> string) list \<Rightarrow> (string \<times> string) list" where
  "add_headers [] headers = headers"
| "add_headers ((k, v) # carrier) headers = add_headers carrier (headers @ [(k, v)])"

definition make_record :: "('w, 'c) producer_env \<Rightarrow> 'c \<Rightarrow> string \<Rightarrow> string \<Rightarrow> string \<Rightarrow> produced_record" where
  "make_record p ctx topic key payload =
     \<lparr>out_Topic = topic, out_Key = key, out_Value = payload, out_Headers = add_headers (Inject p ctx) []\<rparr>"

definition Publish ::
  "('w, 'c) producer_env \<Rightarrow> 'c \<Rightarrow> string \<Rightarrow> string \<Rightarrow> string \<Rightarrow> 'w \<Rightarrow> go_error option \<times> 'w" where
  "Publish p ctx topic key payload w =
     (case ProduceSync p ctx (make_record p ctx topic key payload) w of
        (Some err, w1) \<Rightarrow> (Some (wrap_prefix ''kafka publish failed: '' err), w1)
      | (None, w1) \<Rightarrow> (None, w1))"

section \<open>Constructing and closing a consumer\<close>

text \<open>The options of the consumer's client, and \<^verbatim>\<open>NewConsumer\<close> over \<^verbatim>\<open>kgo.NewClient\<close>.\<close>

record consumer_options =
  opt_SeedBrokers :: "string list"
  opt_ConsumerGroup :: string
  opt_ConsumeTopics :: "string list"
  opt_DisableAutoCommit :: bool
  opt_BlockRebalanceOnPoll :: bool

definition consumer_options_of :: "consumer_config \<Rightarrow> consumer_options" where
  "consumer_options_of cfg = \<lparr>opt_SeedBrokers = Brokers cfg, opt_ConsumerGroup = GroupID cfg,
     opt_ConsumeTopics = [Topic cfg], opt_DisableAutoCommit = True, opt_BlockRebalanceOnPoll = True\<rparr>"

definition NewConsumer ::
  "(consumer_options \<Rightarrow> 'w \<Rightarrow> (go_error + 'k) \<times> 'w) \<Rightarrow> consumer_config \<Rightarrow> 'w \<Rightarrow>
   (go_error + ('k \<times> consumer_config)) \<times> 'w" where
  "NewConsumer newClient cfg0 w =
     (let cfg = NewConsumer_config cfg0
      in case newClient (consumer_options_of cfg) w of
           (Inl err, w1) \<Rightarrow> (Inl (wrap_prefix ''failed to create franz-go client: '' err), w1)
         | (Inr client, w1) \<Rightarrow> (Inr (client, cfg), w1))"

definition Consumer_Close :: "('k \<Rightarrow> 'w \<Rightarrow> 'w) \<Rightarrow> 'k \<Rightarrow> 'w \<Rightarrow> go_error option \<times> 'w" where
  "Consumer_Close closeClient client w = (None, closeClient client w)"

section \<open>The manager\<close>

record ('w, 'c) managed =
  con_env :: "('w, 'c) consumer_env"
  con_cfg :: consumer_config
  con_state :: "'w cstate"

record ('w, 'c) manager =
  consumers :: "('w, 'c) managed list"

definition NewConsumerManager :: "('w, 'c) manager" where
  "NewConsumerManager = \<lparr>consumers = []\<rparr>"

definition Register :: "('w, 'c) managed \<Rightarrow> ('w, 'c) manager \<Rightarrow> ('w, 'c) manager" where
  "Register c m = m\<lparr>consumers := consumers m @ [c]\<rparr>"

text \<open>
  The goroutine \<^verbatim>\<open>Start\<close> spawns for a consumer, after at most \<open>n\<close> polls: whether its \<^verbatim>\<open>Consumer.Start\<close> has
  returned, and the error that is then logged.
\<close>

definition consumer_ended :: "nat \<Rightarrow> 'c \<Rightarrow> ('w, 'c) managed \<Rightarrow> go_error option option" where
  "consumer_ended n ctx c =
     (case Start n (con_env c) (con_cfg c) ctx (con_state c) of
        Some (Return err, _) \<Rightarrow> Some err
      | _ \<Rightarrow> None)"

text \<open>
  \<^verbatim>\<open>Close\<close> closes every client and waits for the wait group: it has returned after \<open>n\<close> polls of every
  consumer if all of their goroutines have ended.
\<close>

definition manager_closed :: "nat \<Rightarrow> 'c \<Rightarrow> ('w, 'c) manager \<Rightarrow> bool" where
  "manager_closed n ctx m \<longleftrightarrow> (\<forall>c \<in> set (consumers m). consumer_ended n ctx c \<noteq> None)"

definition stop_errors :: "nat \<Rightarrow> 'c \<Rightarrow> ('w, 'c) manager \<Rightarrow> (string \<times> go_error) list" where
  "stop_errors n ctx m = concat (map (\<lambda>c. case consumer_ended n ctx c of
     Some (Some err) \<Rightarrow> [(Topic (con_cfg c), err)] | _ \<Rightarrow> []) (consumers m))"

section \<open>Facts\<close>

lemma add_headers_append: "add_headers carrier headers = headers @ carrier"
  by (induction carrier headers rule: add_headers.induct) simp_all

lemma carrier_of_map: "carrier_of hs m = m ++ map_of (rev hs)"
proof (induction hs m rule: carrier_of.induct)
  case (2 k v hs m)
  show ?case by (rule ext) (simp add: 2 map_add_def split: option.split)
qed simp

lemma carrier_of_distinct: "distinct (map fst hs) \<Longrightarrow> carrier_of hs Map.empty = map_of hs"
  by (simp add: carrier_of_map map_of_inject_set rev_map [symmetric])

lemma consumer_ended_cancelled:
  assumes "\<And>w. \<exists>err. fetch_err (fst (poll (con_env c) ctx w)) = Some err \<and> errors_is err context_Canceled"
  shows "consumer_ended 1 ctx c = Some None"
proof -
  obtain f w where f: "poll (con_env c) ctx (world (con_state c)) = (f, w)" by fastforce
  with assms [of "world (con_state c)"] obtain err where "fetch_err f = Some err" "errors_is err context_Canceled" by auto
  with f show ?thesis by (simp add: consumer_ended_def start_iter_def)
qed

section \<open>Properties\<close>

text \<open>
  C39. A trace survives Kafka: whatever order the producer's loop visits the carrier in, the record
  it hands to Kafka has headers from which a consumer rebuilds exactly the carrier the propagator
  filled, and with it the same extracted context; and \<^verbatim>\<open>Publish\<close> returns nil exactly when Kafka
  acknowledged that record, otherwise an error that still matches the cause.
\<close>

theorem publish_trace_roundtrip:
  assumes "distinct (map fst (Inject p ctx))" and "ProduceSync p ctx (make_record p ctx topic key payload) w = (res, w')"
    and "rec_headers r = out_Headers (make_record p ctx topic key payload)"
  shows "Extract e ctx' (carrier_of (rec_headers r) Map.empty) = Extract e ctx' (map_of (Inject p ctx)) \<and>
    snd (Publish p ctx topic key payload w) = w' \<and>
    (fst (Publish p ctx topic key payload w) = None \<longleftrightarrow> res = None) \<and>
    (\<forall>err t. res = Some err \<and> errors_is err t \<longrightarrow> (\<exists>err'. fst (Publish p ctx topic key payload w) = Some err' \<and> errors_is err' t))"
proof -
  have "out_Headers (make_record p ctx topic key payload) = Inject p ctx"
    by (simp add: make_record_def add_headers_append)
  with assms carrier_of_distinct [OF assms(1)] show ?thesis by (cases res) (simp_all add: Publish_def)
qed

theorem publish_trace_roundtrip_witness:
  "fst (Publish \<lparr>Inject = \<lambda>_. [(''traceparent'', ''00-a-b-01'')], ProduceSync = \<lambda>_ _ w. (None, Suc w)\<rparr> () ''t'' ''k'' ''v'' 0) = None"
proof -
  let ?p = "\<lparr>Inject = \<lambda>_. [(''traceparent'', ''00-a-b-01'')], ProduceSync = \<lambda>_ _ w. (None, Suc w)\<rparr>"
  let ?r = "\<lparr>rec_topic = ''t'', rec_partition = 0, rec_offset = 0, rec_key = ''k'', rec_value = ''v'',
    rec_headers = [(''traceparent'', ''00-a-b-01'')]\<rparr>"
  have "distinct (map fst (Inject ?p ()))" "ProduceSync ?p () (make_record ?p () ''t'' ''k'' ''v'') 0 = (None, 1)"
    "rec_headers ?r = out_Headers (make_record ?p () ''t'' ''k'' ''v'')" by (simp_all add: make_record_def)
  from publish_trace_roundtrip [OF this, of demo_env "[]"] show ?thesis by blast
qed



end
