(* ===== verification/Kafka_Delivery.thy ===== *)
theory Kafka_Delivery
  imports Kafka_Consumer
begin

text \<open>
  The consumer against a broker, over crashes and restarts.  A topic is a log of records per
  partition; a session is a run of \<open>Start\<close> that may be cut off after any event; the next session
  polls from the offsets that were committed.  What the consumer relies on is the hypothesis
  \<open>session_env\<close>: the polls of a session return the log of each partition piece by piece, from the
  committed offset on, and nothing else moves this position.
\<close>

section \<open>Offsets\<close>

abbreviation of_partition :: "int \<Rightarrow> krecord list \<Rightarrow> krecord list" where
  "of_partition p \<equiv> filter (\<lambda>r. rec_partition r = p)"

text \<open>
  The offsets of a partition a group may resume from after a trace: a commit without an error
  sets it behind the record, a commit that reported an error may have been applied or not.
\<close>

fun resumes :: "int \<Rightarrow> nat set \<Rightarrow> cevent list \<Rightarrow> nat set" where
  "resumes p N [] = N"
| "resumes p N (EvCommit r err # evs) =
     resumes p (if rec_partition r \<noteq> p then N
                else if err = None then {nat (rec_offset r) + 1} else insert (nat (rec_offset r) + 1) N) evs"
| "resumes p N (_ # evs) = resumes p N evs"

text \<open>A log: the \<open>i\<close>-th record of a partition has offset \<open>i\<close>.\<close>

definition log_ok :: "(int \<Rightarrow> krecord list) \<Rightarrow> bool" where
  "log_ok topic \<longleftrightarrow> (\<forall>p i. i < length (topic p) \<longrightarrow>
     rec_partition (topic p ! i) = p \<and> rec_offset (topic p ! i) = int i)"

text \<open>
  What a session relies on.  \<open>pos p w\<close> is the position of the client in partition \<open>p\<close>: a poll
  returns the records from there on and moves it behind them; a poll with an error returns no
  records.  The handler, the dead letter queue, waiting and committing do not move it.
\<close>

definition session_env ::
  "(int \<Rightarrow> krecord list) \<Rightarrow> (int \<Rightarrow> 'w \<Rightarrow> nat) \<Rightarrow> ('w, 'c) consumer_env \<Rightarrow> bool" where
  "session_env topic pos e \<longleftrightarrow>
     (\<forall>c w f w' p. poll e c w = (f, w') \<longrightarrow>
        (fetch_err f \<noteq> None \<longrightarrow> fetch_records f = []) \<and>
        (\<exists>n. of_partition p (fetch_records f) = take n (drop (pos p w) (topic p))) \<and>
        pos p w' = pos p w + length (of_partition p (fetch_records f))) \<and>
     (\<forall>c k v w p. pos p (snd (handler e c k v w)) = pos p w) \<and>
     (\<forall>c d w p. pos p (snd (await e c d w)) = pos p w) \<and>
     (\<forall>c r w p. pos p (snd (commit e c r w)) = pos p w) \<and>
     (\<forall>publish c t k v w p. dlq e = Some publish \<longrightarrow> pos p (snd (publish c t k v w)) = pos p w)"

text \<open>
  The traces of a consumer group: sessions one after another, each cut off after any of its
  events, each resuming from what the sessions before had committed.
\<close>

inductive group_history ::
  "(int \<Rightarrow> 'w \<Rightarrow> nat) \<Rightarrow> ('w, 'c) consumer_env \<Rightarrow> consumer_config \<Rightarrow> cevent list \<Rightarrow> bool"
  for pos e cfg where
  no_session: "group_history pos e cfg []"
| session: "group_history pos e cfg h \<Longrightarrow> \<forall>p. pos p w \<in> resumes p {0} h \<Longrightarrow>
     Start n e cfg ctx \<lparr>world = w, trace = []\<rparr> = Some (fl, s') \<Longrightarrow>
     trace s' = evs @ lost \<Longrightarrow> group_history pos e cfg (h @ evs)"

text \<open>A record is delivered when it was handled or quarantined, and only then committed.\<close>

definition delivered :: "consumer_config \<Rightarrow> krecord \<Rightarrow> cevent list \<Rightarrow> bool" where
  "delivered cfg r evs \<longleftrightarrow> (\<exists>pre mid c post. evs = pre @ mid @ EvCommit r c # post \<and> commits mid = [] \<and> settled cfg r mid)"

section \<open>What the position does\<close>

definition same_pos :: "(int \<Rightarrow> 'w \<Rightarrow> nat) \<Rightarrow> 'w cstate \<Rightarrow> 'w cstate \<Rightarrow> bool" where
  "same_pos pos s s' \<longleftrightarrow> (\<forall>p. pos p (world s') = pos p (world s))"

lemma same_pos_emit [simp]: "same_pos pos s (emit ev t) = same_pos pos s t" "same_pos pos (emit ev s) t = same_pos pos s t"
  by (simp_all add: same_pos_def)

lemma call_handler_pos: "session_env topic pos e \<Longrightarrow> call_handler e ctx r s = (err, s1) \<Longrightarrow> same_pos pos s s1"
  by (auto simp: session_env_def call_handler_def same_pos_def split: prod.splits) (metis snd_conv)

lemma wait_backoff_pos: "session_env topic pos e \<Longrightarrow> wait_backoff e ctx d s = (err, s1) \<Longrightarrow> same_pos pos s s1"
  by (auto simp: session_env_def wait_backoff_def same_pos_def split: prod.splits) (metis snd_conv)

lemma dlq_handling_pos: "session_env topic pos e \<Longrightarrow> same_pos pos s (snd (dlq_handling e cfg ctx r err s))"
  by (auto simp: session_env_def dlq_handling_def same_pos_def Let_def split: prod.splits option.splits) (metis snd_conv)+

lemma same_pos_trans: "same_pos pos s t \<Longrightarrow> same_pos pos t u \<Longrightarrow> same_pos pos s u"
  by (simp add: same_pos_def)

lemma same_pos_refl [simp]: "same_pos pos s s"
  by (simp add: same_pos_def)

lemma retry_loop_pos:
  assumes env: "session_env topic pos e" and ret: "retry_loop e cfg ctx r a b s = Some out"
  shows "same_pos pos s (snd out)"
proof -
  have "session_env topic pos e \<longrightarrow> same_pos pos s (snd out)"
  proof (rule retry_loop.raw_induct [where P = "\<lambda>e cfg ctx r a b s out. session_env topic pos e \<longrightarrow> same_pos pos s (snd out)",
        OF _ ret], goal_cases)
    case (1 f e cfg ctx r a b s out)
    show ?case
    proof
      assume env: "session_env topic pos e"
      note handled = call_handler_pos [OF env] and waited = wait_backoff_pos [OF env]
        and parked = dlq_handling_pos [OF env]
      from 1(2) show "same_pos pos s (snd out)"
        by (auto split: option.splits prod.splits if_splits dest!: 1(1) [rule_format, OF _ env] handled waited
            intro: same_pos_trans parked)
    qed
  qed
  with env show ?thesis by simp
qed

section \<open>One session\<close>

lemma process_records_pos:
  assumes "session_env topic pos e" and "process_records e cfg rs ctx s = Some (fl, s')"
  shows "same_pos pos s s'"
  using assms(2)
proof (induction rs arbitrary: ctx s)
  case (Cons r rs)
  define ctx' where "ctx' = start_span e (Extract e ctx (carrier_of (rec_headers r) Map.empty)) r"
  from Cons.prems obtain res s1 where p: "processWithRetry e cfg ctx' r s = Some (res, s1)"
    by (auto simp: ctx'_def Let_def split: option.splits)
  then have s1: "same_pos pos s s1" using retry_loop_pos [OF assms(1)] by (fastforce simp: processWithRetry_def)
  obtain cerr w where c: "commit e ctx' r (world s1) = (cerr, w)" by fastforce
  have "same_pos pos s1 (s1\<lparr>world := w\<rparr>)" using assms(1) c by (auto simp: session_env_def same_pos_def) (metis snd_conv)
  with s1 have "same_pos pos s (emit (EvCommit r cerr) (s1\<lparr>world := w\<rparr>))" by (auto intro: same_pos_trans)
  with Cons p c s1 show ?case
    by (auto simp: ctx'_def Let_def split: pw_result.splits option.splits dest!: Cons.IH intro: same_pos_trans)
qed simp

lemma of_partition_take: "\<exists>k. of_partition p (take n rs) = take k (of_partition p rs)"
  by (metis append_eq_conv_conj append_take_drop_id filter_append)

text \<open>The records committed in a session are the log from the session's position on.\<close>

definition commits_log :: "(int \<Rightarrow> krecord list) \<Rightarrow> (int \<Rightarrow> 'w \<Rightarrow> nat) \<Rightarrow> 'w \<Rightarrow> cevent list \<Rightarrow> bool" where
  "commits_log topic pos w evs \<longleftrightarrow> (\<forall>p. \<exists>k. of_partition p (commits evs) = take k (drop (pos p w) (topic p)))"

lemma start_iter_commits:
  assumes env: "session_env topic pos e" and it: "start_iter e cfg ctx s = Some (fl, s')"
  shows "\<exists>evs. trace s' = trace s @ evs \<and> commits_log topic pos (world s) evs \<and> (StrictMode cfg \<longrightarrow> acked_safely cfg [] evs) \<and>
    (\<forall>ctx'. fl = Continue ctx' \<longrightarrow> (\<forall>p. pos p (world s') = pos p (world s) + length (of_partition p (commits evs))))"
proof -
  obtain f w where f: "poll e ctx (world s) = (f, w)" by fastforce
  with env have poll: "fetch_err f \<noteq> None \<longrightarrow> fetch_records f = []"
    "\<exists>n. of_partition p (fetch_records f) = take n (drop (pos p (world s)) (topic p))"
    "pos p w = pos p (world s) + length (of_partition p (fetch_records f))" for p
    by (auto simp: session_env_def)
  show ?thesis
  proof (cases "fetch_err f")
    case None
    with it f have run: "process_records e cfg (fetch_records f) ctx (s\<lparr>world := w\<rparr>) = Some (fl, s')"
      by (simp add: start_iter_def)
    from process_records_ok [OF this] obtain evs where
      evs: "trace s' = trace s @ evs" "batch_ok cfg (fetch_records f) evs fl" by auto
    have "\<exists>k. of_partition p (commits evs) = take k (drop (pos p (world s)) (topic p))" for p
      using evs(2) poll(2) [of p] of_partition_take [of p "length (commits evs)" "fetch_records f"]
      by (auto simp: batch_ok_def)
    moreover have "commits evs = fetch_records f" if "fl = Continue ctx'" for ctx'
      using evs(2) that unfolding batch_ok_def by (metis order_refl take_all)
    ultimately show ?thesis
      using evs process_records_pos [OF env run] poll(3) by (auto simp: commits_log_def batch_ok_def same_pos_def)
  next
    case (Some err)
    then have nil: "fetch_records f = []" using poll(1) by simp
    from Some it f have s': "s' = s\<lparr>world := w\<rparr> \<or> s' = emit (EvPollError err) (s\<lparr>world := w\<rparr>)"
      by (auto simp: start_iter_def Let_def split: if_splits)
    have "\<forall>p. pos p w = pos p (world s)" using poll(3) nil by simp
    with s' have "\<exists>evs \<in> {[], [EvPollError err]}. trace s' = trace s @ evs \<and> (\<forall>p. pos p (world s') = pos p (world s))" by auto
    then show ?thesis by (auto simp: commits_log_def intro!: exI [of _ 0])
  qed
qed

lemma commits_log_Nil [simp]: "commits_log topic pos w []"
  unfolding commits_log_def by (metis commits.simps(1) filter.simps(1) take_0)

lemma commits_log_append:
  assumes "commits_log topic pos w xs" and "commits_log topic pos w' ys"
    and "\<And>p. pos p w' = pos p w + length (of_partition p (commits xs))"
  shows "commits_log topic pos w (xs @ ys)"
  unfolding commits_log_def
proof
  fix p
  obtain k l where k: "of_partition p (commits xs) = take k (drop (pos p w) (topic p))"
    "of_partition p (commits ys) = take l (drop (pos p w') (topic p))"
    using assms(1,2) unfolding commits_log_def by blast
  let ?n = "length (of_partition p (commits xs))"
  have "of_partition p (commits xs) = take ?n (drop (pos p w) (topic p))" using k(1) by (metis append_eq_conv_conj append_take_drop_id)
  moreover have "drop (pos p w') (topic p) = drop ?n (drop (pos p w) (topic p))" using assms(3) by (simp add: add.commute)
  ultimately have "of_partition p (commits (xs @ ys)) = take (?n + l) (drop (pos p w) (topic p))"
    using k(2) by (simp add: take_add)
  then show "\<exists>k. of_partition p (commits (xs @ ys)) = take k (drop (pos p w) (topic p))" by blast
qed

lemma Start_commits:
  assumes "session_env topic pos e" and "Start n e cfg ctx s = Some (fl, s')"
  shows "\<exists>evs. trace s' = trace s @ evs \<and> commits_log topic pos (world s) evs"
  using assms(2)
proof (induction n arbitrary: ctx s)
  case (Suc n)
  then obtain fl1 s1 where it: "start_iter e cfg ctx s = Some (fl1, s1)" by (auto split: option.splits)
  from start_iter_commits [OF assms(1) it] obtain evs where evs: "trace s1 = trace s @ evs"
    "commits_log topic pos (world s) evs"
    "\<forall>ctx'. fl1 = Continue ctx' \<longrightarrow> (\<forall>p. pos p (world s1) = pos p (world s) + length (of_partition p (commits evs)))" by blast
  show ?case
  proof (cases fl1)
    case (Continue ctx')
    with Suc.IH [of ctx' s1] Suc.prems it obtain evs' where
      "trace s' = trace s1 @ evs'" "commits_log topic pos (world s1) evs'" by auto
    with evs Continue show ?thesis by (auto intro!: commits_log_append)
  qed (use Suc.prems it evs in auto)
qed (auto intro: exI [of _ "[]"])

section \<open>Sessions that are cut off\<close>

lemma commits_log_prefix: "commits_log topic pos w (xs @ ys) \<Longrightarrow> commits_log topic pos w xs"
  unfolding commits_log_def
proof
  fix p
  assume "\<forall>p. \<exists>k. of_partition p (commits (xs @ ys)) = take k (drop (pos p w) (topic p))"
  then obtain k where "of_partition p (commits xs) @ of_partition p (commits ys) = take k (drop (pos p w) (topic p))" by auto
  then show "\<exists>k. of_partition p (commits xs) = take k (drop (pos p w) (topic p))"
    by (metis append_eq_conv_conj take_take)
qed

lemma acked_safely_prefix: "acked_safely cfg seen (xs @ ys) \<Longrightarrow> acked_safely cfg seen xs"
  by (induction cfg seen xs rule: acked_safely.induct) auto

lemma delivered_later: "delivered cfg r evs \<Longrightarrow> delivered cfg r (xs @ evs @ ys)"
  unfolding delivered_def
proof (elim exE conjE)
  fix pre mid c post
  assume "evs = pre @ mid @ EvCommit r c # post" "commits mid = []" "settled cfg r mid"
  then show "\<exists>pre mid c post. xs @ evs @ ys = pre @ mid @ EvCommit r c # post \<and> commits mid = [] \<and> settled cfg r mid"
    by (intro exI [of _ "xs @ pre"] exI [of _ mid] exI [of _ c] exI [of _ "post @ ys"]) simp
qed

lemma acked_delivered:
  "acked_safely cfg seen evs \<Longrightarrow> commits seen = [] \<Longrightarrow> r \<in> set (commits evs) \<Longrightarrow> delivered cfg r (seen @ evs)"
proof (induction cfg seen evs rule: acked_safely.induct)
  case (2 cfg seen r' c evs)
  show ?case
  proof (cases "r = r'")
    case True
    with 2 have "seen @ EvCommit r' c # evs = [] @ seen @ EvCommit r c # evs" "commits seen = []" "settled cfg r seen" by auto
    then show ?thesis unfolding delivered_def by blast
  next
    case False
    with 2 have "delivered cfg r evs" by auto
    from delivered_later [OF this, of "seen @ [EvCommit r' c]" "[]"] show ?thesis by simp
  qed
qed auto

lemma resumes_append: "resumes p N (xs @ ys) = resumes p (resumes p N xs) ys"
  by (induction p N xs rule: resumes.induct) auto

lemma resumes_cases:
  "n \<in> resumes p N evs \<Longrightarrow> n \<in> N \<or> (\<exists>r \<in> set (of_partition p (commits evs)). n = nat (rec_offset r) + 1)"
  by (induction p N evs rule: resumes.induct) (auto split: if_splits)

text \<open>A session adds no gap: what may be resumed from lies behind delivered records only.\<close>

lemma session_no_gap:
  assumes log: "log_ok topic" and m: "m \<in> N" and "commits_log topic pos w evs" and "pos p w = m" and "acked_safely cfg [] evs"
    and old: "\<And>n i. n \<in> N \<Longrightarrow> i < n \<Longrightarrow> delivered cfg (topic p ! i) h"
    and n: "n \<in> resumes p N evs" and i: "i < n"
  shows "delivered cfg (topic p ! i) (h @ evs)"
proof -
  have h: "delivered cfg r h \<Longrightarrow> delivered cfg r (h @ evs)" for r using delivered_later [of cfg r h "[]" evs] by simp
  consider "n \<in> N" | r where "r \<in> set (of_partition p (commits evs))" "n = nat (rec_offset r) + 1"
    using resumes_cases [OF n] by blast
  then show ?thesis
  proof cases
    case 1
    then show ?thesis using old i h by blast
  next
    case 2
    from assms(3,4) obtain k where k: "of_partition p (commits evs) = take k (drop m (topic p))"
      unfolding commits_log_def by blast
    with 2(1) obtain j where j: "j < k" "m + j < length (topic p)" "r = topic p ! (m + j)"
      by (auto simp: in_set_conv_nth)
    with log 2(2) have n: "n = m + j + 1" by (simp add: log_ok_def)
    show ?thesis
    proof (cases "i < m")
      case True
      with old [OF m] h show ?thesis by blast
    next
      case False
      with n i j have "topic p ! i \<in> set (take k (drop m (topic p)))"
        by (auto simp: in_set_conv_nth intro!: exI [of _ "i - m"])
      with k have "topic p ! i \<in> set (commits evs)" by (metis filter_is_subset subsetD)
      with acked_delivered [OF assms(5)] have "delivered cfg (topic p ! i) evs" by simp
      from delivered_later [OF this, of h "[]"] show ?thesis by simp
    qed
  qed
qed

section \<open>Properties\<close>


text \<open>A topic with two records, a client that returns them one by one, a handler that accepts.\<close>

definition demo_topic :: "int \<Rightarrow> krecord list" where
  "demo_topic p = (if p = 0 then [demo_record\<lparr>rec_offset := 0\<rparr>, demo_record\<lparr>rec_offset := 1\<rparr>] else [])"

definition demo_pos :: "int \<Rightarrow> nat \<Rightarrow> nat" where
  "demo_pos p w = (if p = 0 then w else 0)"

definition reading_env :: "(nat, string list) consumer_env" where
  "reading_env = demo_env\<lparr>handler := \<lambda>c k v w. (None, w), poll := \<lambda>c w.
     if w < 2 then (\<lparr>fetch_err = None, fetch_records = [demo_topic 0 ! w]\<rparr>, Suc w)
     else (\<lparr>fetch_err = Some (Sentinel context_Canceled), fetch_records = []\<rparr>, w)\<rparr>"

lemma reading_env_session: "session_env demo_topic demo_pos reading_env"
proof -
  have part: "rec_partition (demo_topic 0 ! w) = 0" if "w < 2" for w
    using that by (auto simp: demo_topic_def demo_record_def less_2_cases_iff)
  have "\<exists>n. [demo_topic 0 ! w] = take n (drop w (demo_topic 0))" if "w < 2" for w
    using that by (intro exI [of _ 1]) (auto simp: demo_topic_def less_2_cases_iff)
  moreover have "\<exists>n. [] = take n xs" for xs :: "krecord list" by (intro exI [of _ 0]) simp
  ultimately show ?thesis
    by (auto simp: session_env_def reading_env_def demo_env_def demo_pos_def part)
qed


text \<open>
  C27. Records that arrive together with an error are lost: when a poll returns records and, for
  another partition, an error, the loop logs the error and polls again without processing the
  records, and as soon as a later record of their partition is handled the group resumes behind
  them, even in strict mode.
\<close>

theorem poll_error_loses_records:
  assumes "poll e ctx w = (\<lparr>fetch_err = Some err, fetch_records = rs\<rparr>, w1)" and "\<not> errors_is err context_Canceled"
    and "poll e ctx w1 = (\<lparr>fetch_err = None, fetch_records = [r']\<rparr>, w2)"
    and "\<forall>c w. ctx_err e c w = None" and "\<forall>c k v w. fst (handler e c k v w) = None" and "\<forall>c r w. fst (commit e c r w) = None"
  shows "\<exists>fl s'. Start 2 e cfg ctx \<lparr>world = w, trace = []\<rparr> = Some (fl, s') \<and>
    resumes (rec_partition r') {0} (trace s') = {nat (rec_offset r') + 1} \<and>
    (\<forall>r \<in> set rs. r \<noteq> r' \<longrightarrow> (\<forall>x. EvHandle r x \<notin> set (trace s')) \<and> \<not> delivered cfg r (trace s'))"
proof -
  let ?s = "emit (EvPollError err) \<lparr>world = w1, trace = []\<rparr>"
  have first: "start_iter e cfg ctx \<lparr>world = w, trace = []\<rparr> = Some (Continue ctx, ?s)"
    using assms(1,2) by (simp add: start_iter_def)
  obtain fl s' where next_iter: "start_iter e cfg ctx ?s = Some (Continue fl, s')"
    and tr: "trace s' = [EvPollError err, EvHandle r' None, EvCommit r' None]"
  proof -
    let ?c = "Extract e ctx (carrier_of (rec_headers r') Map.empty)"
    obtain w3 where h: "handler e (start_span e ?c r') (rec_key r') (rec_value r') w2 = (None, w3)" by (metis assms(5) prod.collapse)
    obtain w4 where c: "commit e (start_span e ?c r') r' w3 = (None, w4)" by (metis assms(6) prod.collapse)
    have "start_iter e cfg ctx ?s = Some (Continue ?c, \<lparr>world = w4, trace = [EvPollError err, EvHandle r' None, EvCommit r' None]\<rparr>)"
      using assms(3,4) h c by (simp add: start_iter_def processWithRetry_def retry_loop.simps call_handler_def emit_def)
    from that [OF this] show thesis by simp
  qed
  have "\<not> delivered cfg r (trace s')" if "r \<noteq> r'" for r
  proof -
    have "\<forall>c. EvCommit r c \<notin> set (trace s')" using tr that by simp
    then show ?thesis by (metis delivered_def in_set_conv_decomp append.assoc)
  qed
  with first next_iter tr show ?thesis by (auto simp: numeral_2_eq_2)
qed

text \<open>A client whose first poll carries an error of another partition.\<close>

definition failing_poll_env :: "(nat, string list) consumer_env" where
  "failing_poll_env = reading_env\<lparr>poll := \<lambda>c w.
     (\<lparr>fetch_err = (if w = 0 then Some (ErrorString ''partition 1: not leader'') else None),
       fetch_records = [demo_topic 0 ! w]\<rparr>, Suc w)\<rparr>"

theorem poll_error_loses_records_witness:
  "\<exists>fl s'. Start 2 failing_poll_env demo_cfg [] \<lparr>world = 0, trace = []\<rparr> = Some (fl, s') \<and> resumes 0 {0} (trace s') = {Suc (Suc 0)} \<and>
     \<not> delivered demo_cfg (demo_record\<lparr>rec_offset := 0\<rparr>) (trace s')"
proof -
  have "poll failing_poll_env [] 0 = (\<lparr>fetch_err = Some (ErrorString ''partition 1: not leader''),
      fetch_records = [demo_record\<lparr>rec_offset := 0\<rparr>]\<rparr>, 1)"
    and "poll failing_poll_env [] 1 = (\<lparr>fetch_err = None, fetch_records = [demo_record\<lparr>rec_offset := 1\<rparr>]\<rparr>, 2)"
    by (simp_all add: failing_poll_env_def demo_topic_def)
  note lost = poll_error_loses_records [OF this(1) _ this(2), of demo_cfg]
  have "\<exists>fl s'. Start 2 failing_poll_env demo_cfg [] \<lparr>world = 0, trace = []\<rparr> = Some (fl, s') \<and> resumes 0 {0} (trace s') = {Suc (Suc 0)} \<and>
     (\<forall>x. EvHandle (demo_record\<lparr>rec_offset := 0\<rparr>) x \<notin> set (trace s')) \<and>
     \<not> delivered demo_cfg (demo_record\<lparr>rec_offset := 0\<rparr>) (trace s')"
    using lost by (simp add: failing_poll_env_def reading_env_def demo_env_def demo_record_def)
  then show ?thesis by blast
qed

end
