(* ===== verification/Go_Channel.thy ===== *)
theory Go_Channel
  imports Prelude
begin

text \<open>
  A buffered Go channel: \<^verbatim>\<open>make(chan T, n)\<close>, a send that does not block, a receive and
  \<^verbatim>\<open>close\<close>.  The contract its clients rely on is the locale \<open>bounded_fifo\<close>: a list of
  elements under a capacity, from which elements leave in the order they came.
\<close>

record 'a chan =
  chan_buf :: "'a list"
  chan_cap :: nat
  chan_closed :: bool

datatype 'a send_result = Sent "'a chan" | Full | SendOnClosed

definition make_chan :: "nat \<Rightarrow> 'a chan" where
  "make_chan n = \<lparr>chan_buf = [], chan_cap = n, chan_closed = False\<rparr>"

text \<open>The send case of a \<^verbatim>\<open>select\<close>: on a closed channel it panics, on a full one it is not ready.\<close>

definition try_send :: "'a \<Rightarrow> 'a chan \<Rightarrow> 'a send_result" where
  "try_send x c =
     (if chan_closed c then SendOnClosed
      else if length (chan_buf c) < chan_cap c then Sent (c\<lparr>chan_buf := chan_buf c @ [x]\<rparr>)
      else Full)"

text \<open>A receive: the first element if there is one.\<close>

definition recv :: "'a chan \<Rightarrow> ('a \<times> 'a chan) option" where
  "recv c = (case chan_buf c of [] \<Rightarrow> None | x # xs \<Rightarrow> Some (x, c\<lparr>chan_buf := xs\<rparr>))"

definition close_chan :: "'a chan \<Rightarrow> 'a chan" where
  "close_chan c = c\<lparr>chan_closed := True\<rparr>"

text \<open>A \<^verbatim>\<open>range\<close> loop over the channel ends when it is closed and drained.\<close>

definition drained :: "'a chan \<Rightarrow> bool" where
  "drained c \<longleftrightarrow> chan_closed c \<and> chan_buf c = []"

definition chan_ok :: "'a chan \<Rightarrow> bool" where
  "chan_ok c \<longleftrightarrow> length (chan_buf c) \<le> chan_cap c"

locale bounded_fifo =
  fixes send :: "'a \<Rightarrow> 'q \<Rightarrow> 'q option"
    and receive :: "'q \<Rightarrow> ('a \<times> 'q) option"
    and shut :: "'q \<Rightarrow> 'q"
    and contents :: "'q \<Rightarrow> 'a list"
    and capacity :: "'q \<Rightarrow> nat"
    and is_shut :: "'q \<Rightarrow> bool"
  assumes send_contents: "send x q = Some q' \<Longrightarrow> contents q' = contents q @ [x]"
    and send_open: "send x q = Some q' \<Longrightarrow> \<not> is_shut q \<and> \<not> is_shut q'"
    and send_room: "send x q = Some q' \<Longrightarrow> length (contents q) < capacity q \<and> capacity q' = capacity q"
    and receive_contents: "receive q = Some (x, q') \<Longrightarrow> contents q = x # contents q'"
    and receive_frame: "receive q = Some (x, q') \<Longrightarrow> is_shut q' = is_shut q \<and> capacity q' = capacity q"
    and receive_ready: "contents q \<noteq> [] \<Longrightarrow> \<exists>x q'. receive q = Some (x, q')"
    and shut_contents: "contents (shut q) = contents q \<and> capacity (shut q) = capacity q \<and> is_shut (shut q)"
begin

text \<open>
  First in, first out: \<open>out\<close> is what was received so far and \<open>sent\<close> what was sent so far;
  \<open>out\<close> followed by the contents stays equal to \<open>sent\<close>.
\<close>

lemma send_conserves:
  "out @ contents q = sent \<Longrightarrow> send x q = Some q' \<Longrightarrow> out @ contents q' = sent @ [x]"
  using send_contents by fastforce

lemma receive_conserves:
  "out @ contents q = sent \<Longrightarrow> receive q = Some (x, q') \<Longrightarrow> (out @ [x]) @ contents q' = sent"
  using receive_contents by fastforce

lemma send_bounded: "send x q = Some q' \<Longrightarrow> length (contents q') \<le> capacity q'"
  using send_contents [of x q q'] send_room [of x q q'] by simp

lemma receive_bounded:
  "length (contents q) \<le> capacity q \<Longrightarrow> receive q = Some (x, q') \<Longrightarrow> length (contents q') \<le> capacity q'"
  using receive_contents [of q x q'] receive_frame [of q x q'] by simp

lemma shut_refuses: "send x (shut q) = None"
  using send_open [of x "shut q"] shut_contents by (cases "send x (shut q)") auto

end

definition chan_send :: "'a \<Rightarrow> 'a chan \<Rightarrow> 'a chan option" where
  "chan_send x c = (case try_send x c of Sent c' \<Rightarrow> Some c' | Full \<Rightarrow> None | SendOnClosed \<Rightarrow> None)"

lemma chan_send_iff: "chan_send x c = Some c' \<longleftrightarrow> try_send x c = Sent c'"
  by (auto simp: chan_send_def split: send_result.splits)

interpretation chan: bounded_fifo chan_send recv close_chan chan_buf chan_cap chan_closed
  by unfold_locales
    (auto simp: chan_send_def try_send_def recv_def close_chan_def split: if_splits list.splits)

end
