(* ===== verification/Json.thy ===== *)
theory Json
  imports Prelude
begin

text \<open>
  What the packages \<^verbatim>\<open>http/response\<close> and \<^verbatim>\<open>audit\<close> use of \<^verbatim>\<open>encoding/json\<close>: JSON values, the text the
  encoder writes for them with its string escapes, and, as the specification of that text, a
  reader of JSON.  The encoder works on bytes: a byte that is not part of valid UTF-8 is written
  as the escape of the replacement character, the two line separators \<^verbatim>\<open>U+2028\<close> and \<^verbatim>\<open>U+2029\<close> and
  the characters that matter in HTML are escaped, all other runes are copied.
\<close>

datatype json =
    JNull
  | JBool bool
  | JNum int
  | JStr string
  | JArr "json list"
  | JObj "(string \<times> json) list"

text \<open>A value of type \<^verbatim>\<open>interface{}\<close>: nil, a value with a JSON form, or one the encoder rejects.\<close>

datatype go_value = NilValue | JsonValue json | Unsupported go_error

section \<open>Runes\<close>

abbreviation byte :: "char \<Rightarrow> nat" where
  "byte \<equiv> of_char"

text \<open>
  What \<^verbatim>\<open>utf8.DecodeRuneInString\<close> accepts after a first byte of at least \<open>128\<close>: the number of
  continuation bytes and the range of the first of them.
\<close>

definition rune_lead :: "nat \<Rightarrow> (nat \<times> nat \<times> nat) option" where
  "rune_lead b =
     (if 0xC2 \<le> b \<and> b \<le> 0xDF then Some (1, 0x80, 0xBF)
      else if b = 0xE0 then Some (2, 0xA0, 0xBF)
      else if b = 0xED then Some (2, 0x80, 0x9F)
      else if 0xE1 \<le> b \<and> b \<le> 0xEF then Some (2, 0x80, 0xBF)
      else if b = 0xF0 then Some (3, 0x90, 0xBF)
      else if 0xF1 \<le> b \<and> b \<le> 0xF3 then Some (3, 0x80, 0xBF)
      else if b = 0xF4 then Some (3, 0x80, 0x8F)
      else None)"

definition rune_tail :: "char \<Rightarrow> string \<Rightarrow> nat option" where
  "rune_tail c s =
     (case rune_lead (byte c) of
        None \<Rightarrow> None
      | Some (n, lo, hi) \<Rightarrow>
          if n \<le> length s \<and> lo \<le> byte (hd s) \<and> byte (hd s) \<le> hi \<and>
             list_all (\<lambda>x. 0x80 \<le> byte x \<and> byte x \<le> 0xBF) (take n s)
          then Some n else None)"

section \<open>The encoder\<close>

definition hex_digit :: "nat \<Rightarrow> char" where
  "hex_digit n = char_of (if n < 10 then 48 + n else 87 + n)"

text \<open>A byte below \<open>128\<close>.\<close>

definition json_char :: "char \<Rightarrow> string" where
  "json_char c =
     (let n = byte c
      in if n = 34 \<or> n = 92 then [CHR 0x5C, c]
         else if n = 8 then [CHR 0x5C, CHR ''b'']
         else if n = 12 then [CHR 0x5C, CHR ''f'']
         else if n = 10 then [CHR 0x5C, CHR ''n'']
         else if n = 13 then [CHR 0x5C, CHR ''r'']
         else if n = 9 then [CHR 0x5C, CHR ''t'']
         else if n < 32 \<or> n = 60 \<or> n = 62 \<or> n = 38
         then [CHR 0x5C, CHR ''u'', CHR ''0'', CHR ''0'', hex_digit (n div 16), hex_digit (n mod 16)]
         else [c])"

text \<open>A rune of several bytes.\<close>

definition json_rune :: "string \<Rightarrow> string" where
  "json_rune r =
     (if r = [CHR 0xE2, CHR 0x80, CHR 0xA8] then [CHR 0x5C, CHR ''u'', CHR ''2'', CHR ''0'', CHR ''2'', CHR ''8'']
      else if r = [CHR 0xE2, CHR 0x80, CHR 0xA9] then [CHR 0x5C, CHR ''u'', CHR ''2'', CHR ''0'', CHR ''2'', CHR ''9'']
      else r)"

fun json_chars :: "string \<Rightarrow> string" where
  "json_chars [] = []"
| "json_chars (c # s) =
     (if byte c < 128 then json_char c @ json_chars s
      else (case rune_tail c s of
              None \<Rightarrow> [CHR 0x5C, CHR ''u'', CHR ''f'', CHR ''f'', CHR ''f'', CHR ''d''] @ json_chars s
            | Some n \<Rightarrow> json_rune (c # take n s) @ json_chars (drop n s)))"

definition json_string :: "string \<Rightarrow> string" where
  "json_string s = [CHR 0x22] @ json_chars s @ [CHR 0x22]"

fun commas :: "string list \<Rightarrow> string" where
  "commas [] = []"
| "commas [x] = x"
| "commas (x # xs) = x @ '','' @ commas xs"

fun render :: "json \<Rightarrow> string" where
  "render JNull = ''null''"
| "render (JBool b) = (if b then ''true'' else ''false'')"
| "render (JNum i) = itoa i"
| "render (JStr s) = json_string s"
| "render (JArr xs) = ''['' @ commas (map render xs) @ '']''"
| "render (JObj fs) = ''{'' @ commas (map (\<lambda>(k, v). json_string k @ '':'' @ render v) fs) @ ''}''"

text \<open>\<^verbatim>\<open>omitempty\<close> for strings and for interface values.\<close>

definition omit_string :: "string \<Rightarrow> string \<Rightarrow> (string \<times> json) list" where
  "omit_string k s = (if s = [] then [] else [(k, JStr s)])"

definition omit_value :: "string \<Rightarrow> go_value \<Rightarrow> go_error + (string \<times> json) list" where
  "omit_value k v = (case v of NilValue \<Rightarrow> Inr [] | JsonValue j \<Rightarrow> Inr [(k, j)] | Unsupported e \<Rightarrow> Inl e)"

section \<open>A reader of JSON\<close>

text \<open>Strings: the text after the opening quote; escapes of surrogates are not read.\<close>

definition hex_value :: "char \<Rightarrow> nat option" where
  "hex_value c =
     (let n = byte c
      in if 48 \<le> n \<and> n \<le> 57 then Some (n - 48)
         else if 97 \<le> n \<and> n \<le> 102 then Some (n - 87)
         else if 65 \<le> n \<and> n \<le> 70 then Some (n - 55) else None)"

definition hex4 :: "string \<Rightarrow> nat option" where
  "hex4 s =
     (case map hex_value s of
        [Some a, Some b, Some c, Some d] \<Rightarrow> Some (((a * 16 + b) * 16 + c) * 16 + d)
      | _ \<Rightarrow> None)"

definition utf8_encode :: "nat \<Rightarrow> string option" where
  "utf8_encode n =
     (if n < 0x80 then Some [char_of n]
      else if n < 0x800 then Some [char_of (0xC0 + n div 64), char_of (0x80 + n mod 64)]
      else if 0xD800 \<le> n \<and> n < 0xE000 then None
      else Some [char_of (0xE0 + n div 4096), char_of (0x80 + n div 64 mod 64), char_of (0x80 + n mod 64)])"

definition unescape :: "char \<Rightarrow> char option" where
  "unescape e = map_of [(CHR 0x22, CHR 0x22), (CHR 0x5C, CHR 0x5C), (CHR ''/'', CHR ''/''), (CHR ''b'', CHR 0x08),
     (CHR ''f'', CHR 0x0C), (CHR ''n'', CHR 0x0A), (CHR ''r'', CHR 0x0D), (CHR ''t'', CHR 0x09)] e"

definition before :: "string \<Rightarrow> (string \<times> string) option \<Rightarrow> (string \<times> string) option" where
  "before p r = map_option (\<lambda>(s, rest). (p @ s, rest)) r"

fun read_chars :: "string \<Rightarrow> (string \<times> string) option" where
  "read_chars [] = None"
| "read_chars (c # s) =
     (if c = CHR 0x22 then Some ([], s)
      else if c = CHR 0x5C then
        (case s of
           [] \<Rightarrow> None
         | e # t \<Rightarrow>
             if e = CHR ''u'' then
               (case Option.bind (hex4 (take 4 t)) utf8_encode of
                  None \<Rightarrow> None
                | Some p \<Rightarrow> before p (read_chars (drop 4 t)))
             else (case unescape e of None \<Rightarrow> None | Some x \<Rightarrow> before [x] (read_chars t)))
      else if byte c < 32 then None
      else before [c] (read_chars s))"

definition is_digit :: "char \<Rightarrow> bool" where
  "is_digit c \<longleftrightarrow> 48 \<le> byte c \<and> byte c \<le> 57"

definition digits_value :: "string \<Rightarrow> nat" where
  "digits_value ds = foldl (\<lambda>n c. n * 10 + (byte c - 48)) 0 ds"

definition read_nat :: "string \<Rightarrow> (nat \<times> string) option" where
  "read_nat s = (if takeWhile is_digit s = [] then None
     else Some (digits_value (takeWhile is_digit s), dropWhile is_digit s))"

definition read_int :: "string \<Rightarrow> (int \<times> string) option" where
  "read_int s =
     (case s of
        [] \<Rightarrow> None
      | c # t \<Rightarrow> if c = CHR ''-'' then map_option (\<lambda>(n, r). (- int n, r)) (read_nat t)
                else map_option (\<lambda>(n, r). (int n, r)) (read_nat s))"

definition skip_ws :: "string \<Rightarrow> string" where
  "skip_ws s = dropWhile (\<lambda>c. byte c \<in> {9, 10, 13, 32}) s"

definition read_literal :: "string \<Rightarrow> json \<Rightarrow> string \<Rightarrow> (json \<times> string) option" where
  "read_literal l j s = (if take (length l) s = l then Some (j, drop (length l) s) else None)"

text \<open>Values; the first argument bounds the recursion.\<close>

fun read_value :: "nat \<Rightarrow> string \<Rightarrow> (json \<times> string) option"
  and read_elems :: "nat \<Rightarrow> string \<Rightarrow> (json list \<times> string) option"
  and read_members :: "nat \<Rightarrow> string \<Rightarrow> ((string \<times> json) list \<times> string) option" where
  "read_value 0 s = None"
| "read_value (Suc n) s =
     (case skip_ws s of
        [] \<Rightarrow> None
      | c # t \<Rightarrow>
          if c = CHR 0x22 then map_option (\<lambda>(x, r). (JStr x, r)) (read_chars t)
          else if c = CHR ''['' then
            (if take 1 (skip_ws t) = '']'' then Some (JArr [], drop 1 (skip_ws t))
             else map_option (\<lambda>(xs, r). (JArr xs, r)) (read_elems n t))
          else if c = CHR ''{'' then
            (if take 1 (skip_ws t) = ''}'' then Some (JObj [], drop 1 (skip_ws t))
             else map_option (\<lambda>(fs, r). (JObj fs, r)) (read_members n t))
          else if c = CHR ''n'' then read_literal ''null'' JNull (c # t)
          else if c = CHR ''t'' then read_literal ''true'' (JBool True) (c # t)
          else if c = CHR ''f'' then read_literal ''false'' (JBool False) (c # t)
          else map_option (\<lambda>(i, r). (JNum i, r)) (read_int (c # t)))"
| "read_elems 0 s = None"
| "read_elems (Suc n) s =
     (case read_value n s of
        None \<Rightarrow> None
      | Some (v, t) \<Rightarrow>
          (case skip_ws t of
             [] \<Rightarrow> None
           | c # u \<Rightarrow>
               if c = CHR '','' then map_option (\<lambda>(vs, r). (v # vs, r)) (read_elems n u)
               else if c = CHR '']'' then Some ([v], u) else None))"
| "read_members 0 s = None"
| "read_members (Suc n) s =
     (if take 1 (skip_ws s) \<noteq> [CHR 0x22] then None
      else (case read_chars (drop 1 (skip_ws s)) of
              None \<Rightarrow> None
            | Some (k, t) \<Rightarrow>
                if take 1 (skip_ws t) \<noteq> '':'' then None
                else (case read_value n (drop 1 (skip_ws t)) of
                        None \<Rightarrow> None
                      | Some (v, u) \<Rightarrow>
                          (case skip_ws u of
                             [] \<Rightarrow> None
                           | c # u' \<Rightarrow>
                               if c = CHR '','' then map_option (\<lambda>(fs, r). ((k, v) # fs, r)) (read_members n u')
                               else if c = CHR ''}'' then Some ([(k, v)], u') else None))))"

text \<open>A whole text: one value and nothing but white space after it.\<close>

definition read_json :: "string \<Rightarrow> json option" where
  "read_json s =
     (case read_value (length s) s of
        None \<Rightarrow> None
      | Some (j, r) \<Rightarrow> if skip_ws r = [] then Some j else None)"

text \<open>What is left of a string after the encoder: invalid bytes are replacement characters.\<close>

fun valid_utf8 :: "string \<Rightarrow> string" where
  "valid_utf8 [] = []"
| "valid_utf8 (c # s) =
     (if byte c < 128 then c # valid_utf8 s
      else (case rune_tail c s of
              None \<Rightarrow> [CHR 0xEF, CHR 0xBF, CHR 0xBD] @ valid_utf8 s
            | Some n \<Rightarrow> c # take n s @ valid_utf8 (drop n s)))"

fun valid_json :: "json \<Rightarrow> json" where
  "valid_json (JStr s) = JStr (valid_utf8 s)"
| "valid_json (JArr xs) = JArr (map valid_json xs)"
| "valid_json (JObj fs) = JObj (map (\<lambda>(k, v). (valid_utf8 k, valid_json v)) fs)"
| "valid_json j = j"

section \<open>Facts\<close>

lemma render_nonempty [simp]: "render j \<noteq> []"
proof (cases j)
  case (JNum i)
  then show ?thesis by (simp add: itoa_def) (subst dec_digits.simps, simp)+
qed (simp_all add: json_string_def)

lemma before_before [simp]: "before p (before q r) = before (p @ q) r"
  by (cases r) (auto simp: before_def)

lemma before_Some [simp]: "before p (Some (s, r)) = Some (p @ s, r)"
  by (simp add: before_def)

lemma byte_neq: "byte c \<noteq> byte d \<Longrightarrow> c \<noteq> d"
  by auto

lemma of_char_less_256 [simp]: "byte c < 256"
  using of_char_mod_256 [of c, where ?'a = nat] by (metis mod_less_divisor zero_less_numeral)

lemma char_of_byte_eq: "byte c = n \<Longrightarrow> c = char_of n"
  by auto

text \<open>Bytes from \<open>128\<close> on are read as they are.\<close>

lemma read_chars_high: "list_all (\<lambda>c. 128 \<le> byte c) p \<Longrightarrow> read_chars (p @ s) = before p (read_chars s)"
proof (induction p)
  case Nil
  then show ?case by (cases "read_chars s") (auto simp: before_def)
next
  case (Cons c p)
  then have "c \<noteq> CHR 0x22" "c \<noteq> CHR 0x5C" "\<not> byte c < 32" by (auto intro!: byte_neq)
  with Cons show ?case by simp
qed

lemma hex_value_digit: "n < 16 \<Longrightarrow> hex_value (hex_digit n) = Some n"
  by (auto simp: hex_value_def hex_digit_def Let_def of_char_of take_bit_nat_eq_self)

lemma read_u_escape:
  "hex4 [a, b, c, d] = Some n \<Longrightarrow> utf8_encode n = Some p \<Longrightarrow>
   read_chars (CHR 0x5C # CHR ''u'' # a # b # c # d # s) = before p (read_chars s)"
  by simp

lemma read_simple_escape:
  "unescape e = Some x \<Longrightarrow> e \<noteq> CHR ''u'' \<Longrightarrow> read_chars (CHR 0x5C # e # s) = before [x] (read_chars s)"
  by simp

lemma read_char_escape:
  assumes "byte c < 128"
  shows "read_chars (json_char c @ s) = before [c] (read_chars s)"
proof -
  consider "byte c \<in> {34, 92}" | "byte c \<in> {8, 9, 10, 12, 13}"
    | "byte c < 32 \<or> byte c \<in> {60, 62, 38}" "byte c \<notin> {8, 9, 10, 12, 13}"
    | "32 \<le> byte c" "byte c \<notin> {34, 92, 60, 62, 38}" by fastforce
  then show ?thesis
  proof cases
    case 1
    then have "c = CHR 0x22 \<or> c = CHR 0x5C" by (auto dest!: char_of_byte_eq simp: char_of_def bit_simps bit_0)
    then show ?thesis by (auto simp: json_char_def unescape_def)
  next
    case 2
    then have "c = CHR 0x08 \<or> c = CHR 0x09 \<or> c = CHR 0x0A \<or> c = CHR 0x0C \<or> c = CHR 0x0D"
      by (auto dest!: char_of_byte_eq simp: char_of_def bit_simps bit_0)
    then show ?thesis by (auto simp: json_char_def unescape_def)
  next
    case 3
    then have "json_char c = [CHR 0x5C, CHR ''u'', CHR ''0'', CHR ''0'', hex_digit (byte c div 16), hex_digit (byte c mod 16)]"
      by (auto simp: json_char_def Let_def)
    moreover have "hex4 [CHR ''0'', CHR ''0'', hex_digit (byte c div 16), hex_digit (byte c mod 16)] = Some (byte c)"
      using assms by (simp add: hex4_def hex_value_digit) (simp add: hex_value_def)
    moreover have "utf8_encode (byte c) = Some [c]" using assms by (simp add: utf8_encode_def)
    ultimately show ?thesis using read_u_escape by simp
  next
    case 4
    then have "c \<noteq> CHR 0x22" "c \<noteq> CHR 0x5C" by (auto intro!: byte_neq)
    with 4 show ?thesis by (auto simp: json_char_def Let_def)
  qed
qed

lemma rune_tail_high:
  assumes "rune_tail c s = Some n" and "128 \<le> byte c"
  shows "list_all (\<lambda>x. 128 \<le> byte x) (c # take n s)"
  using assms by (auto simp: rune_tail_def list_all_iff split: option.splits if_splits)

lemma read_rune:
  assumes "list_all (\<lambda>x. 128 \<le> byte x) r"
  shows "read_chars (json_rune r @ s) = before r (read_chars s)"
proof -
  have "hex4 ''2028'' = Some 0x2028" "hex4 ''2029'' = Some 0x2029" by (simp_all add: hex4_def hex_value_def)
  moreover have "utf8_encode 0x2028 = Some [CHR 0xE2, CHR 0x80, CHR 0xA8]"
    "utf8_encode 0x2029 = Some [CHR 0xE2, CHR 0x80, CHR 0xA9]"
    by (simp_all add: utf8_encode_def char_of_def bit_simps bit_0)
  ultimately show ?thesis using read_chars_high [OF assms] read_u_escape by (auto simp: json_rune_def)
qed

text \<open>Reading what the encoder wrote for a string.\<close>

lemma read_chars_json_chars: "read_chars (json_chars s @ CHR 0x22 # rest) = Some (valid_utf8 s, rest)"
proof (induction s rule: json_chars.induct)
  case (2 c s)
  show ?case
  proof (cases "byte c < 128")
    case True
    with 2 show ?thesis by (simp add: read_char_escape)
  next
    case high: False
    show ?thesis
    proof (cases "rune_tail c s")
      case None
      have "hex4 ''fffd'' = Some 0xFFFD" by (simp add: hex4_def hex_value_def)
      moreover have "utf8_encode 0xFFFD = Some [CHR 0xEF, CHR 0xBF, CHR 0xBD]"
        by (simp add: utf8_encode_def char_of_def bit_simps bit_0)
      ultimately show ?thesis using 2 high None read_u_escape by simp
    next
      case (Some n)
      with high rune_tail_high [OF Some] have "list_all (\<lambda>x. 128 \<le> byte x) (c # take n s)" by simp
      from read_rune [OF this] 2 high Some show ?thesis by simp
    qed
  qed
qed simp

text \<open>Numbers.\<close>

lemma dec_digits_ok: "dec_digits n \<noteq> [] \<and> list_all is_digit (dec_digits n) \<and> digits_value (dec_digits n) = n"
proof (induction n rule: dec_digits.induct)
  case (1 n)
  have digit: "is_digit (char_of (48 + m :: nat)) \<and> byte (char_of (48 + m :: nat)) - 48 = m" if "m < 10" for m
    using that by (simp add: is_digit_def of_char_of take_bit_nat_eq_self)
  show ?case
  proof (cases "n < 10")
    case True
    then have "dec_digits n = [char_of (48 + n)]" by (subst dec_digits.simps) simp
    with True digit [of n] show ?thesis by (simp add: digits_value_def)
  next
    case False
    then have "dec_digits n = dec_digits (n div 10) @ [char_of (48 + n mod 10)]" by (subst dec_digits.simps) simp
    with 1 False digit [of "n mod 10"] show ?thesis by (simp add: digits_value_def)
  qed
qed

lemma digit_not_minus: "is_digit c \<Longrightarrow> c \<noteq> CHR ''-''"
  by (auto simp: is_digit_def)

lemma read_nat_digits:
  assumes "rest = [] \<or> \<not> is_digit (hd rest)"
  shows "read_nat (dec_digits n @ rest) = Some (n, rest)"
proof -
  have "takeWhile is_digit (dec_digits n @ rest) = dec_digits n \<and> dropWhile is_digit (dec_digits n @ rest) = rest"
    using dec_digits_ok [of n] assms by (cases rest) (auto simp: list_all_iff takeWhile_append dropWhile_append)
  with dec_digits_ok [of n] show ?thesis by (simp add: read_nat_def)
qed

lemma read_int_itoa:
  assumes "rest = [] \<or> \<not> is_digit (hd rest)"
  shows "read_int (itoa i @ rest) = Some (i, rest)"
proof (cases "i < 0")
  case True
  with read_nat_digits [OF assms] show ?thesis by (simp add: read_int_def itoa_def)
next
  case False
  obtain d ds where ds: "dec_digits (nat i) = d # ds" "is_digit d" using dec_digits_ok [of "nat i"] by (cases "dec_digits (nat i)") auto
  with False read_nat_digits [OF assms, of "nat i"] digit_not_minus show ?thesis by (auto simp: read_int_def itoa_def)
qed

text \<open>The first character of a value is no white space and no bracket that closes.\<close>

lemma render_head:
  obtains c t where "render j = c # t" "byte c \<notin> {9, 10, 13, 32, 93, 125}"
proof (cases j)
  case (JNum i)
  obtain d ds where "dec_digits (nat \<bar>i\<bar>) = d # ds" "is_digit d"
    using dec_digits_ok [of "nat \<bar>i\<bar>"] by (cases "dec_digits (nat \<bar>i\<bar>)") auto
  with JNum that show ?thesis by (cases "i < 0") (auto simp: itoa_def is_digit_def)
next
  case (JBool b)
  with that show ?thesis by (cases b) auto
qed (use that in \<open>auto simp: json_string_def\<close>)

lemma skip_ws_id: "byte c \<notin> {9, 10, 13, 32} \<Longrightarrow> skip_ws (c # t) = c # t"
  by (simp add: skip_ws_def)

lemma skip_ws_render [simp]: "skip_ws (render j @ r) = render j @ r"
  by (rule render_head [of j]) (auto simp: skip_ws_id)

lemma take_render_neq [simp]:
  "take (Suc 0) (render j @ r) \<noteq> '']''" "take (Suc 0) (render j @ r) \<noteq> ''}''"
  by (rule render_head [of j]; auto)+

section \<open>Reading what the encoder wrote\<close>

fun cost :: "json \<Rightarrow> nat" where
  "cost (JArr xs) = Suc (\<Sum>x \<leftarrow> xs. Suc (cost x))"
| "cost (JObj fs) = Suc (\<Sum>(k, v) \<leftarrow> fs. Suc (cost v))"
| "cost j = 1"

definition reads :: "json \<Rightarrow> bool" where
  "reads j \<longleftrightarrow> (\<forall>n rest. cost j \<le> n \<longrightarrow> rest = [] \<or> \<not> is_digit (hd rest) \<longrightarrow>
     read_value n (render j @ rest) = Some (valid_json j, rest))"

lemma readsD: "reads j \<Longrightarrow> cost j \<le> n \<Longrightarrow> \<not> is_digit c \<Longrightarrow> read_value n (render j @ c # t) = Some (valid_json j, c # t)"
  by (simp add: reads_def)

lemma read_elems_render:
  assumes "\<And>x. x \<in> set xs \<Longrightarrow> reads x" and "xs \<noteq> []" and "(\<Sum>x \<leftarrow> xs. Suc (cost x)) \<le> n"
  shows "read_elems n (commas (map render xs) @ CHR '']'' # rest) = Some (map valid_json xs, rest)"
  using assms
proof (induction xs arbitrary: n)
  case (Cons x xs)
  then obtain m where m: "n = Suc m" "cost x \<le> m" "(\<Sum>x \<leftarrow> xs. Suc (cost x)) \<le> m" by (cases n) auto
  from Cons.prems(1) have "reads x" by simp
  note x = readsD [OF this m(2)]
  show ?case
  proof (cases xs)
    case Nil
    with m x [of "CHR '']''" rest] show ?thesis by (simp add: is_digit_def skip_ws_def)
  next
    case (Cons y ys)
    with Cons.IH [of m] Cons.prems(1) m x [of "CHR '',''" "commas (map render xs) @ CHR '']'' # rest"] show ?thesis
      by (simp add: is_digit_def skip_ws_def)
  qed
qed simp

lemma read_members_render:
  assumes "\<And>k v. (k, v) \<in> set fs \<Longrightarrow> reads v" and "fs \<noteq> []" and "(\<Sum>(k, v) \<leftarrow> fs. Suc (cost v)) \<le> n"
  shows "read_members n (commas (map (\<lambda>(k, v). json_string k @ '':'' @ render v) fs) @ CHR ''}'' # rest) =
    Some (map (\<lambda>(k, v). (valid_utf8 k, valid_json v)) fs, rest)"
  using assms
proof (induction fs arbitrary: n)
  case (Cons f fs)
  obtain k v where f: "f = (k, v)" by fastforce
  with Cons.prems obtain m where m: "n = Suc m" "cost v \<le> m" "(\<Sum>(k, v) \<leftarrow> fs. Suc (cost v)) \<le> m" by (cases n) auto
  have "reads v" by (rule Cons.prems(1) [of k]) (simp add: f)
  note v = readsD [OF this m(2)]
  show ?case
  proof (cases fs)
    case Nil
    with f m v [of "CHR ''}''" rest] read_chars_json_chars [of k] show ?thesis
      by (simp add: is_digit_def skip_ws_def json_string_def)
  next
    case (Cons g gs)
    have "reads v'" if "(k', v') \<in> set fs" for k' v' using Cons.prems(1) [of k' v'] that by simp
    from Cons.IH [OF this _ m(3)] Cons f m
      v [of "CHR '',''" "commas (map (\<lambda>(k, v). json_string k @ '':'' @ render v) fs) @ CHR ''}'' # rest"]
      read_chars_json_chars [of k] show ?thesis
      by (simp add: is_digit_def skip_ws_def json_string_def)
  qed
qed simp

lemma readsI:
  assumes "\<And>n rest. cost j \<le> Suc n \<Longrightarrow> rest = [] \<or> \<not> is_digit (hd rest) \<Longrightarrow>
    read_value (Suc n) (render j @ rest) = Some (valid_json j, rest)"
  shows "reads j"
  unfolding reads_def
proof (intro allI impI)
  fix n rest
  assume n: "cost j \<le> n" and rest: "rest = [] \<or> \<not> is_digit (hd rest)"
  have "0 < cost j" by (cases j) auto
  with n obtain m where "n = Suc m" by (cases n) auto
  with assms n rest show "read_value n (render j @ rest) = Some (valid_json j, rest)" by simp
qed

lemma reads_JNum: "reads (JNum i)"
proof (rule readsI)
  fix n rest
  assume rest: "rest = [] \<or> \<not> is_digit (hd rest)"
  obtain c t where head: "itoa i = c # t" "c = CHR ''-'' \<or> is_digit c"
    using dec_digits_ok [of "nat \<bar>i\<bar>"] by (cases "dec_digits (nat \<bar>i\<bar>)"; cases "i < 0") (auto simp: itoa_def)
  then have "c \<noteq> CHR 0x22" "c \<noteq> CHR ''[''" "c \<noteq> CHR ''{''" "c \<noteq> CHR ''n''" "c \<noteq> CHR ''t''" "c \<noteq> CHR ''f''"
    "skip_ws (c # t @ rest) = c # t @ rest"
    by (auto simp: is_digit_def skip_ws_def)
  with head(1) read_int_itoa [OF rest, of i] show "read_value (Suc n) (render (JNum i) @ rest) = Some (valid_json (JNum i), rest)"
    by simp
qed

lemma commas_map_head: "xs \<noteq> [] \<Longrightarrow> \<exists>s. commas (map f xs) = f (hd xs) @ s"
proof (cases xs)
  case (Cons x ys)
  then show ?thesis by (cases ys) auto
qed simp

lemma reads_all: "reads j"
proof (induction j rule: json.induct)
  case (JArr xs)
  show ?case
  proof (cases "xs = []")
    case True
    then show ?thesis by (intro readsI) (simp add: skip_ws_def)
  next
    case False
    then obtain s where s: "commas (map render xs) = render (hd xs) @ s" using commas_map_head by blast
    show ?thesis
    proof (rule readsI)
      fix n rest assume "cost (JArr xs) \<le> Suc n"
      with read_elems_render [OF JArr False, of n rest] s take_render_neq(1) [of "hd xs" "s @ CHR '']'' # rest"]
      show "read_value (Suc n) (render (JArr xs) @ rest) = Some (valid_json (JArr xs), rest)"
        by (simp add: skip_ws_id del: take_append)
    qed
  qed
next
  case (JObj fs)
  have fs: "reads v" if "(k, v) \<in> set fs" for k v using JObj that by fastforce
  show ?case
  proof (cases "fs = []")
    case True
    then show ?thesis by (intro readsI) (simp add: skip_ws_def)
  next
    case False
    let ?f = "\<lambda>(k, v). json_string k @ '':'' @ render v"
    from False obtain s where s: "commas (map ?f fs) = ?f (hd fs) @ s" using commas_map_head by blast
    then obtain s' where s': "commas (map ?f fs) = CHR 0x22 # s'" by (simp add: json_string_def split: prod.splits)
    show ?thesis
    proof (rule readsI)
      fix n rest assume "cost (JObj fs) \<le> Suc n"
      with read_members_render [OF fs False, where n = n and rest = rest] s'
      show "read_value (Suc n) (render (JObj fs) @ rest) = Some (valid_json (JObj fs), rest)"
        by (simp add: skip_ws_id)
    qed
  qed
next
  case (JStr s)
  show ?case by (rule readsI) (simp add: json_string_def skip_ws_id read_chars_json_chars)
next
  case (JBool b)
  show ?case by (rule readsI) (cases b; simp add: skip_ws_id read_literal_def)
qed (auto intro!: readsI reads_JNum simp: skip_ws_id read_literal_def)

text \<open>The fuel of \<open>read_json\<close> is enough.\<close>

lemma length_commas: "xs \<noteq> [] \<Longrightarrow> Suc (length (commas xs)) = (\<Sum>x \<leftarrow> xs. Suc (length x))"
  by (induction xs rule: commas.induct) auto

lemma cost_bound: "cost j \<le> length (render j)"
proof (induction j rule: json.induct)
  case (JArr xs)
  then have "(\<Sum>x \<leftarrow> xs. Suc (cost x)) \<le> (\<Sum>x \<leftarrow> xs. Suc (length (render x)))" by (intro sum_list_mono) auto
  then show ?case using length_commas [of "map render xs"] by (cases "xs = []") (auto simp: o_def)
next
  case (JObj fs)
  let ?f = "\<lambda>(k, v). json_string k @ '':'' @ render v"
  have "(\<Sum>(k, v) \<leftarrow> fs. Suc (cost v)) \<le> (\<Sum>x \<leftarrow> fs. Suc (length (?f x)))"
    using JObj by (intro sum_list_mono) (fastforce intro: trans_le_add2)
  then show ?case using length_commas [of "map ?f fs"] by (cases "fs = []") (auto simp: o_def)
next
  case (JNum i)
  then show ?case using render_nonempty [of "JNum i"] by (cases "render (JNum i)") auto
qed (auto simp: json_string_def)

lemma read_json_render: "read_json (render j @ [CHR 0x0A]) = Some (valid_json j)"
proof -
  have "read_value (length (render j @ [CHR 0x0A])) (render j @ [CHR 0x0A]) = Some (valid_json j, [CHR 0x0A])"
    using cost_bound [of j] by (intro readsD reads_all) (auto simp: is_digit_def)
  then show ?thesis by (simp add: read_json_def skip_ws_def)
qed

lemma read_json_render_plain: "read_json (render j) = Some (valid_json j)"
proof -
  have "read_value (length (render j)) (render j @ []) = Some (valid_json j, [])"
    using reads_all [of j] cost_bound [of j] by (simp only: reads_def simp_thms)
  then show ?thesis by (simp add: read_json_def skip_ws_def)
qed

text \<open>The encoder writes no line break inside a value.\<close>

lemma hex_digit_no_newline: "n < 16 \<Longrightarrow> hex_digit n \<noteq> CHR 0x0A"
  by (rule byte_neq) (auto simp: hex_digit_def of_char_of take_bit_nat_eq_self)

lemma json_char_no_newline: "CHR 0x0A \<notin> set (json_char c)"
proof -
  have "byte c div 16 < 16" by (rule less_mult_imp_div_less) simp
  moreover have "byte c mod 16 < 16" by simp
  ultimately have "hex_digit (byte c div 16) \<noteq> CHR 0x0A" "hex_digit (byte c mod 16) \<noteq> CHR 0x0A"
    by (simp_all add: hex_digit_no_newline)
  then show ?thesis by (auto simp: json_char_def Let_def)
qed

lemma json_chars_no_newline: "CHR 0x0A \<notin> set (json_chars s)"
proof (induction s rule: json_chars.induct)
  case (2 c s)
  show ?case
  proof (cases "byte c < 128")
    case True
    with 2 json_char_no_newline show ?thesis by simp
  next
    case high: False
    show ?thesis
    proof (cases "rune_tail c s")
      case (Some n)
      from rune_tail_high [OF Some] high have "CHR 0x0A \<notin> set (c # take n s)" by (fastforce simp: list_all_iff)
      with 2 high Some show ?thesis by (auto simp: json_rune_def)
    qed (use 2 high in simp)
  qed
qed simp

lemma set_commas: "set (commas xs) \<subseteq> insert (CHR '','') (\<Union>x \<in> set xs. set x)"
  by (induction xs rule: commas.induct) auto

lemma render_no_newline: "CHR 0x0A \<notin> set (render j)"
proof (induction j rule: json.induct)
  case (JNum i)
  have "\<not> is_digit (CHR 0x0A)" by (simp add: is_digit_def)
  then have "CHR 0x0A \<notin> set (dec_digits n)" for n using dec_digits_ok [of n] by (auto simp: list_all_iff)
  then show ?case by (simp add: itoa_def)
next
  case (JArr xs)
  with set_commas [of "map render xs"] show ?case by auto
next
  case (JObj fs)
  with set_commas [of "map (\<lambda>(k, v). json_string k @ '':'' @ render v) fs"] json_chars_no_newline show ?case
    by (fastforce simp: json_string_def)
qed (auto simp: json_string_def json_chars_no_newline)

text \<open>A text of one value per line.\<close>

definition read_lines :: "string \<Rightarrow> json option list" where
  "read_lines s = map read_json (butlast (split_on (CHR 0x0A) s))"

lemma read_lines_render:
  "read_lines (concat (map (\<lambda>j. render j @ [CHR 0x0A]) js)) = map (Some \<circ> valid_json) js"
proof -
  have "split_on (CHR 0x0A) (concat (map (\<lambda>j. render j @ [CHR 0x0A]) js)) = map render js @ [[]]"
    by (induction js) (simp_all add: split_on_append render_no_newline)
  then show ?thesis by (simp add: read_lines_def read_json_render_plain)
qed

end
