(* ===== verification/Audit_Logger.thy ===== *)
theory Audit_Logger
  imports Go_Channel Json "HOL-Library.Multiset" "HOL-Library.Char_ord" "HOL-Library.List_Lexorder"
begin

text \<open>
  The package \<^verbatim>\<open>audit\<close>: the audit event, the asynchronous logger with its buffer strategies
  (\<^verbatim>\<open>async_writer.go\<close>), the Kafka logger and the no-op logger.

  \<open>Log\<close>, \<open>handleDrop\<close> and the constructor are functions.  What callers, the worker goroutine
  and \<open>Close\<close> do at the same time is the step relation \<open>audit_step\<close>, in which \<open>handleDrop\<close>
  is split at its atomic operations.  The worker's \<^verbatim>\<open>json.Encoder\<close> is modelled down to the bytes it
  writes and the error it keeps; the text of a time is the parameter \<open>time_text\<close>, because it
  depends on the time zone.
\<close>

section \<open>Events and configuration\<close>

text \<open>
  \<^verbatim>\<open>Timestamp\<close> is \<^term>\<open>None\<close> for Go's zero time, otherwise nanoseconds since the epoch;
  \<^verbatim>\<open>Metadata\<close> is a map, here a list of its entries in some order.
\<close>

record event =
  ActorID :: string
  Action :: string
  Resource :: string
  OldValue :: go_value
  NewValue :: go_value
  Timestamp :: "int option"
  Metadata :: "(string \<times> string) list"
  TraceID :: string

text \<open>The text of a time, or the error of \<^verbatim>\<open>Time.MarshalJSON\<close> for a year beyond four digits.\<close>

type_synonym time_text = "int \<Rightarrow> go_error + string"

definition event_time :: "time_text \<Rightarrow> event \<Rightarrow> go_error + string" where
  "event_time tt ev = (case Timestamp ev of None \<Rightarrow> Inr ''0001-01-01T00:00:00Z'' | Some t \<Rightarrow> tt t)"

text \<open>\<^verbatim>\<open>json.Marshal\<close> on an event: the fields in the order of the struct, a map sorted by its keys.\<close>

definition marshal_event :: "time_text \<Rightarrow> event \<Rightarrow> go_error + json" where
  "marshal_event tt ev =
     (case omit_value ''old_value'' (OldValue ev) of
        Inl e \<Rightarrow> Inl e
      | Inr old \<Rightarrow>
          (case omit_value ''new_value'' (NewValue ev) of
             Inl e \<Rightarrow> Inl e
           | Inr new \<Rightarrow>
               (case event_time tt ev of
                  Inl e \<Rightarrow> Inl e
                | Inr ts \<Rightarrow>
                    Inr (JObj ([(''actor_id'', JStr (ActorID ev)), (''action'', JStr (Action ev)),
                      (''resource'', JStr (Resource ev))] @ old @ new @ [(''timestamp'', JStr ts)] @
                      (if Metadata ev = [] then []
                       else [(''metadata'', JObj (map (\<lambda>(k, v). (k, JStr v)) (sort_key fst (Metadata ev))))]) @
                      omit_string ''trace_id'' (TraceID ev))))))"

record audit_config =
  Enabled :: bool
  BufferSize :: int
  BlockOnFull :: bool
  MaxBodySize :: int
  ExcludePaths :: "string list"
  MaskFields :: "string list"

text \<open>The defaults of the \<^verbatim>\<open>envconfig\<close> tags.\<close>

definition default_audit_config :: audit_config where
  "default_audit_config = \<lparr>Enabled = True, BufferSize = 1024, BlockOnFull = False, MaxBodySize = 32768,
     ExcludePaths = [''/health'', ''/metrics'', ''/live'', ''/ready''], MaskFields = []\<rparr>"

section \<open>The asynchronous logger\<close>

definition ErrAuditBufferFull :: go_error where
  "ErrAuditBufferFull = Sentinel ''audit: buffer full, log dropped''"

text \<open>Where a goroutine stands inside \<^verbatim>\<open>handleDrop\<close>, with the time it read and the action.\<close>

datatype drop_pc = Added string | Due int string | Stored int string

text \<open>
  The fields of \<^verbatim>\<open>AsyncLogger\<close>, the state of its worker goroutine (the event it holds, whether
  it has ended, the error its encoder keeps) and what can be seen from outside: the bytes
  written, the events given to the encoder with the error it returned, and the drop reports
  logged (time, \<^verbatim>\<open>dropped_count\<close>, action).
  \<open>accepted\<close> and \<open>drops\<close> count what callers did: events taken over, calls that dropped.
\<close>

record async_logger =
  events :: "event chan"
  blockOnFull :: bool
  dropCount :: "64 word"
  lastLogTime :: int
  inflight :: "event option"
  workerDone :: bool
  encErr :: "go_error option"
  written :: string
  processed :: "(event \<times> go_error option) list"
  reports :: "(int \<times> 64 word \<times> string) list"
  dropping :: "drop_pc multiset"
  accepted :: "event list"
  drops :: nat

definition NewAsyncLogger :: "int \<Rightarrow> bool \<Rightarrow> async_logger" where
  "NewAsyncLogger bufferSize block =
     \<lparr>events = make_chan (nat (if bufferSize \<le> 0 then 1024 else bufferSize)), blockOnFull = block,
      dropCount = 0, lastLogTime = 0, inflight = None, workerDone = False, encErr = None, written = [], processed = [],
      reports = [], dropping = {#}, accepted = [], drops = 0\<rparr>"

definition stamp :: "int \<Rightarrow> event \<Rightarrow> event" where
  "stamp now ev = (if Timestamp ev = None then ev\<lparr>Timestamp := Some now\<rparr> else ev)"

text \<open>
  The \<^verbatim>\<open>select\<close> of \<^verbatim>\<open>Log\<close>.  \<open>done\<close> is the context's error once it is done; \<open>pick\<close> is the
  runtime's choice when the send and \<^verbatim>\<open>ctx.Done()\<close> are both ready, true for the send.
\<close>

datatype log_decision = Enqueue "event chan" | DropWith go_error | Blocks | SendPanics

definition log_select :: "bool \<Rightarrow> go_error option \<Rightarrow> event \<Rightarrow> async_logger \<Rightarrow> log_decision" where
  "log_select pick done ev l =
     (if blockOnFull l then
        (case try_send ev (events l) of
           Sent c \<Rightarrow> (case done of None \<Rightarrow> Enqueue c | Some err \<Rightarrow> if pick then Enqueue c else DropWith err)
         | Full \<Rightarrow> (case done of None \<Rightarrow> Blocks | Some err \<Rightarrow> DropWith err)
         | SendOnClosed \<Rightarrow> (case done of None \<Rightarrow> SendPanics | Some err \<Rightarrow> if pick then SendPanics else DropWith err))
      else
        (case try_send ev (events l) of
           Sent c \<Rightarrow> Enqueue c
         | Full \<Rightarrow> DropWith ErrAuditBufferFull
         | SendOnClosed \<Rightarrow> SendPanics))"

text \<open>\<^verbatim>\<open>handleDrop\<close> run by one goroutine without interruption.\<close>

definition handleDrop :: "int \<Rightarrow> string \<Rightarrow> async_logger \<Rightarrow> async_logger" where
  "handleDrop now action l =
     (let l1 = l\<lparr>dropCount := dropCount l + 1, drops := Suc (drops l)\<rparr>
      in if now - lastLogTime l1 > 1 * minute
         then l1\<lparr>lastLogTime := now, dropCount := 0,
                 reports := reports l1 @ [(now, dropCount l1, action)]\<rparr>
         else l1)"

definition enqueue :: "event chan \<Rightarrow> event \<Rightarrow> async_logger \<Rightarrow> async_logger" where
  "enqueue c ev l = l\<lparr>events := c, accepted := accepted l @ [ev]\<rparr>"

text \<open>What a call of \<^verbatim>\<open>Log\<close> ends with: an error or nil, a panic, or no return yet.\<close>

datatype log_outcome = Returns "go_error option" | LogPanics | LogBlocks

definition Log ::
  "bool \<Rightarrow> go_error option \<Rightarrow> int \<Rightarrow> event \<Rightarrow> async_logger \<Rightarrow> log_outcome \<times> async_logger" where
  "Log pick done now event l =
     (let ev = stamp now event
      in case log_select pick done ev l of
           Enqueue c \<Rightarrow> (Returns None, enqueue c ev l)
         | DropWith err \<Rightarrow> (Returns (Some err), handleDrop now (Action ev) l)
         | Blocks \<Rightarrow> (LogBlocks, l)
         | SendPanics \<Rightarrow> (LogPanics, l))"

section \<open>Concurrent callers, the worker and Close\<close>

definition begin_drop :: "string \<Rightarrow> async_logger \<Rightarrow> async_logger" where
  "begin_drop action l = l\<lparr>dropCount := dropCount l + 1, drops := Suc (drops l),
     dropping := add_mset (Added action) (dropping l)\<rparr>"

definition check_due :: "int \<Rightarrow> string \<Rightarrow> async_logger \<Rightarrow> async_logger" where
  "check_due now action l =
     (if now - lastLogTime l > 1 * minute
      then l\<lparr>dropping := add_mset (Due now action) (dropping l - {#Added action#})\<rparr>
      else l\<lparr>dropping := dropping l - {#Added action#}\<rparr>)"

definition store_time :: "int \<Rightarrow> string \<Rightarrow> async_logger \<Rightarrow> async_logger" where
  "store_time now action l = l\<lparr>lastLogTime := now,
     dropping := add_mset (Stored now action) (dropping l - {#Due now action#})\<rparr>"

definition swap_report :: "int \<Rightarrow> string \<Rightarrow> async_logger \<Rightarrow> async_logger" where
  "swap_report now action l = l\<lparr>dropCount := 0,
     reports := reports l @ [(now, dropCount l, action)],
     dropping := dropping l - {#Stored now action#}\<rparr>"

text \<open>The worker: take an event from the channel, encode it, end when the channel is drained.\<close>

definition worker_recv :: "async_logger \<Rightarrow> async_logger option" where
  "worker_recv l =
     (if workerDone l \<or> inflight l \<noteq> None then None
      else map_option (\<lambda>(ev, c). l\<lparr>events := c, inflight := Some ev\<rparr>) (recv (events l)))"

text \<open>
  \<^verbatim>\<open>json.Encoder.Encode\<close>: an error of the writer is kept and returned by every later call.
  \<open>wr\<close> is what \<^verbatim>\<open>Write\<close> would answer: nil, or an error after some of the bytes.
\<close>

definition Encode ::
  "time_text \<Rightarrow> (nat \<times> go_error) option \<Rightarrow> event \<Rightarrow> async_logger \<Rightarrow> go_error option \<times> async_logger" where
  "Encode tt wr ev l =
     (case encErr l of
        Some err \<Rightarrow> (Some err, l)
      | None \<Rightarrow>
          (case marshal_event tt ev of
             Inl err \<Rightarrow> (Some err, l)
           | Inr j \<Rightarrow>
               (let b = render j @ [CHR 0x0A]
                in case wr of
                     None \<Rightarrow> (None, l\<lparr>written := written l @ b\<rparr>)
                   | Some (n, err) \<Rightarrow> (Some err, l\<lparr>written := written l @ take n b, encErr := Some err\<rparr>))))"

definition worker_encode :: "time_text \<Rightarrow> (nat \<times> go_error) option \<Rightarrow> async_logger \<Rightarrow> async_logger option" where
  "worker_encode tt wr l =
     map_option (\<lambda>ev. case Encode tt wr ev l of
        (err, l1) \<Rightarrow> l1\<lparr>inflight := None, processed := processed l1 @ [(ev, err)]\<rparr>) (inflight l)"

definition worker_exit :: "async_logger \<Rightarrow> async_logger option" where
  "worker_exit l =
     (if \<not> workerDone l \<and> inflight l = None \<and> drained (events l) then Some (l\<lparr>workerDone := True\<rparr>) else None)"

text \<open>\<^verbatim>\<open>Close\<close>: the channel is closed once; the call returns when the worker has ended.\<close>

definition Close :: "async_logger \<Rightarrow> async_logger" where
  "Close l = (if chan_closed (events l) then l else l\<lparr>events := close_chan (events l)\<rparr>)"

definition Close_returned :: "async_logger \<Rightarrow> bool" where
  "Close_returned l \<longleftrightarrow> chan_closed (events l) \<and> workerDone l"

datatype audit_label =
    LLog bool "go_error option" int event
  | LDrop bool "go_error option" int event
  | LCheck int string | LStore int string | LReport int string
  | LRecv | LEncode "(nat \<times> go_error) option" | LExit | LClose

inductive audit_step :: "time_text \<Rightarrow> async_logger \<Rightarrow> audit_label \<Rightarrow> async_logger \<Rightarrow> bool"
  for tt where
  log_ok: "log_select pick done (stamp now ev) l = Enqueue c \<Longrightarrow>
     audit_step tt l (LLog pick done now ev) (enqueue c (stamp now ev) l)"
| log_drop: "log_select pick done (stamp now ev) l = DropWith err \<Longrightarrow>
     audit_step tt l (LDrop pick done now ev) (begin_drop (Action (stamp now ev)) l)"
| drop_check: "Added action \<in># dropping l \<Longrightarrow> audit_step tt l (LCheck now action) (check_due now action l)"
| drop_store: "Due now action \<in># dropping l \<Longrightarrow> audit_step tt l (LStore now action) (store_time now action l)"
| drop_report: "Stored now action \<in># dropping l \<Longrightarrow>
     audit_step tt l (LReport now action) (swap_report now action l)"
| recv: "worker_recv l = Some l' \<Longrightarrow> audit_step tt l LRecv l'"
| encode: "worker_encode tt wr l = Some l' \<Longrightarrow> audit_step tt l (LEncode wr) l'"
| exit: "worker_exit l = Some l' \<Longrightarrow> audit_step tt l LExit l'"
| close: "audit_step tt l LClose (Close l)"

definition audit_init :: "int \<Rightarrow> bool \<Rightarrow> async_logger \<Rightarrow> bool" where
  "audit_init bufferSize block l \<longleftrightarrow> l = NewAsyncLogger bufferSize block"

section \<open>The other loggers\<close>

text \<open>The Kafka logger: its topic and the records handed to \<^verbatim>\<open>client.Produce\<close>, in order.\<close>

record kafka_logger =
  kl_topic :: string
  kl_produced :: "(string \<times> string) list"

definition NewKafkaLogger_topic :: "string \<Rightarrow> string" where
  "NewKafkaLogger_topic topic = (if topic = [] then ''system.audit.events'' else topic)"

definition KafkaLogger_Log ::
  "time_text \<Rightarrow> event \<Rightarrow> kafka_logger \<Rightarrow> go_error option \<times> kafka_logger" where
  "KafkaLogger_Log tt event k =
     (case marshal_event tt event of
        Inl err \<Rightarrow> (Some (wrap_prefix ''audit: marshal failed: '' err), k)
      | Inr j \<Rightarrow> (None, k\<lparr>kl_produced := kl_produced k @ [(kl_topic k, render j)]\<rparr>))"

definition NoopLogger_Log :: "event \<Rightarrow> 's \<Rightarrow> go_error option \<times> 's" where
  "NoopLogger_Log event s = (None, s)"

section \<open>Invariants and observations\<close>

text \<open>Events given to the encoder or held by the worker, in order.\<close>

definition handed :: "async_logger \<Rightarrow> event list" where
  "handed l = map fst (processed l) @ (case inflight l of None \<Rightarrow> [] | Some ev \<Rightarrow> [ev])"

text \<open>No accepted event is lost, duplicated or reordered; the buffer keeps its bound.\<close>

definition fifo_inv :: "async_logger \<Rightarrow> bool" where
  "fifo_inv l \<longleftrightarrow> handed l @ chan_buf (events l) = accepted l \<and> chan_ok (events l) \<and>
     (workerDone l \<longrightarrow> drained (events l) \<and> inflight l = None) \<and>
     (\<forall>ev \<in> set (accepted l). Timestamp ev \<noteq> None)"

text \<open>Every drop is counted: still in the counter or in a report, modulo the counter's width.\<close>

definition drop_inv :: "async_logger \<Rightarrow> bool" where
  "drop_inv l \<longleftrightarrow> of_nat (drops l) = dropCount l + (\<Sum>(t, n, a) \<leftarrow> reports l. n)"

text \<open>The line of an event, and what an undisturbed encoder has written.\<close>

definition event_line :: "time_text \<Rightarrow> event \<Rightarrow> string" where
  "event_line tt ev = (case marshal_event tt ev of Inl _ \<Rightarrow> [] | Inr j \<Rightarrow> render j @ [CHR 0x0A])"

definition trail_inv :: "time_text \<Rightarrow> async_logger \<Rightarrow> bool" where
  "trail_inv tt l \<longleftrightarrow> encErr l = None \<longrightarrow> written l = concat (map (event_line tt) (map fst (processed l)))"

text \<open>A step of the worker alone, with a writer that accepts.\<close>

definition worker_step :: "time_text \<Rightarrow> async_logger \<Rightarrow> async_logger \<Rightarrow> bool" where
  "worker_step tt l l' \<longleftrightarrow> (\<exists>lab \<in> {LRecv, LEncode None, LExit}. audit_step tt l lab l')"

text \<open>Reports more than a minute apart.\<close>

definition spaced :: "async_logger \<Rightarrow> bool" where
  "spaced l \<longleftrightarrow> sorted_wrt (\<lambda>(t, _) (t', _). t' - t > 1 * minute) (reports l) \<and>
     (\<forall>(t, _) \<in> set (reports l). t \<le> lastLogTime l)"

text \<open>One goroutine that logs a list of events, each with its context and its time.\<close>

fun log_all :: "(bool \<times> go_error option \<times> int \<times> event) list \<Rightarrow> async_logger \<Rightarrow> async_logger" where
  "log_all [] l = l"
| "log_all ((pick, done, now, ev) # calls) l = log_all calls (snd (Log pick done now ev l))"

text \<open>A concrete event and a logger with a full buffer of one.\<close>

definition sample :: event where
  "sample = \<lparr>ActorID = ''u'', Action = ''A'', Resource = ''r'', OldValue = NilValue, NewValue = NilValue,
     Timestamp = Some 5, Metadata = [], TraceID = []\<rparr>"

definition demo_time :: time_text where
  "demo_time t = Inr (itoa t)"

definition full_logger :: async_logger where
  "full_logger = enqueue \<lparr>chan_buf = [sample], chan_cap = 1, chan_closed = False\<rparr> sample (NewAsyncLogger 1 False)"

text \<open>The event without its time, which \<^verbatim>\<open>Log\<close> may fill in.\<close>

definition untimed :: "event \<Rightarrow> event" where
  "untimed ev = ev\<lparr>Timestamp := None\<rparr>"

text \<open>
  \<^verbatim>\<open>Log\<close> as the interface \<^verbatim>\<open>audit.Logger\<close> has it, for a logger that accepts: in the non-blocking
  mode and before \<open>Close\<close> a call neither blocks nor panics.
\<close>

definition log_call :: "int \<Rightarrow> event \<Rightarrow> async_logger \<Rightarrow> go_error option \<times> async_logger" where
  "log_call now ev l = (case Log True None now ev l of (Returns r, l') \<Rightarrow> (r, l') | (_, l') \<Rightarrow> (Some ErrAuditBufferFull, l'))"

definition accepting :: "async_logger \<Rightarrow> bool" where
  "accepting l \<longleftrightarrow> \<not> blockOnFull l \<and> \<not> chan_closed (events l)"

text \<open>A client of \<^verbatim>\<open>audit.Logger\<close> that logs a list of events: those for which it got nil.\<close>

fun run_log ::
  "(event \<Rightarrow> 's \<Rightarrow> go_error option \<times> 's) \<Rightarrow> event list \<Rightarrow> 's \<Rightarrow> event list \<times> 's" where
  "run_log log_event [] s = ([], s)"
| "run_log log_event (ev # evs) s =
     (case log_event ev s of (r, s1) \<Rightarrow>
        (case run_log log_event evs s1 of (oks, s2) \<Rightarrow> (if r = None then ev # oks else oks, s2)))"

section \<open>The invariants hold\<close>

lemma log_select_Enqueue:
  "log_select pick done ev l = Enqueue c \<Longrightarrow> chan_send ev (events l) = Some c"
  by (auto simp: log_select_def chan_send_iff split: if_splits send_result.splits option.splits)

lemma stamp_set [simp]: "Timestamp (stamp now ev) \<noteq> None"
  by (simp add: stamp_def)

lemma drained_closed: "drained c \<Longrightarrow> chan_send ev c = None"
  by (simp add: drained_def chan_send_def try_send_def)

lemma fifo_enqueue:
  assumes "chan_send ev (events l) = Some c" "fifo_inv l" "Timestamp ev \<noteq> None"
  shows "fifo_inv (enqueue c ev l)"
  using assms chan.send_conserves [of "handed l" "events l" "accepted l" ev c]
    chan.send_bounded [of ev "events l" c] drained_closed [of "events l" ev]
  by (auto simp: fifo_inv_def enqueue_def handed_def chan_ok_def)

lemma fifo_recv:
  assumes "worker_recv l = Some l'" "fifo_inv l"
  shows "fifo_inv l'"
proof -
  from assms(1) obtain ev c where r: "recv (events l) = Some (ev, c)" "\<not> workerDone l" "inflight l = None"
      "l' = l\<lparr>events := c, inflight := Some ev\<rparr>"
    by (auto simp: worker_recv_def split: if_splits)
  with assms(2) chan.receive_conserves [OF _ r(1)] chan.receive_bounded [OF _ r(1)] show ?thesis
    by (auto simp: fifo_inv_def handed_def chan_ok_def)
qed

lemma Encode_result:
  "Encode tt wr ev l = (err, l1) \<Longrightarrow> l1 = l\<lparr>encErr := encErr l1, written := written l1\<rparr>"
  by (auto simp: Encode_def Let_def split: option.splits sum.splits prod.splits)

lemma worker_encode_cases:
  assumes "worker_encode tt wr l = Some l'"
  obtains ev err l1 where "inflight l = Some ev" "Encode tt wr ev l = (err, l1)"
    "l' = l\<lparr>encErr := encErr l1, written := written l1, inflight := None, processed := processed l @ [(ev, err)]\<rparr>"
proof -
  from assms obtain ev where i: "inflight l = Some ev" by (auto simp: worker_encode_def)
  obtain err l1 where r: "Encode tt wr ev l = (err, l1)" by fastforce
  with assms i have "l' = l1\<lparr>inflight := None, processed := processed l1 @ [(ev, err)]\<rparr>"
    by (simp add: worker_encode_def)
  note e = i r this
  have "l' = l\<lparr>encErr := encErr l1, written := written l1, inflight := None, processed := processed l @ [(ev, err)]\<rparr>"
    unfolding e(3) by (subst (1 2) Encode_result [OF e(2)]) simp
  with e that show thesis by blast
qed

lemma fifo_encode: "worker_encode tt wr l = Some l' \<Longrightarrow> fifo_inv l \<Longrightarrow> fifo_inv l'"
  by (elim worker_encode_cases) (auto simp: fifo_inv_def handed_def)

lemma fifo_exit: "worker_exit l = Some l' \<Longrightarrow> fifo_inv l \<Longrightarrow> fifo_inv l'"
  by (auto simp: worker_exit_def fifo_inv_def handed_def split: if_splits)

lemma fifo_close: "fifo_inv l \<Longrightarrow> fifo_inv (Close l)"
  by (auto simp: Close_def close_chan_def drained_def fifo_inv_def handed_def chan_ok_def)

lemma fifo_frame:
  "fifo_inv (l\<lparr>dropCount := d, lastLogTime := t, reports := r, dropping := m, drops := n\<rparr>) = fifo_inv l"
  by (simp add: fifo_inv_def handed_def)

lemma fifo_drop_ops:
  "fifo_inv (begin_drop a l) = fifo_inv l" "fifo_inv (check_due now a l) = fifo_inv l"
  "fifo_inv (store_time now a l) = fifo_inv l" "fifo_inv (swap_report now a l) = fifo_inv l"
  by (simp_all add: begin_drop_def check_due_def store_time_def swap_report_def fifo_inv_def handed_def)

lemma fifo_log:
  "log_select pick done (stamp now ev) l = Enqueue c \<Longrightarrow> fifo_inv l \<Longrightarrow>
   fifo_inv (enqueue c (stamp now ev) l)"
  by (rule fifo_enqueue [OF log_select_Enqueue]) (simp_all only: stamp_set not_False_eq_True)

interpretation fifo: inductive_invariant "audit_init n b" "audit_step tt" fifo_inv
proof unfold_locales
  fix l assume "audit_init n b l"
  then show "fifo_inv l"
    by (simp add: audit_init_def NewAsyncLogger_def fifo_inv_def handed_def make_chan_def chan_ok_def)
next
  fix l lab l' assume "audit_step tt l lab l'" "fifo_inv l"
  then show "fifo_inv l'"
    by (induction rule: audit_step.induct)
      (auto simp: fifo_drop_ops fifo_close intro: fifo_log fifo_recv fifo_encode fifo_exit)
qed

lemma drop_frame:
  "worker_recv l = Some l' \<Longrightarrow> drop_inv l' = drop_inv l"
  "worker_encode tt wr l = Some l' \<Longrightarrow> drop_inv l' = drop_inv l"
  "worker_exit l = Some l' \<Longrightarrow> drop_inv l' = drop_inv l"
  "drop_inv (Close l) = drop_inv l" "drop_inv (enqueue c ev l) = drop_inv l"
  by (auto simp: worker_recv_def worker_exit_def Close_def enqueue_def drop_inv_def
      split: if_splits elim!: worker_encode_cases)

lemma drop_inv_ops:
  "drop_inv l \<Longrightarrow> drop_inv (begin_drop a l)" "drop_inv l \<Longrightarrow> drop_inv (check_due now a l)"
  "drop_inv l \<Longrightarrow> drop_inv (store_time now a l)" "drop_inv l \<Longrightarrow> drop_inv (swap_report now a l)"
  by (simp_all add: begin_drop_def check_due_def store_time_def swap_report_def drop_inv_def algebra_simps)

interpretation drop: inductive_invariant "audit_init n b" "audit_step tt" drop_inv
proof unfold_locales
  fix l assume "audit_init n b l"
  then show "drop_inv l" by (simp add: audit_init_def NewAsyncLogger_def drop_inv_def)
next
  fix l lab l' assume "audit_step tt l lab l'" "drop_inv l"
  then show "drop_inv l'"
    by (induction rule: audit_step.induct) (auto simp: drop_frame intro: drop_inv_ops)
qed

lemma trail_frame:
  "worker_recv l = Some l' \<Longrightarrow> trail_inv tt l' = trail_inv tt l"
  "worker_exit l = Some l' \<Longrightarrow> trail_inv tt l' = trail_inv tt l"
  "trail_inv tt (Close l) = trail_inv tt l" "trail_inv tt (enqueue c ev l) = trail_inv tt l"
  "trail_inv tt (begin_drop a l) = trail_inv tt l" "trail_inv tt (check_due now a l) = trail_inv tt l"
  "trail_inv tt (store_time now a l) = trail_inv tt l" "trail_inv tt (swap_report now a l) = trail_inv tt l"
  by (auto simp: worker_recv_def worker_exit_def Close_def enqueue_def begin_drop_def check_due_def
      store_time_def swap_report_def trail_inv_def split: if_splits)

lemma trail_encode: "worker_encode tt wr l = Some l' \<Longrightarrow> trail_inv tt l \<Longrightarrow> trail_inv tt l'"
  by (elim worker_encode_cases)
    (auto simp: trail_inv_def Encode_def event_line_def Let_def split: option.splits sum.splits prod.splits)

interpretation trail: inductive_invariant "audit_init n b" "audit_step tt" "trail_inv tt"
proof unfold_locales
  fix l assume "audit_init n b l"
  then show "trail_inv tt l" by (simp add: audit_init_def NewAsyncLogger_def trail_inv_def)
next
  fix l lab l' assume "audit_step tt l lab l'" "trail_inv tt l"
  then show "trail_inv tt l'"
    by (induction rule: audit_step.induct) (auto simp: trail_frame intro: trail_encode)
qed

text \<open>Once the writer has failed, a step writes nothing and every event the worker takes is lost.\<close>

definition silenced :: "go_error \<Rightarrow> async_logger \<Rightarrow> async_logger \<Rightarrow> bool" where
  "silenced err l l' \<longleftrightarrow> encErr l' = Some err \<and> written l' = written l \<and>
     (\<exists>evs. processed l' = processed l @ map (\<lambda>ev. (ev, Some err)) evs)"

lemma silenced_refl: "encErr l = Some err \<Longrightarrow> silenced err l l"
  by (auto simp: silenced_def intro: exI [of _ "[]"])

lemma silenced_encode:
  assumes "silenced err l0 l" and "worker_encode tt wr l = Some l'"
  shows "silenced err l0 l'"
proof -
  from assms(1) obtain evs where l: "encErr l = Some err" "written l = written l0"
    "processed l = processed l0 @ map (\<lambda>ev. (ev, Some err)) evs" by (auto simp: silenced_def)
  from assms(2) obtain ev where "l' = l\<lparr>inflight := None, processed := processed l @ [(ev, Some err)]\<rparr>"
    by (elim worker_encode_cases) (auto simp: Encode_def l)
  with l have "encErr l' = Some err \<and> written l' = written l0 \<and>
      processed l' = processed l0 @ map (\<lambda>ev. (ev, Some err)) (evs @ [ev])" by simp
  then show ?thesis unfolding silenced_def by blast
qed

lemma silenced_step: "audit_step tt l lab l' \<Longrightarrow> silenced err l0 l \<Longrightarrow> silenced err l0 l'"
proof (induction rule: audit_step.induct)
  case (encode wr l l')
  then show ?case by (blast intro: silenced_encode)
qed (auto simp: silenced_def worker_recv_def worker_exit_def Close_def enqueue_def begin_drop_def check_due_def
    store_time_def swap_report_def split: if_splits)

lemma worker_finishes:
  "chan_closed (events l) \<Longrightarrow> \<exists>l'. (worker_step tt)\<^sup>*\<^sup>* l l' \<and> workerDone l' \<and> accepted l' = accepted l"
proof (induction "2 * length (chan_buf (events l)) + (if inflight l = None then 0 else 1)"
    arbitrary: l rule: less_induct)
  case less
  consider (ended) "workerDone l" | (enc) ev where "\<not> workerDone l" "inflight l = Some ev"
    | (recv) ev rest where "\<not> workerDone l" "inflight l = None" "chan_buf (events l) = ev # rest"
    | (exit) "\<not> workerDone l" "inflight l = None" "chan_buf (events l) = []"
    by (cases "inflight l"; cases "chan_buf (events l)") auto
  then show ?case
  proof cases
    case ended then show ?thesis by auto
  next
    case enc
    then obtain l2 where e: "worker_encode tt None l = Some l2" by (auto simp: worker_encode_def)
    then have l2: "events l2 = events l" "accepted l2 = accepted l" "inflight l2 = None"
      by (auto elim!: worker_encode_cases)
    have st: "worker_step tt l l2"
      using e by (auto simp: worker_step_def intro!: audit_step.encode)
    from less.hyps [of l2] less.prems enc l2 obtain l' where
      "(worker_step tt)\<^sup>*\<^sup>* l2 l'" "workerDone l'" "accepted l' = accepted l" by auto
    with st show ?thesis by (meson converse_rtranclp_into_rtranclp)
  next
    case recv
    let ?l = "l\<lparr>events := (events l)\<lparr>chan_buf := rest\<rparr>, inflight := Some ev\<rparr>"
    have st: "worker_step tt l ?l"
      using recv by (auto simp: worker_step_def worker_recv_def recv_def intro!: audit_step.recv)
    from less.hyps [of ?l] less.prems recv obtain l' where
      "(worker_step tt)\<^sup>*\<^sup>* ?l l'" "workerDone l'" "accepted l' = accepted l" by auto
    with st show ?thesis by (meson converse_rtranclp_into_rtranclp)
  next
    case exit
    let ?l = "l\<lparr>workerDone := True\<rparr>"
    have st: "worker_step tt l ?l"
      using exit less.prems
      by (auto simp: worker_step_def worker_exit_def drained_def intro!: audit_step.exit)
    have "(worker_step tt)\<^sup>*\<^sup>* l ?l \<and> workerDone ?l \<and> accepted ?l = accepted l"
      using st by (simp add: r_into_rtranclp)
    then show ?thesis by blast
  qed
qed

lemma handleDrop_spaced: "spaced l \<Longrightarrow> spaced (handleDrop now a l)"
  by (fastforce simp: spaced_def handleDrop_def Let_def sorted_wrt_append)

lemma Log_cases:
  "Log pick done now ev l = (out, l') \<Longrightarrow>
    (\<exists>c. out = Returns None \<and> l' = enqueue c (stamp now ev) l \<and> chan_send (stamp now ev) (events l) = Some c) \<or>
    (\<exists>err. out = Returns (Some err) \<and> l' = handleDrop now (Action (stamp now ev)) l) \<or>
    (out \<in> {LogPanics, LogBlocks} \<and> l' = l)"
  by (auto simp: Log_def Let_def split: log_decision.splits dest: log_select_Enqueue)

lemma enqueue_spaced [simp]: "spaced (enqueue c ev l) = spaced l"
  by (simp add: spaced_def enqueue_def)

lemma Log_spaced: "spaced l \<Longrightarrow> spaced (snd (Log pick done now ev l))"
  using Log_cases [of pick "done" now ev l] by (cases "Log pick done now ev l") (auto intro: handleDrop_spaced)

lemma log_all_spaced: "spaced l \<Longrightarrow> spaced (log_all calls l)"
  by (induction calls l rule: log_all.induct) (auto intro: Log_spaced)

lemma handleDrop_atomic_steps:
  assumes "now - lastLogTime l > 1 * minute"
  shows "swap_report now a (store_time now a (check_due now a (begin_drop a l))) = handleDrop now a l"
  using assms by (simp add: swap_report_def store_time_def check_due_def begin_drop_def handleDrop_def Let_def)

lemma handleDrop_atomic_steps_quiet:
  assumes "\<not> now - lastLogTime l > 1 * minute"
  shows "check_due now a (begin_drop a l) = handleDrop now a l"
  using assms by (simp add: check_due_def begin_drop_def handleDrop_def Let_def)

lemma full_logger_reach: "reach (audit_init 1 False) (audit_step tt) full_logger"
proof -
  have "audit_step tt (NewAsyncLogger 1 False) (LLog True None 0 sample)
     (enqueue \<lparr>chan_buf = [sample], chan_cap = 1, chan_closed = False\<rparr> (stamp 0 sample) (NewAsyncLogger 1 False))"
    by (rule audit_step.log_ok)
      (simp add: log_select_def NewAsyncLogger_def try_send_def make_chan_def stamp_def sample_def)
  moreover have "stamp 0 sample = sample" by (simp add: stamp_def sample_def)
  ultimately show ?thesis
    by (auto simp: full_logger_def audit_init_def intro: reach_step [OF reach_init])
qed

lemma drop_step:
  assumes "reach (audit_init n b) (audit_step tt) l" "\<not> blockOnFull l" "\<not> chan_closed (events l)"
    "length (chan_buf (events l)) \<ge> chan_cap (events l)"
  shows "reach (audit_init n b) (audit_step tt) (begin_drop ''A'' l)"
proof -
  have "audit_step tt l (LDrop True None 0 sample) (begin_drop (Action (stamp 0 sample)) l)"
    by (rule audit_step.log_drop [where err = ErrAuditBufferFull])
      (use assms in \<open>simp add: log_select_def try_send_def\<close>)
  with assms(1) show ?thesis by (auto simp: sample_def stamp_def intro: reach_step)
qed

lemma reach_check:
  "reach (audit_init n b) (audit_step tt) l \<Longrightarrow> Added a \<in># dropping l \<Longrightarrow>
   reach (audit_init n b) (audit_step tt) (check_due now a l)"
  by (blast intro: reach_step audit_step.drop_check)

lemma reach_store:
  "reach (audit_init n b) (audit_step tt) l \<Longrightarrow> Due now a \<in># dropping l \<Longrightarrow>
   reach (audit_init n b) (audit_step tt) (store_time now a l)"
  by (blast intro: reach_step audit_step.drop_store)

lemma reach_report:
  "reach (audit_init n b) (audit_step tt) l \<Longrightarrow> Stored now a \<in># dropping l \<Longrightarrow>
   reach (audit_init n b) (audit_step tt) (swap_report now a l)"
  by (blast intro: reach_step audit_step.drop_report)

lemma racing_reports:
  "\<exists>l. reach (audit_init 1 False) (audit_step tt) l \<and>
    reports l = [(hour, 2, ''A''), (hour, 0, ''A'')] \<and> drops l = 2"
proof -
  let ?R = "reach (audit_init 1 False) (audit_step tt)"
  let ?l0 = "begin_drop ''A'' (begin_drop ''A'' full_logger)"
  let ?l2 = "check_due hour ''A'' (check_due hour ''A'' ?l0)"
  let ?l4 = "store_time hour ''A'' (store_time hour ''A'' ?l2)"
  let ?l6 = "swap_report hour ''A'' (swap_report hour ''A'' ?l4)"
  note defs = begin_drop_def check_due_def store_time_def swap_report_def full_logger_def enqueue_def
    NewAsyncLogger_def
  have "?R ?l0" by (rule drop_step [OF drop_step [OF full_logger_reach]]) (simp_all add: defs)
  then have "?R ?l2" 
    by (rule reach_check [OF reach_check]) (simp_all add: defs)
  then have "?R ?l4" 
    by (rule reach_store [OF reach_store]) (simp_all add: defs)
  then have "?R ?l6" 
    by (rule reach_report [OF reach_report]) (simp_all add: defs)
  moreover have "reports ?l6 = [(hour, 2, ''A''), (hour, 0, ''A'')]" "drops ?l6 = 2"
    by (simp_all add: defs)
  ultimately show ?thesis by blast
qed

section \<open>The interface audit.Logger\<close>

text \<open>
  What the users of \<^verbatim>\<open>audit.Logger\<close> rely on: nil means that the event is recorded, an error
  that it is not.  \<open>usable\<close> says when the logger may be called.  The no-op logger is made to
  break this contract and is not an instance.
\<close>

locale audit_logger =
  fixes log_event :: "event \<Rightarrow> 's \<Rightarrow> go_error option \<times> 's"
    and recorded :: "'s \<Rightarrow> 'p list"
    and payload :: "event \<Rightarrow> 'p"
    and usable :: "'s \<Rightarrow> bool"
  assumes nil_recorded: "usable s \<Longrightarrow> log_event ev s = (None, s') \<Longrightarrow> recorded s' = recorded s @ [payload ev]"
    and error_unrecorded: "usable s \<Longrightarrow> log_event ev s = (Some err, s') \<Longrightarrow> recorded s' = recorded s"
    and usable_kept: "usable s \<Longrightarrow> log_event ev s = (r, s') \<Longrightarrow> usable s'"
begin

lemma run_log_recorded:
  "usable s \<Longrightarrow> run_log log_event evs s = (oks, s') \<Longrightarrow> recorded s' = recorded s @ map payload oks \<and> usable s'"
proof (induction evs arbitrary: s oks s')
  case (Cons ev evs)
  obtain r s1 where r: "log_event ev s = (r, s1)" by fastforce
  obtain oks1 s2 where rest: "run_log log_event evs s1 = (oks1, s2)" by fastforce
  from Cons.IH [OF usable_kept [OF Cons.prems(1) r] rest] Cons.prems r rest show ?case
    using nil_recorded [of s ev s1] error_unrecorded [of s ev _ s1] by (cases r) auto
qed simp

end

lemma untimed_stamp [simp]: "untimed (stamp now ev) = untimed ev"
  by (simp add: untimed_def stamp_def)

lemma log_call_nonblocking:
  "accepting l \<Longrightarrow> log_call now ev l = (r, l') \<Longrightarrow> accepting l' \<and>
    (if r = None then accepted l' = accepted l @ [stamp now ev] else accepted l' = accepted l \<and> Log True None now ev l = (Returns r, l'))"
  by (auto simp: log_call_def accepting_def Log_def Let_def log_select_def enqueue_def handleDrop_def try_send_def
      split: if_splits)

interpretation async: audit_logger "log_call now" "\<lambda>l. map untimed (accepted l)" untimed accepting
  for now
proof unfold_locales
  fix l ev l' assume "accepting l" "log_call now ev l = (None, l')"
  then show "map untimed (accepted l') = map untimed (accepted l) @ [untimed ev]"
    using log_call_nonblocking [of l now ev None l'] by simp
next
  fix l ev err l' assume "accepting l" "log_call now ev l = (Some err, l')"
  then show "map untimed (accepted l') = map untimed (accepted l)"
    using log_call_nonblocking [of l now ev "Some err" l'] by simp
qed (use log_call_nonblocking in blast)

interpretation kafka: audit_logger "KafkaLogger_Log tt" "\<lambda>k. map snd (kl_produced k)"
    "\<lambda>ev. case marshal_event tt ev of Inr j \<Rightarrow> render j | Inl _ \<Rightarrow> []" "\<lambda>_. True"
  for tt
  by unfold_locales (auto simp: KafkaLogger_Log_def split: sum.splits)

section \<open>Properties\<close>



text \<open>
  \<^verbatim>\<open>Close\<close> flushes: when it has returned, every event any call of \<^verbatim>\<open>Log\<close> accepted has been
  given to the encoder, in order.
\<close>

lemma Close_returned_flushed:
  assumes "reach (audit_init n b) (audit_step tt) l" and "Close_returned l"
  shows "map fst (processed l) = accepted l"
  using fifo.holds [OF assms(1)] assms(2)
  by (auto simp: fifo_inv_def handed_def Close_returned_def drained_def)

text \<open>
  C14. \<^verbatim>\<open>Close\<close> returns: from every reachable state in which the channel is closed, the worker
  alone, in finitely many steps, reaches a state in which \<^verbatim>\<open>Close\<close> returns with all accepted
  events given to the encoder.
\<close>

theorem Close_terminates:
  assumes "reach (audit_init n b) (audit_step tt) l" and "chan_closed (events l)"
  shows "\<exists>l'. (worker_step tt)\<^sup>*\<^sup>* l l' \<and> workerDone l' \<and> map fst (processed l') = accepted l"
proof -
  from worker_finishes [OF assms(2)] obtain l' where
    l': "(worker_step tt)\<^sup>*\<^sup>* l l'" "workerDone l'" "accepted l' = accepted l" by blast
  have "reach (audit_init n b) (audit_step tt) l'"
    using l'(1) assms(1)
    by (induction rule: rtranclp_induct) (auto simp: worker_step_def intro: reach_step)
  from fifo.holds [OF this] l' have "map fst (processed l') = accepted l"
    by (auto simp: fifo_inv_def handed_def drained_def)
  with l' show ?thesis by blast
qed

theorem Close_terminates_witness:
  "\<exists>l'. (worker_step demo_time)\<^sup>*\<^sup>* (Close full_logger) l' \<and> workerDone l' \<and> map fst (processed l') = [sample]"
proof -
  have r: "reach (audit_init 1 False) (audit_step demo_time) (Close full_logger)"
    using full_logger_reach audit_step.close by (blast intro: reach_step)
  have c: "chan_closed (events (Close full_logger))" "accepted (Close full_logger) = [sample]"
    by (simp_all add: Close_def close_chan_def full_logger_def enqueue_def NewAsyncLogger_def)
  from Close_terminates [OF r c(1)] c(2) show ?thesis by simp
qed

text \<open>
  C19. No drop goes uncounted, however the goroutines inside \<^verbatim>\<open>handleDrop\<close> interleave: the number
  of dropped events is the counter plus the sum of all reported counts, modulo the width of
  the counter.
\<close>

theorem drops_conserved:
  assumes "reach (audit_init n b) (audit_step tt) l"
  shows "(of_nat (drops l) :: 64 word) = dropCount l + (\<Sum>(t, n, a) \<leftarrow> reports l. n)"
  using drop.holds [OF assms] by (simp add: drop_inv_def)

theorem drops_conserved_witness:
  "reach (audit_init 1 False) (audit_step demo_time) (begin_drop ''A'' full_logger) \<and>
   (of_nat (drops (begin_drop ''A'' full_logger)) :: 64 word) =
     dropCount (begin_drop ''A'' full_logger) + (\<Sum>(t, n, a) \<leftarrow> reports (begin_drop ''A'' full_logger). n)"
proof -
  have r: "reach (audit_init 1 False) (audit_step demo_time) (begin_drop ''A'' full_logger)"
    by (rule drop_step [OF full_logger_reach])
      (simp_all add: full_logger_def enqueue_def NewAsyncLogger_def)
  from drops_conserved [OF r] r show ?thesis by blast
qed

text \<open>
  Drop warnings are rate limited: whatever one goroutine logs on a fresh logger, with
  whatever contexts and clock readings, two \<^verbatim>\<open>AUDIT_LOG_CRITICAL_FAILURE\<close> reports are more than
  a minute apart.
\<close>

lemma drop_reports_rate_limited:
  "sorted_wrt (\<lambda>(t, _) (t', _). t' - t > 1 * minute) (reports (log_all calls (NewAsyncLogger n b)))"
  using log_all_spaced [of "NewAsyncLogger n b" calls] by (simp add: spaced_def NewAsyncLogger_def)

text \<open>
  Concurrent callers break that limit: \<^verbatim>\<open>handleDrop\<close> reads \<^verbatim>\<open>lastLogTime\<close> and writes it in two
  steps, so two goroutines can both find a report due; a reachable state has two reports of
  the same instant, the second with a count of zero.
\<close>

lemma drop_reports_race:
  "\<exists>l. reach (audit_init 1 False) (audit_step tt) l \<and>
    reports l = [(hour, 2, ''A''), (hour, 0, ''A'')] \<and> drops l = 2"
  by (rule racing_reports)

text \<open>
  The blocking mode keeps an event unless its context ends: on an open channel and a live
  context \<^verbatim>\<open>Log\<close> returns nil or waits and drops nothing; but once the context is done it may
  drop the event even though the buffer has room.
\<close>

lemma blocking_Log_drops_only_on_done:
  assumes "blockOnFull l" and "\<not> chan_closed (events l)"
  shows "fst (Log pick None now ev l) \<in> {Returns None, LogBlocks} \<and> drops (snd (Log pick None now ev l)) = drops l \<and>
    Log False (Some err) now ev l = (Returns (Some err), handleDrop now (Action ev) l)"
  using assms
  by (auto simp: Log_def log_select_def try_send_def enqueue_def stamp_def Let_def)

text \<open>
  C29. The contract of \<^verbatim>\<open>audit.Logger\<close> holds for the asynchronous logger in its non-blocking
  mode: after logging a list of events, the accepted ones have grown by exactly the events
  for which \<^verbatim>\<open>Log\<close> returned nil, in order and up to the time stamp.
\<close>

theorem async_Log_contract:
  assumes "\<not> blockOnFull l" and "\<not> chan_closed (events l)" and "run_log (log_call now) evs l = (oks, l')"
  shows "map untimed (accepted l') = map untimed (accepted l) @ map untimed oks"
  using async.run_log_recorded [of l now evs oks l'] assms by (simp add: accepting_def)

theorem async_Log_contract_witness:
  "run_log (log_call 9) [sample, sample] (NewAsyncLogger 1 False) =
     ([sample], handleDrop 9 ''A'' full_logger) \<and>
   map untimed (accepted (handleDrop 9 ''A'' full_logger)) = [] @ map untimed [sample]"
proof -
  have run: "run_log (log_call 9) [sample, sample] (NewAsyncLogger 1 False) =
     ([sample], handleDrop 9 ''A'' full_logger)"
    by (simp add: log_call_def Log_def log_select_def try_send_def full_logger_def NewAsyncLogger_def
        make_chan_def stamp_def sample_def enqueue_def Let_def)
  have "map untimed (accepted (handleDrop 9 ''A'' full_logger)) =
      map untimed (accepted (NewAsyncLogger 1 False)) @ map untimed [sample]"
    by (rule async_Log_contract [OF _ _ run]) (simp_all add: NewAsyncLogger_def make_chan_def)
  with run show ?thesis by (simp add: NewAsyncLogger_def)
qed


text \<open>A logger that took one event, wrote it or failed to, and was closed.\<close>

definition encoded_logger :: "(nat \<times> go_error) option \<Rightarrow> async_logger" where
  "encoded_logger wr = the (worker_encode demo_time wr (the (worker_recv full_logger)))"

lemma encoded_logger_reach: "reach (audit_init 1 False) (audit_step demo_time) (encoded_logger wr)"
proof -
  obtain l1 where l1: "worker_recv full_logger = Some l1" "inflight l1 = Some sample"
    by (simp add: worker_recv_def full_logger_def enqueue_def NewAsyncLogger_def recv_def)
  then obtain l2 where l2: "worker_encode demo_time wr l1 = Some l2" by (simp add: worker_encode_def)
  from reach_step [OF reach_step [OF full_logger_reach audit_step.recv [OF l1(1)]] audit_step.encode [OF l2]]
  show ?thesis using l1 l2 by (simp add: encoded_logger_def)
qed

lemma encoded_logger_simps:
  "accepted (encoded_logger wr) = [sample]" "inflight (encoded_logger wr) = None"
  "chan_buf (events (encoded_logger wr)) = []" "workerDone (encoded_logger wr) = False"
  "encErr (encoded_logger wr) = map_option snd wr" "processed (encoded_logger wr) = [(sample, map_option snd wr)]"
  by (simp_all add: encoded_logger_def worker_encode_def Encode_def worker_recv_def full_logger_def enqueue_def
      NewAsyncLogger_def recv_def marshal_event_def event_time_def demo_time_def sample_def omit_value_def Let_def
      split: option.splits prod.splits)


text \<open>
  C26. One failed write ends the audit trail: the encoder keeps the writer's error, so from then on,
  whatever callers, worker and writer do, nothing more is written and every event the worker takes
  from the buffer is lost with that same error, although \<^verbatim>\<open>Log\<close> returns nil for it.
\<close>

theorem write_error_ends_trail:
  assumes "reach (audit_init n b) (audit_step tt) l" and "encErr l = Some err"
    and "reach (\<lambda>l'. l' = l) (audit_step tt) l'"
  shows "written l' = written l \<and> (\<exists>evs. processed l' = processed l @ map (\<lambda>ev. (ev, Some err)) evs \<and>
    accepted l' = map fst (processed l) @ evs @ (case inflight l' of None \<Rightarrow> [] | Some ev \<Rightarrow> [ev]) @ chan_buf (events l'))"
proof -
  from assms(3) have "silenced err l l'"
    by (induction rule: reach.induct) (use assms(2) silenced_refl silenced_step in blast)+
  then obtain evs where evs: "written l' = written l" "processed l' = processed l @ map (\<lambda>ev. (ev, Some err)) evs"
    by (auto simp: silenced_def)
  from assms(3,1) have "reach (audit_init n b) (audit_step tt) l'"
    by (induction rule: reach.induct) (auto intro: reach_step)
  from fifo.holds [OF this] evs show ?thesis by (auto simp: fifo_inv_def handed_def o_def)
qed

theorem write_error_ends_trail_witness:
  "\<exists>l. reach (audit_init 1 False) (audit_step demo_time) l \<and> processed l = [(sample, Some (ErrorString ''no space''))] \<and>
     accepted l = [sample, sample] \<and> written l = []"
proof -
  let ?e = "ErrorString ''no space''"
  let ?l = "encoded_logger (Some (0, ?e))"
  have c: "events ?l = \<lparr>chan_buf = [], chan_cap = 1, chan_closed = False\<rparr>" "blockOnFull ?l = False" "written ?l = []"
    by (simp_all add: encoded_logger_def worker_encode_def Encode_def worker_recv_def full_logger_def enqueue_def
      NewAsyncLogger_def recv_def marshal_event_def event_time_def demo_time_def sample_def omit_value_def Let_def)
  let ?l' = "enqueue \<lparr>chan_buf = [sample], chan_cap = 1, chan_closed = False\<rparr> (stamp 0 sample) ?l"
  have "audit_step demo_time ?l (LLog True None 0 sample) ?l'"
    by (rule audit_step.log_ok) (simp add: log_select_def c try_send_def stamp_def sample_def)
  then have step: "reach (\<lambda>l. l = ?l) (audit_step demo_time) ?l'" by (auto intro: reach_step [OF reach_init])
  have "reach (audit_init 1 False) (audit_step demo_time) ?l'"
    using encoded_logger_reach \<open>audit_step demo_time ?l _ ?l'\<close> by (rule reach_step)
  moreover have "processed ?l' = [(sample, Some ?e)]" "accepted ?l' = [sample, sample]"
    by (simp_all add: enqueue_def encoded_logger_simps stamp_def sample_def)
  moreover have "written ?l' = []"
    using write_error_ends_trail [OF encoded_logger_reach _ step, of ?e] c(3) by (simp add: encoded_logger_simps)
  ultimately show ?thesis by blast
qed

end
