(* ===== verification/Base64url.thy ===== *)
theory Base64url
  imports Prelude
begin

text \<open>
  The decoding \<^verbatim>\<open>base64.RawURLEncoding.DecodeString\<close> of Go's standard library, as the JWKS
  client uses it (no padding, carriage returns and line feeds skipped, spare bits of the last
  character ignored), with the encoding of RFC 4648 for the round trip; big-endian numbers
  as \<^verbatim>\<open>big.Int.SetBytes\<close> reads them.
\<close>

section \<open>Sextets\<close>

definition sextet_of_char :: "char \<Rightarrow> nat option" where
  "sextet_of_char c =
     (let n = of_char c :: nat in
      if 65 \<le> n \<and> n \<le> 90 then Some (n - 65)
      else if 97 \<le> n \<and> n \<le> 122 then Some (n - 71)
      else if 48 \<le> n \<and> n \<le> 57 then Some (n + 4)
      else if n = 45 then Some 62
      else if n = 95 then Some 63
      else None)"

definition char_of_sextet :: "nat \<Rightarrow> char" where
  "char_of_sextet s =
     char_of (if s < 26 then s + 65 else if s < 52 then s + 71 else if s < 62 then s - 4
              else if s = 62 then 45 else 95 :: nat)"

fun decode_sextets :: "nat list \<Rightarrow> nat list option" where
  "decode_sextets [] = Some []"
| "decode_sextets [a] = None"
| "decode_sextets [a, b] = Some [a * 4 + b div 16]"
| "decode_sextets [a, b, c] = Some [a * 4 + b div 16, (b mod 16) * 16 + c div 4]"
| "decode_sextets (a # b # c # d # rest) =
     map_option (\<lambda>bs. (a * 4 + b div 16) # ((b mod 16) * 16 + c div 4) # ((c mod 4) * 64 + d) # bs)
       (decode_sextets rest)"

fun encode_sextets :: "nat list \<Rightarrow> nat list" where
  "encode_sextets [] = []"
| "encode_sextets [x] = [x div 4, (x mod 4) * 16]"
| "encode_sextets [x, y] = [x div 4, (x mod 4) * 16 + y div 16, (y mod 16) * 4]"
| "encode_sextets (x # y # z # rest) =
     (x div 4) # ((x mod 4) * 16 + y div 16) # ((y mod 16) * 4 + z div 64) # (z mod 64) # encode_sextets rest"

section \<open>DecodeString\<close>

text \<open>All characters must belong to the alphabet.\<close>

fun sextets :: "string \<Rightarrow> nat list option" where
  "sextets [] = Some []"
| "sextets (c # cs) =
     (case sextet_of_char c of None \<Rightarrow> None | Some s \<Rightarrow> map_option (\<lambda>ss. s # ss) (sextets cs))"

definition line_break :: "char \<Rightarrow> bool" where
  "line_break c \<longleftrightarrow> (of_char c :: nat) = 10 \<or> (of_char c :: nat) = 13"

definition DecodeString :: "string \<Rightarrow> string option" where
  "DecodeString s =
     (case sextets (filter (\<lambda>c. \<not> line_break c) s) of
        None \<Rightarrow> None
      | Some ss \<Rightarrow> map_option (map char_of) (decode_sextets ss))"

definition EncodeToString :: "string \<Rightarrow> string" where
  "EncodeToString bs = map char_of_sextet (encode_sextets (map of_char bs))"

section \<open>Big-endian numbers\<close>

definition be_nat :: "string \<Rightarrow> nat" where
  "be_nat bs = foldl (\<lambda>acc b. acc * 256 + of_char b) 0 bs"

section \<open>Round trip\<close>

lemma char_of_sextet_code:
  "s < 64 \<Longrightarrow> (of_char (char_of_sextet s) :: nat) =
     (if s < 26 then s + 65 else if s < 52 then s + 71 else if s < 62 then s - 4 else if s = 62 then 45 else 95)"
  by (simp add: char_of_sextet_def)

lemma sextet_roundtrip [simp]: "s < 64 \<Longrightarrow> sextet_of_char (char_of_sextet s) = Some s"
  by (auto simp: sextet_of_char_def char_of_sextet_code Let_def)

lemma line_break_sextet [simp]: "s < 64 \<Longrightarrow> \<not> line_break (char_of_sextet s)"
  by (auto simp: line_break_def char_of_sextet_code)

lemma encode_sextets_bound:
  "\<forall>b \<in> set bs. b < 256 \<Longrightarrow> s \<in> set (encode_sextets bs) \<Longrightarrow> s < 64"
  by (induction bs rule: encode_sextets.induct) auto

lemma decode_encode_sextets: "\<forall>b \<in> set bs. b < 256 \<Longrightarrow> decode_sextets (encode_sextets bs) = Some bs"
  by (induction bs rule: encode_sextets.induct) auto

lemma sextets_map: "\<forall>s \<in> set ss. s < 64 \<Longrightarrow> sextets (map char_of_sextet ss) = Some ss"
  by (induction ss) auto

lemma of_char_bound: "(of_char c :: nat) < 256"
  by simp

lemma DecodeString_EncodeToString: "DecodeString (EncodeToString bs) = Some bs"
proof -
  let ?ns = "map of_char bs :: nat list"
  have b: "\<forall>b \<in> set ?ns. b < 256" by auto
  have s: "\<forall>s \<in> set (encode_sextets ?ns). s < 64" using encode_sextets_bound [OF b] by blast
  have "filter (\<lambda>c. \<not> line_break c) (EncodeToString bs) = EncodeToString bs"
    using s by (auto simp: EncodeToString_def filter_map o_def filter_id_conv)
  then show ?thesis
    using sextets_map [OF s] decode_encode_sextets [OF b]
    by (simp add: DecodeString_def EncodeToString_def o_def)
qed

end
