(* ===== verification/Jwks.thy ===== *)
theory Jwks
  imports Base64url "HOL-Library.AList"
begin

text \<open>
  \<^verbatim>\<open>crypto/jwks_client.go\<close> and \<^verbatim>\<open>crypto/claims.go\<close>: the caching JWKS client.  \<open>fetchKeys\<close> replaces
  the key cache from the key server's answer, \<open>keyfunc\<close> is the callback that finds the key of
  a token (with an emergency refresh on a miss), \<open>VerifyToken\<close> the verification itself.

  The key server, the JSON decoder and the clock are the fields of \<open>jwks_env\<close>; the JWT
  library's \<^verbatim>\<open>ParseWithClaims\<close> is the parameter \<open>parse\<close>, with its documented behaviour as the
  hypothesis \<open>parse_contract\<close> of the theorems that need it.  Calls run one after another here; the
  concurrent callers that \<^verbatim>\<open>singleflight\<close> merges are in the theory \<^verbatim>\<open>Jwks_Concurrent\<close>.
\<close>

unbundle bit_operations_syntax

section \<open>Data\<close>

record json_web_key =
  Kty :: string
  Use :: string
  Kid :: string
  jwk_N :: string
  jwk_E :: string

text \<open>\<^verbatim>\<open>rsa.PublicKey\<close>: the modulus and the exponent, a Go \<^verbatim>\<open>int\<close>.\<close>

record rsa_key =
  key_N :: nat
  key_E :: int

record helix_claims =
  Issuer :: string
  Subject :: string
  ExpiresAt :: "int option"
  NotBefore :: "int option"
  Scope :: string
  Roles :: "string list"
  Sid :: string

record caching_client =
  jwksURL :: string
  issuer :: string
  cache :: "(string \<times> rsa_key) list"
  lastUpdated :: int
  maxStaleDuration :: duration

text \<open>
  \<open>new_request\<close> is the error of \<^verbatim>\<open>http.NewRequestWithContext\<close>, \<open>do_request\<close> the status and
  body of \<^verbatim>\<open>client.Do\<close>, \<open>decode_jwks\<close> the JSON decoder, \<open>clock\<close> is \<^verbatim>\<open>time.Now()\<close> in
  nanoseconds.
\<close>

record 'w jwks_env =
  new_request :: "string \<Rightarrow> go_error option"
  do_request :: "string \<Rightarrow> 'w \<Rightarrow> (go_error + (int \<times> string)) \<times> 'w"
  decode_jwks :: "string \<Rightarrow> go_error + json_web_key list"
  clock :: "'w \<Rightarrow> int"

section \<open>Keys\<close>

text \<open>The loop over the exponent's bytes on a 64-bit \<^verbatim>\<open>int\<close>.\<close>

definition exponent_word :: "string \<Rightarrow> 64 word" where
  "exponent_word bs = foldl (\<lambda>e b. push_bit 8 e OR of_nat (of_char b)) 0 bs"

text \<open>\<^verbatim>\<open>base64.CorruptInputError\<close>, without the position it reports.\<close>

definition corrupt_input :: go_error where
  "corrupt_input = ErrorString ''illegal base64 data''"

definition toRSAPublicKey :: "json_web_key \<Rightarrow> go_error + rsa_key" where
  "toRSAPublicKey j =
     (case DecodeString (jwk_N j) of
        None \<Rightarrow> Inl (wrap_prefix ''invalid modulus (n): '' corrupt_input)
      | Some nBytes \<Rightarrow>
          (case DecodeString (jwk_E j) of
             None \<Rightarrow> Inl (wrap_prefix ''invalid exponent (e): '' corrupt_input)
           | Some eBytes \<Rightarrow> Inr \<lparr>key_N = be_nat nBytes, key_E = sint (exponent_word eBytes)\<rparr>))"

text \<open>A key the loop of \<^verbatim>\<open>fetchKeys\<close> does not skip.\<close>

definition usable_jwk :: "json_web_key \<Rightarrow> bool" where
  "usable_jwk j \<longleftrightarrow> \<not> (Kty j \<noteq> ''RSA'' \<or> Use j \<noteq> ''sig'' \<or> Kid j = [])"

fun build_cache :: "json_web_key list \<Rightarrow> (string \<times> rsa_key) list \<Rightarrow> (string \<times> rsa_key) list" where
  "build_cache [] newCache = newCache"
| "build_cache (j # js) newCache =
     (if \<not> usable_jwk j then build_cache js newCache
      else (case toRSAPublicKey j of
              Inl _ \<Rightarrow> build_cache js newCache
            | Inr key \<Rightarrow> build_cache js (AList.update (Kid j) key newCache)))"

section \<open>fetchKeys and the refresher\<close>

definition fetchKeys ::
  "'w jwks_env \<Rightarrow> caching_client \<times> 'w \<Rightarrow> go_error option \<times> caching_client \<times> 'w" where
  "fetchKeys env st =
     (case st of (c, w) \<Rightarrow>
      (case new_request env (jwksURL c) of
         Some err \<Rightarrow> (Some (wrap_prefix ''failed to create request: '' err), c, w)
       | None \<Rightarrow>
           (case do_request env (jwksURL c) w of
              (Inl err, w1) \<Rightarrow> (Some (wrap_prefix ''failed to fetch JWKS URL: '' err), c, w1)
            | (Inr (status, body), w1) \<Rightarrow>
                if status \<noteq> 200
                then (Some (ErrorString (''JWKS endpoint returned status '' @ itoa status)), c, w1)
                else (case decode_jwks env body of
                        Inl err \<Rightarrow> (Some (wrap_prefix ''failed to decode JWKS response: '' err), c, w1)
                      | Inr keys \<Rightarrow>
                          let newCache = build_cache keys []
                          in if newCache = []
                             then (Some (ErrorString ''JWKS response contains zero valid RSA keys''), c, w1)
                             else (None, c\<lparr>cache := newCache, lastUpdated := clock env w1\<rparr>, w1)))))"

definition doRefresh ::
  "'w jwks_env \<Rightarrow> caching_client \<times> 'w \<Rightarrow> go_error option \<times> caching_client \<times> 'w" where
  "doRefresh env st = fetchKeys env st"

text \<open>One tick of \<^verbatim>\<open>startKeyRefresher\<close>; a failure is logged with the age of the cache.\<close>

definition refresher_tick ::
  "'w jwks_env \<Rightarrow> caching_client \<times> 'w \<Rightarrow> duration option \<times> caching_client \<times> 'w" where
  "refresher_tick env st =
     (case doRefresh env st of
        (None, c, w) \<Rightarrow> (None, c, w)
      | (Some err, c, w) \<Rightarrow> (Some (clock env w - lastUpdated c), c, w))"

text \<open>
  The loop of the refresher over what its select receives: a tick or the end of the context.  It
  ends by returning, still waits, or has panicked, which \<^verbatim>\<open>time.NewTicker\<close> does for an interval that
  is not positive.  \<open>ages\<close> are the cache ages it logged.
\<close>

datatype refresher_event = CtxDone | TickerC

datatype refresher_end = RefresherWaiting | RefresherReturned | RefresherPanics string

fun refresher_loop ::
  "'w jwks_env \<Rightarrow> refresher_event list \<Rightarrow> caching_client \<times> 'w \<Rightarrow> refresher_end \<times> duration list \<times> caching_client \<times> 'w" where
  "refresher_loop env [] st = (RefresherWaiting, [], st)"
| "refresher_loop env (CtxDone # evs) st = (RefresherReturned, [], st)"
| "refresher_loop env (TickerC # evs) st =
     (case refresher_tick env st of
        (age, st1) \<Rightarrow>
          (case refresher_loop env evs st1 of
             (fin, ages, st2) \<Rightarrow> (fin, (case age of None \<Rightarrow> ages | Some a \<Rightarrow> a # ages), st2)))"

definition startKeyRefresher ::
  "'w jwks_env \<Rightarrow> duration \<Rightarrow> refresher_event list \<Rightarrow> caching_client \<times> 'w \<Rightarrow>
   refresher_end \<times> duration list \<times> caching_client \<times> 'w" where
  "startKeyRefresher env interval evs st =
     (if interval \<le> 0 then (RefresherPanics ''non-positive interval for NewTicker'', [], st)
      else refresher_loop env evs st)"

definition NewJWKSCachingClient ::
  "'w jwks_env \<Rightarrow> string \<Rightarrow> string \<Rightarrow> duration \<Rightarrow> 'w \<Rightarrow> (go_error + caching_client) \<times> 'w" where
  "NewJWKSCachingClient env url iss maxStale w =
     (if url = [] \<or> iss = [] then (Inl (ErrorString ''jwks client: URL and Issuer are mandatory''), w)
      else let c = \<lparr>jwksURL = url, issuer = iss, cache = [], lastUpdated = 0,
                    maxStaleDuration = (if maxStale \<le> 0 then 24 * hour else maxStale)\<rparr>
           in case fetchKeys env (c, w) of
                (Some err, _, w1) \<Rightarrow> (Inl (wrap_prefix ''jwks client: FATAL on initial key fetch: '' err), w1)
              | (None, c1, w1) \<Rightarrow> (Inr c1, w1))"

section \<open>VerifyToken\<close>

text \<open>
  What \<^verbatim>\<open>ParseWithClaims\<close> hands to the key callback and returns: whether the method is RSA, the
  header's \<^verbatim>\<open>alg\<close> as printed and its \<^verbatim>\<open>kid\<close> if it is a string, the claims, and \<^verbatim>\<open>token.Valid\<close>.
\<close>

record jwt_token =
  method_rsa :: bool
  header_alg :: string
  header_kid :: "string option"
  claims :: helix_claims
  Valid :: bool

type_synonym 's keyfunc = "jwt_token \<Rightarrow> 's \<Rightarrow> (go_error + rsa_key) \<times> 's"

type_synonym 's jwt_parse =
  "string \<Rightarrow> 's keyfunc \<Rightarrow> string \<Rightarrow> 's \<Rightarrow> (go_error + jwt_token) \<times> 's"

definition keyfunc :: "'w jwks_env \<Rightarrow> (caching_client \<times> 'w) keyfunc" where
  "keyfunc env token st =
     (if \<not> method_rsa token then (Inl (ErrorString (''unexpected signing method: '' @ header_alg token)), st)
      else (case header_kid token of
              None \<Rightarrow> (Inl (ErrorString ''missing kid in token header''), st)
            | Some kid \<Rightarrow>
                if kid = [] then (Inl (ErrorString ''missing kid in token header''), st)
                else (case map_of (cache (fst st)) kid of
                        Some key \<Rightarrow> (Inr key, st)
                      | None \<Rightarrow>
                          (case doRefresh env st of
                             (Some err, st1) \<Rightarrow> (Inl (wrap_prefix ''failed emergency key refresh: '' err), st1)
                           | (None, st1) \<Rightarrow>
                               (case map_of (cache (fst st1)) kid of
                                  None \<Rightarrow> (Inl (ErrorString (''kid '' @ kid @
                                            '' not found in JWKS even after emergency refresh'')), st1)
                                | Some key \<Rightarrow> (Inr key, st1))))))"

definition ErrInvalidToken :: go_error where
  "ErrInvalidToken = Sentinel ''crypto: invalid token''"

definition ErrExpiredToken :: go_error where
  "ErrExpiredToken = Sentinel ''crypto: token expired''"

definition jwt_ErrTokenExpired :: string where
  "jwt_ErrTokenExpired = ''token is expired''"

datatype verify_result = VOk helix_claims | VErr go_error | VPanic

text \<open>
  The checks after a successful parse.  \<^verbatim>\<open>GetExpirationTime\<close> has no error for these claims, so a
  missing expiry would be a nil dereference.
\<close>

definition check_times :: "int \<Rightarrow> helix_claims \<Rightarrow> verify_result" where
  "check_times now cl =
     (case ExpiresAt cl of
        None \<Rightarrow> VPanic
      | Some exp \<Rightarrow>
          if now - 1 * minute > exp then VErr ErrExpiredToken
          else (case NotBefore cl of
                  Some nbf \<Rightarrow>
                    if now + 1 * minute < nbf
                    then VErr (Wrapped [] ErrInvalidToken '': token not active yet'') else VOk cl
                | None \<Rightarrow> VOk cl))"

definition VerifyToken ::
  "'w jwks_env \<Rightarrow> (caching_client \<times> 'w) jwt_parse \<Rightarrow> string \<Rightarrow> caching_client \<times> 'w
    \<Rightarrow> verify_result \<times> caching_client \<times> 'w" where
  "VerifyToken env parse tokenString st =
     (case parse tokenString (keyfunc env) (issuer (fst st)) st of
        (Inl err, st1) \<Rightarrow>
          (if errors_is err jwt_ErrTokenExpired then (VErr ErrExpiredToken, st1)
           else (VErr (Wrapped [] ErrInvalidToken ('': '' @ err_text err)), st1))
      | (Inr token, st1) \<Rightarrow>
          if \<not> Valid token then (VErr ErrInvalidToken, st1)
          else (check_times (clock env (snd st1)) (claims token), st1))"

text \<open>Whether the call logs that the cache is stale beyond its limit.\<close>

definition stale_warning :: "'w jwks_env \<Rightarrow> caching_client \<times> 'w \<Rightarrow> bool" where
  "stale_warning env st \<longleftrightarrow> clock env (snd st) - lastUpdated (fst st) > maxStaleDuration (fst st)"

section \<open>The JWT library\<close>

text \<open>
  The documented behaviour of \<^verbatim>\<open>ParseWithClaims\<close> with \<^verbatim>\<open>WithIssuer\<close> and
  \<^verbatim>\<open>WithExpirationRequired\<close>: it calls the key callback at most once, on the token it read and
  has not yet found valid; a token is returned without error only if the callback gave a key
  under which the signature holds, the issuer matches, and the claims were in force at some
  time between the call and its return (no leeway).
\<close>

definition parse_contract ::
  "'w jwks_env \<Rightarrow> (string \<Rightarrow> rsa_key \<Rightarrow> bool) \<Rightarrow> (caching_client \<times> 'w) jwt_parse \<Rightarrow> bool" where
  "parse_contract env sig_ok parse \<longleftrightarrow>
     (\<forall>s kf iss st res st'. parse s kf iss st = (res, st') \<longrightarrow>
        (st' = st \<or> (\<exists>tok. st' = snd (kf tok st))) \<and>
        (\<forall>tok. res = Inr tok \<longrightarrow> Valid tok \<and>
           (\<exists>key. kf (tok\<lparr>Valid := False\<rparr>) st = (Inr key, st') \<and> sig_ok s key) \<and>
           Issuer (claims tok) = iss \<and>
           (\<exists>t exp. clock env (snd st) \<le> t \<and> t \<le> clock env (snd st') \<and>
              ExpiresAt (claims tok) = Some exp \<and> t < exp \<and>
              (\<forall>nbf. NotBefore (claims tok) = Some nbf \<longrightarrow> nbf \<le> t))))"

section \<open>The client as a transition system\<close>

datatype jwks_label = Tick | Verify string | Elapse

text \<open>
  The refresher goroutine, verifications and the outside world take turns; the lock makes each
  update of the cache atomic.
\<close>

inductive jwks_step ::
  "'w jwks_env \<Rightarrow> (caching_client \<times> 'w) jwt_parse \<Rightarrow> caching_client \<times> 'w \<Rightarrow> jwks_label \<Rightarrow> caching_client \<times> 'w \<Rightarrow> bool"
  for env parse where
  tick: "refresher_tick env st = (age, st') \<Longrightarrow> jwks_step env parse st Tick st'"
| verify: "VerifyToken env parse s st = (r, st') \<Longrightarrow> jwks_step env parse st (Verify s) st'"
| elapse: "jwks_step env parse (c, w) Elapse (c, w')"

definition jwks_init :: "'w jwks_env \<Rightarrow> string \<Rightarrow> string \<Rightarrow> duration \<Rightarrow> caching_client \<times> 'w \<Rightarrow> bool" where
  "jwks_init env url iss maxStale st \<longleftrightarrow>
     (\<exists>w0. NewJWKSCachingClient env url iss maxStale w0 = (Inr (fst st), snd st))"

section \<open>A concrete client\<close>

definition demo_env :: "int jwks_env" where
  "demo_env = \<lparr>new_request = \<lambda>_. None, do_request = \<lambda>url w. (Inr (200, ''body''), w + 5),
     decode_jwks = \<lambda>_. Inr [\<lparr>Kty = ''RSA'', Use = ''sig'', Kid = ''k1'', jwk_N = ''AQ'', jwk_E = ''AQAB''\<rparr>],
     clock = \<lambda>w. w\<rparr>"

definition demo_client :: caching_client where
  "demo_client = \<lparr>jwksURL = ''u'', issuer = ''iss'', cache = [(''k1'', \<lparr>key_N = 1, key_E = 65537\<rparr>)],
     lastUpdated = 0, maxStaleDuration = 24 * hour\<rparr>"

definition demo_token :: jwt_token where
  "demo_token = \<lparr>method_rsa = True, header_alg = ''RS256'', header_kid = Some ''k1'',
     claims = \<lparr>Issuer = ''iss'', Subject = ''alice'', ExpiresAt = Some 100, NotBefore = None,
       Scope = [], Roles = [], Sid = ''s1''\<rparr>, Valid = True\<rparr>"

lemmas demo_defs = demo_env_def demo_client_def demo_token_def

text \<open>The usable, well-formed keys of an answer, in its order.\<close>

fun jwk_entries :: "json_web_key list \<Rightarrow> (string \<times> rsa_key) list" where
  "jwk_entries [] = []"
| "jwk_entries (j # js) =
     (case toRSAPublicKey j of
        Inr key \<Rightarrow> if usable_jwk j then (Kid j, key) # jwk_entries js else jwk_entries js
      | Inl _ \<Rightarrow> jwk_entries js)"

text \<open>What holds of a client from its construction on.\<close>

definition client_inv :: "string \<Rightarrow> string \<Rightarrow> caching_client \<Rightarrow> bool" where
  "client_inv url iss c \<longleftrightarrow> cache c \<noteq> [] \<and> distinct (map fst (cache c)) \<and> [] \<notin> fst ` set (cache c) \<and>
     jwksURL c = url \<and> issuer c = iss \<and> 0 < maxStaleDuration c"

text \<open>A parser for one token that checks what the contract asks for.\<close>

definition demo_parse ::
  "'w jwks_env \<Rightarrow> jwt_token \<Rightarrow> (caching_client \<times> 'w) jwt_parse" where
  "demo_parse env tok s kf iss st =
     (case kf (tok\<lparr>Valid := False\<rparr>) st of
        (Inl err, st1) \<Rightarrow> (Inl err, st1)
      | (Inr key, st1) \<Rightarrow>
          let now = clock env (snd st1) in
          if clock env (snd st) \<le> now \<and> Issuer (claims tok) = iss \<and>
             (case ExpiresAt (claims tok) of None \<Rightarrow> False | Some exp \<Rightarrow> now < exp) \<and>
             (case NotBefore (claims tok) of None \<Rightarrow> True | Some nbf \<Rightarrow> nbf \<le> now)
          then (Inr (tok\<lparr>Valid := True\<rparr>), st1) else (Inl (Sentinel jwt_ErrTokenExpired), st1))"

section \<open>Lemmas\<close>

lemma exponent_step: "push_bit 8 (e :: 64 word) OR of_nat (of_char b) = e * 256 + of_nat (of_char b)"
proof -
  have "push_bit 8 e AND (of_nat (of_char b) :: 64 word) = 0"
  proof (rule bit_eqI)
    fix n assume "possible_bit TYPE(64 word) n"
    have "\<not> bit (of_char b :: nat) n" if "8 \<le> n"
    proof -
      have "(of_char b :: nat) < 2 ^ n" by (rule less_le_trans [OF of_char_bound]) (use power_increasing [OF that, of "2::nat"] in simp)
      then show ?thesis by (metis bit_take_bit_iff less_irrefl_nat take_bit_nat_eq_self)
    qed
    then show "bit (push_bit 8 e AND (of_nat (of_char b) :: 64 word)) n = bit (0 :: 64 word) n"
      by (auto simp: bit_simps)
  qed
  then have "push_bit 8 e OR of_nat (of_char b) = push_bit 8 e + (of_nat (of_char b) :: 64 word)"
    by (simp add: disjunctive_add_eq_or)
  then show ?thesis by (simp add: push_bit_eq_mult mult.commute)
qed

lemma exponent_word_be_nat: "exponent_word bs = of_nat (be_nat bs)"
proof -
  have "foldl (\<lambda>e b. push_bit 8 e OR of_nat (of_char b)) (of_nat a :: 64 word) bs =
      of_nat (foldl (\<lambda>acc b. acc * 256 + of_char b) a bs)" for a
  proof (induction bs arbitrary: a)
    case (Cons b bs)
    from Cons [of "a * 256 + of_char b"] show ?case by (simp add: exponent_step)
  qed simp
  from this [of 0] show ?thesis by (simp add: exponent_word_def be_nat_def)
qed

lemma sint_of_nat64: "sint (of_nat n :: 64 word) = i64 (int n)"
proof -
  have "(of_nat n :: 64 word) = word_of_int (int n)" by simp
  then show ?thesis by (simp only: int_word_sint i64_def) simp
qed

lemma map_of_update: "map_of (AList.update k v al) = (map_of al)(k \<mapsto> v)"
  by (rule ext) (simp add: AList.update_conv')

lemma build_cache_map: "map_of (build_cache js acc) = map_of acc ++ map_of (rev (jwk_entries js))"
proof (induction js acc rule: build_cache.induct)
  case (2 j js acc)
  then show ?case
    by (cases "usable_jwk j"; cases "toRSAPublicKey j") (simp_all add: map_of_update, simp add: fun_upd_def)
qed simp

lemma build_cache_distinct: "distinct (map fst acc) \<Longrightarrow> distinct (map fst (build_cache js acc))"
  by (induction js acc rule: build_cache.induct) (auto split: sum.splits intro: AList.distinct_update)

lemma jwk_entries_kid: "(kid, key) \<in> set (jwk_entries js) \<Longrightarrow> kid \<noteq> []"
  by (induction js) (auto simp: usable_jwk_def split: sum.splits if_splits)

lemma map_of_empty_iff: "xs = [] \<longleftrightarrow> map_of xs = Map.empty"
  by (cases xs) auto

lemma build_cache_Nil: "build_cache js [] = [] \<longleftrightarrow> jwk_entries js = []"
  using map_of_empty_iff [of "build_cache js []"] map_of_empty_iff [of "rev (jwk_entries js)"]
  by (simp add: build_cache_map)

lemma build_cache_kid: "kid \<in> fst ` set (build_cache js []) \<Longrightarrow> kid \<noteq> []"
proof -
  assume "kid \<in> fst ` set (build_cache js [])"
  then have "map_of (build_cache js []) kid \<noteq> None" by (simp only: map_of_eq_None_iff) simp
  then have "map_of (rev (jwk_entries js)) kid \<noteq> None" using build_cache_map [of js "[]"] by simp
  then show ?thesis by (auto dest!: map_of_SomeD jwk_entries_kid)
qed

lemma fetchKeys_cases:
  assumes f: "fetchKeys env (c, w) = (err, c', w')"
  obtains (failed) e where "err = Some e" "c' = c"
  | (fetched) body keys where "err = None" "do_request env (jwksURL c) w = (Inr (200, body), w')"
      "decode_jwks env body = Inr keys" "jwk_entries keys \<noteq> []"
      "c' = c\<lparr>cache := build_cache keys [], lastUpdated := clock env w'\<rparr>"
proof (cases "new_request env (jwksURL c)")
  case (Some e)
  with f show thesis by (auto simp: fetchKeys_def intro: failed)
next
  case None
  obtain resp w1 where r: "do_request env (jwksURL c) w = (resp, w1)" by fastforce
  show thesis
  proof (cases resp)
    case (Inl e)
    with f None r show thesis by (auto simp: fetchKeys_def intro: failed)
  next
    case (Inr p)
    obtain status body where p: "p = (status, body)" by fastforce
    show thesis
    proof (cases "status = 200 \<and> (\<exists>keys. decode_jwks env body = Inr keys \<and> jwk_entries keys \<noteq> [])")
      case True
      then obtain keys where "status = 200" "decode_jwks env body = Inr keys" "jwk_entries keys \<noteq> []" by blast
      with f None r Inr p show thesis
        by (intro fetched [of body keys]) (auto simp: fetchKeys_def Let_def build_cache_Nil)
    next
      case False
      with f None r Inr p show thesis
        by (cases "decode_jwks env body")
          (auto simp: fetchKeys_def Let_def build_cache_Nil split: if_splits intro: failed)
    qed
  qed
qed

lemma fetchKeys_inv:
  assumes "fetchKeys env (c, w) = (err, c', w')" "client_inv url iss c"
  shows "client_inv url iss c'"
  using assms(1)
proof (cases rule: fetchKeys_cases)
  case failed
  with assms(2) show ?thesis by simp
next
  case (fetched body keys)
  with assms(2) build_cache_distinct [of "[]" keys] build_cache_kid [of "[]" keys] show ?thesis
    by (auto simp: client_inv_def build_cache_Nil)
qed

lemma NewJWKS_inv:
  assumes "NewJWKSCachingClient env url iss maxStale w = (Inr c, w')"
  shows "client_inv url iss c"
proof -
  let ?c = "\<lparr>jwksURL = url, issuer = iss, cache = [], lastUpdated = 0,
      maxStaleDuration = (if maxStale \<le> 0 then 24 * hour else maxStale)\<rparr>"
  have f: "fetchKeys env (?c, w) = (None, c, w')"
    using assms by (auto simp: NewJWKSCachingClient_def Let_def split: if_splits prod.splits option.splits)
  then show ?thesis
  proof (cases rule: fetchKeys_cases)
    case (fetched body keys)
    with build_cache_distinct [of "[]" keys] build_cache_kid [of "[]" keys] show ?thesis
      by (auto simp: client_inv_def build_cache_Nil)
  qed simp
qed

lemma keyfunc_Inr:
  "keyfunc env tok st = (Inr key, st') \<Longrightarrow>
    method_rsa tok \<and> (\<exists>kid. header_kid tok = Some kid \<and> kid \<noteq> [] \<and> map_of (cache (fst st')) kid = Some key)"
  by (auto simp: keyfunc_def split: if_splits option.splits prod.splits)

lemma keyfunc_state: "snd (keyfunc env tok st) = st \<or> snd (keyfunc env tok st) = snd (fetchKeys env st)"
  by (auto simp: keyfunc_def doRefresh_def split: option.splits prod.splits)

lemma VerifyToken_state:
  assumes "parse_contract env sig_ok parse" "VerifyToken env parse s st = (r, st')"
  shows "st' = st \<or> st' = snd (fetchKeys env st)"
proof -
  obtain res st1 where p: "parse s (keyfunc env) (issuer (fst st)) st = (res, st1)" by (metis surj_pair)
  have "st1 = st'" using assms(2) p by (auto simp: VerifyToken_def split: sum.splits if_splits)
  with assms(1) p have "st' = st \<or> (\<exists>tok. st' = snd (keyfunc env tok st))"
    unfolding parse_contract_def by blast
  then show ?thesis using keyfunc_state by metis
qed

lemma parse_ok:
  assumes "parse_contract env sig_ok parse" "parse s (keyfunc env) (issuer (fst st)) st = (Inr tok, st')"
  shows "Valid tok \<and> (\<exists>key kid. method_rsa tok \<and> header_kid tok = Some kid \<and> kid \<noteq> [] \<and>
      map_of (cache (fst st')) kid = Some key \<and> sig_ok s key) \<and> Issuer (claims tok) = issuer (fst st) \<and>
    (\<exists>t exp. clock env (snd st) \<le> t \<and> t \<le> clock env (snd st') \<and> ExpiresAt (claims tok) = Some exp \<and> t < exp \<and>
      (\<forall>nbf. NotBefore (claims tok) = Some nbf \<longrightarrow> nbf \<le> t))"
proof -
  have c: "Valid tok" "\<exists>key. keyfunc env (tok\<lparr>Valid := False\<rparr>) st = (Inr key, st') \<and> sig_ok s key"
    "Issuer (claims tok) = issuer (fst st)"
    "\<exists>t exp. clock env (snd st) \<le> t \<and> t \<le> clock env (snd st') \<and> ExpiresAt (claims tok) = Some exp \<and> t < exp \<and>
      (\<forall>nbf. NotBefore (claims tok) = Some nbf \<longrightarrow> nbf \<le> t)"
    using assms unfolding parse_contract_def by blast+
  from c(2) obtain key where "keyfunc env (tok\<lparr>Valid := False\<rparr>) st = (Inr key, st')" "sig_ok s key" by blast
  with keyfunc_Inr [of env "tok\<lparr>Valid := False\<rparr>" st key st'] have
    "\<exists>key kid. method_rsa tok \<and> header_kid tok = Some kid \<and> kid \<noteq> [] \<and>
      map_of (cache (fst st')) kid = Some key \<and> sig_ok s key" by auto
  with c(1,3,4) show ?thesis by blast
qed

lemma check_times_after_parse:
  assumes "ExpiresAt cl = Some exp" "t < exp" "t \<le> now" "now - t \<le> 1 * minute"
    "\<forall>nbf. NotBefore cl = Some nbf \<longrightarrow> nbf \<le> t"
  shows "check_times now cl = VOk cl"
  using assms by (auto simp: check_times_def split: option.splits)

lemma demo_parse_contract: "parse_contract env (\<lambda>_ _. True) (demo_parse env tok)"
  unfolding parse_contract_def
proof (intro allI impI, goal_cases)
  case (1 s kf iss st res st')
  obtain k st1 where k: "kf (tok\<lparr>Valid := False\<rparr>) st = (k, st1)" by (metis surj_pair)
  with 1 have "st' = st1"
    by (auto simp: demo_parse_def Let_def split: sum.splits if_splits)
  with k have "\<exists>tok. st' = snd (kf tok st)" by (metis snd_conv)
  moreover from 1 k have "\<forall>tok'. res = Inr tok' \<longrightarrow> Valid tok' \<and>
      (\<exists>key. kf (tok'\<lparr>Valid := False\<rparr>) st = (Inr key, st')) \<and> Issuer (claims tok') = iss \<and>
      (\<exists>t exp. clock env (snd st) \<le> t \<and> t \<le> clock env (snd st') \<and> ExpiresAt (claims tok') = Some exp \<and> t < exp \<and>
         (\<forall>nbf. NotBefore (claims tok') = Some nbf \<longrightarrow> nbf \<le> t))"
    by (fastforce simp: demo_parse_def Let_def split: sum.splits if_splits option.splits)
  ultimately show ?case by blast
qed

lemma jwks_invariant:
  assumes "parse_contract env sig_ok parse"
  shows "inductive_invariant (jwks_init env url iss maxStale) (jwks_step env parse)
    (\<lambda>st. client_inv url iss (fst st))"
proof
  fix st :: "caching_client \<times> 'a" assume "jwks_init env url iss maxStale st"
  then show "client_inv url iss (fst st)" by (auto simp: jwks_init_def dest: NewJWKS_inv)
next
  fix st l st' assume "jwks_step env parse st l st'" "client_inv url iss (fst st)"
  then show "client_inv url iss (fst st')"
  proof (induction rule: jwks_step.induct)
    case (tick st age st')
    then have "st' = snd (fetchKeys env st)"
      by (auto simp: refresher_tick_def doRefresh_def split: prod.splits option.splits)
    with tick fetchKeys_inv show ?case by (metis prod.collapse)
  next
    case (verify s st r st')
    from VerifyToken_state [OF assms verify.hyps] verify.prems fetchKeys_inv show ?case
      by (metis prod.collapse)
  qed simp
qed

text \<open>
  The refresher ends exactly when its context does, whatever the key server answers, and is a
  sequence of ticks until then; with an interval that is not positive it does not start.
\<close>

lemma refresher_returns:
  "0 < interval \<Longrightarrow> fst (startKeyRefresher env interval evs st) = (if CtxDone \<in> set evs then RefresherReturned else RefresherWaiting)"
proof -
  have "fst (refresher_loop env evs st) = (if CtxDone \<in> set evs then RefresherReturned else RefresherWaiting)"
    by (induction env evs st rule: refresher_loop.induct) (auto split: prod.splits)
  then show "0 < interval \<Longrightarrow> ?thesis" by (simp add: startKeyRefresher_def)
qed

lemma refresher_panics:
  "interval \<le> 0 \<Longrightarrow> startKeyRefresher env interval evs st = (RefresherPanics ''non-positive interval for NewTicker'', [], st)"
  by (simp add: startKeyRefresher_def)

lemma refresher_steps:
  "startKeyRefresher env interval evs st = (fin, ages, st') \<Longrightarrow> reach init (jwks_step env parse) st \<Longrightarrow>
   reach init (jwks_step env parse) st'"
proof -
  have "refresher_loop env evs st = (fin, ages, st') \<Longrightarrow> reach init (jwks_step env parse) st \<Longrightarrow> reach init (jwks_step env parse) st'"
    for fin ages st'
  proof (induction env evs st arbitrary: fin ages st' rule: refresher_loop.induct)
    case (3 env evs st)
    then obtain age st1 fin' ages' where t: "refresher_tick env st = (age, st1)" "refresher_loop env evs st1 = (fin', ages', st')"
      by (auto split: prod.splits)
    from 3(3) jwks_step.tick [OF t(1)] have "reach init (jwks_step env parse) st1" by (rule reach_step)
    with 3(1) [OF t(1) [symmetric] t(2)] show ?case .
  qed simp_all
  then show "startKeyRefresher env interval evs st = (fin, ages, st') \<Longrightarrow> reach init (jwks_step env parse) st \<Longrightarrow> ?thesis"
    by (auto simp: startKeyRefresher_def split: if_splits)
qed

lemma VerifyToken_ok:
  "VerifyToken env parse s st = (VOk cl, st') \<Longrightarrow>
   \<exists>tok. parse s (keyfunc env) (issuer (fst st)) st = (Inr tok, st') \<and> cl = claims tok"
  by (auto simp: VerifyToken_def check_times_def split: sum.splits prod.splits if_splits option.splits)

text \<open>What an accepted token's claims come with.\<close>

definition authentic ::
  "'w jwks_env \<Rightarrow> (string \<Rightarrow> rsa_key \<Rightarrow> bool) \<Rightarrow> string \<Rightarrow> caching_client \<times> 'w \<Rightarrow> caching_client \<times> 'w \<Rightarrow> helix_claims \<Rightarrow> bool" where
  "authentic env sig_ok s st st' cl \<longleftrightarrow>
     (\<exists>(tok :: jwt_token) kid key t exp. cl = claims tok \<and> method_rsa tok \<and> header_kid tok = Some kid \<and> kid \<noteq> [] \<and>
        map_of (cache (fst st')) kid = Some key \<and> sig_ok s key \<and> Issuer cl = issuer (fst st) \<and>
        clock env (snd st) \<le> t \<and> t \<le> clock env (snd st') \<and> ExpiresAt cl = Some exp \<and> t < exp)"

lemma VerifyToken_authentic:
  assumes "parse_contract env sig_ok parse" and "VerifyToken env parse s st = (VOk cl, st')"
  shows "authentic env sig_ok s st st' cl"
proof -
  from VerifyToken_ok [OF assms(2)] obtain tok where
    tok: "parse s (keyfunc env) (issuer (fst st)) st = (Inr tok, st')" "cl = claims tok" by auto
  from parse_ok [OF assms(1) tok(1)] obtain kid key t exp where
    "method_rsa tok" "header_kid tok = Some kid" "kid \<noteq> []" "map_of (cache (fst st')) kid = Some key" "sig_ok s key"
    "Issuer (claims tok) = issuer (fst st)" "clock env (snd st) \<le> t" "t \<le> clock env (snd st')"
    "ExpiresAt (claims tok) = Some exp" "t < exp" by auto
  with tok(2) show ?thesis unfolding authentic_def by blast
qed

lemma demo_key:
  "toRSAPublicKey \<lparr>Kty = ''RSA'', Use = ''sig'', Kid = ''k1'', jwk_N = ''AQ'', jwk_E = ''AQAB''\<rparr> =
     Inr \<lparr>key_N = 1, key_E = 65537\<rparr>"
proof -
  have "DecodeString ''AQ'' = Some [CHR 0x01]" "DecodeString ''AQAB'' = Some [CHR 0x01, CHR 0x00, CHR 0x01]"
    by (simp_all add: DecodeString_def line_break_def sextet_of_char_def char_of_def Let_def bit_0 bit_Suc_0_iff)
  then show ?thesis by (simp add: toRSAPublicKey_def be_nat_def exponent_word_def)
qed

lemma demo_fetch: "fetchKeys demo_env (demo_client, 0) = (None, demo_client\<lparr>lastUpdated := 5\<rparr>, 5)"
  by (simp add: fetchKeys_def demo_defs usable_jwk_def demo_key)

lemma demo_new: "NewJWKSCachingClient demo_env ''u'' ''iss'' 0 0 = (Inr (demo_client\<lparr>lastUpdated := 5\<rparr>), 5)"
  by (simp add: NewJWKSCachingClient_def fetchKeys_def demo_defs usable_jwk_def demo_key)

lemma demo_verify:
  "VerifyToken demo_env (demo_parse demo_env demo_token) ''t'' (demo_client, 0) =
     (VOk (claims demo_token), demo_client, 0)"
  by (simp add: VerifyToken_def demo_parse_def keyfunc_def check_times_def demo_defs)

section \<open>Properties\<close>

text \<open>
  C28. A key survives the JWK encoding: from the unpadded base64url forms of the modulus and the
  exponent in big-endian bytes, \<^verbatim>\<open>toRSAPublicKey\<close> gives back the modulus exactly and the
  exponent as a signed 64-bit number, exactly if it is below \<open>2\<close> to the \<open>63\<close> and silently wrapped
  around otherwise.
\<close>

theorem toRSAPublicKey_roundtrip:
  "toRSAPublicKey (j\<lparr>jwk_N := EncodeToString nBytes, jwk_E := EncodeToString eBytes\<rparr>) =
     Inr \<lparr>key_N = be_nat nBytes, key_E = i64 (int (be_nat eBytes))\<rparr>"
  by (simp add: toRSAPublicKey_def DecodeString_EncodeToString exponent_word_be_nat sint_of_nat64)

text \<open>
  \<^verbatim>\<open>fetchKeys\<close> is all or nothing: on an error the client is unchanged, so the old keys stay
  usable; without an error the cache is exactly what the server's answer says, that is for each
  \<^verbatim>\<open>kid\<close> the key of the last usable and well-formed JWK with it, at least one key, and no key of
  the old cache, while URL, issuer and stale limit are kept.
\<close>

lemma fetchKeys_all_or_nothing:
  assumes "fetchKeys env (c, w) = (err, c', w')"
  shows "if err = None
    then \<exists>body keys. do_request env (jwksURL c) w = (Inr (200, body), w') \<and> decode_jwks env body = Inr keys \<and>
      cache c' \<noteq> [] \<and> map_of (cache c') = map_of (rev (jwk_entries keys)) \<and>
      c' = c\<lparr>cache := cache c', lastUpdated := clock env w'\<rparr>
    else c' = c"
  using assms
proof (cases rule: fetchKeys_cases)
  case (fetched body keys)
  then show ?thesis by (auto simp: build_cache_map build_cache_Nil)
qed simp

lemma fetchKeys_all_or_nothing_witness:
  "fetchKeys demo_env (demo_client, 0) = (None, demo_client\<lparr>lastUpdated := 5\<rparr>, 5) \<and>
   (\<exists>body keys. decode_jwks demo_env body = Inr keys \<and>
      map_of (cache (demo_client\<lparr>lastUpdated := 5\<rparr>)) = map_of (rev (jwk_entries keys)))"
proof -
  have f: "fetchKeys demo_env (demo_client, 0) = (None, demo_client\<lparr>lastUpdated := 5\<rparr>, 5)"
    by (rule demo_fetch)
  from fetchKeys_all_or_nothing [OF f] f show ?thesis by auto
qed

text \<open>
  C20. A client that was constructed always has keys: after a successful construction, through
  any sequence of refresher ticks, verifications and passing time, the cache is never empty,
  holds each \<^verbatim>\<open>kid\<close> once and never the empty \<^verbatim>\<open>kid\<close>, and URL, issuer and a positive stale limit
  stay as constructed.
\<close>

theorem client_keeps_keys:
  assumes "parse_contract env sig_ok parse"
    and "reach (jwks_init env url iss maxStale) (jwks_step env parse) (c, w)"
  shows "cache c \<noteq> [] \<and> distinct (map fst (cache c)) \<and> [] \<notin> fst ` set (cache c) \<and>
     jwksURL c = url \<and> issuer c = iss \<and> 0 < maxStaleDuration c"
  using inductive_invariant.holds [OF jwks_invariant [OF assms(1)] assms(2)] by (simp add: client_inv_def)

theorem client_keeps_keys_witness:
  "reach (jwks_init demo_env ''u'' ''iss'' 0) (jwks_step demo_env (demo_parse demo_env demo_token))
     (demo_client\<lparr>lastUpdated := 5\<rparr>, 5) \<and> cache (demo_client\<lparr>lastUpdated := 5\<rparr>) \<noteq> []"
proof -
  have "NewJWKSCachingClient demo_env ''u'' ''iss'' 0 0 = (Inr (demo_client\<lparr>lastUpdated := 5\<rparr>), 5)"
    by (rule demo_new)
  then have r: "reach (jwks_init demo_env ''u'' ''iss'' 0) (jwks_step demo_env (demo_parse demo_env demo_token))
     (demo_client\<lparr>lastUpdated := 5\<rparr>, 5)" by (intro reach_init) (auto simp: jwks_init_def)
  from client_keeps_keys [OF demo_parse_contract r] r show ?thesis by simp
qed



text \<open>
  The one-minute leeway on expiry and not-before has no effect: the JWT library has already
  checked both times without leeway, so when it accepts a token within a minute, \<^verbatim>\<open>VerifyToken\<close>
  accepts it too; the later checks never reject and the missing-expiry dereference never
  happens.
\<close>

lemma leeway_never_applies:
  assumes "parse_contract env sig_ok parse"
    and "parse s (keyfunc env) (issuer (fst st)) st = (Inr tok, st')"
    and "clock env (snd st') - clock env (snd st) \<le> 1 * minute"
  shows "VerifyToken env parse s st = (VOk (claims tok), st')"
proof -
  from parse_ok [OF assms(1,2)] obtain t exp where ok: "Valid tok" "clock env (snd st) \<le> t"
    "t \<le> clock env (snd st')" "ExpiresAt (claims tok) = Some exp" "t < exp"
    "\<forall>nbf. NotBefore (claims tok) = Some nbf \<longrightarrow> nbf \<le> t" by blast
  have "check_times (clock env (snd st')) (claims tok) = VOk (claims tok)"
    by (rule check_times_after_parse [OF ok(4,5,3) _ ok(6)]) (use assms(3) ok(2) in simp)
  with assms(2) ok(1) show ?thesis by (simp add: VerifyToken_def)
qed

lemma leeway_never_applies_witness:
  "VerifyToken demo_env (demo_parse demo_env demo_token) ''t'' (demo_client, 0) =
     (VOk (claims (demo_token\<lparr>Valid := True\<rparr>)), demo_client, 0)"
  by (rule leeway_never_applies [OF demo_parse_contract]) (simp_all add: demo_defs keyfunc_def demo_parse_def)

end
