(* ===== verification/Jwks_Concurrent.thy ===== *)
theory Jwks_Concurrent
  imports Jwks
begin

text \<open>
  The JWKS client under concurrent use: any number of goroutines look up the key of a token while
  the refresher ticks and the key server changes.  \<^verbatim>\<open>fetchKeys\<close> is split at the answer of the key
  server and at the lock under which the cache is replaced; \<^verbatim>\<open>singleflight\<close> is modelled by what it
  documents: the first caller of \<^verbatim>\<open>doRefresh\<close> starts a flight, callers that come while it lasts wait
  for it, and all of them get its result.  The HTTP client answers every request, if only with
  the error of its five second timeout.
\<close>

section \<open>fetchKeys in two parts\<close>

text \<open>Everything before the lock.\<close>

definition fetch_response ::
  "'w jwks_env \<Rightarrow> caching_client \<Rightarrow> 'w \<Rightarrow> (go_error + (string \<times> rsa_key) list) \<times> 'w" where
  "fetch_response env c w =
     (case new_request env (jwksURL c) of
        Some err \<Rightarrow> (Inl (wrap_prefix ''failed to create request: '' err), w)
      | None \<Rightarrow>
          (case do_request env (jwksURL c) w of
             (Inl err, w1) \<Rightarrow> (Inl (wrap_prefix ''failed to fetch JWKS URL: '' err), w1)
           | (Inr (status, body), w1) \<Rightarrow>
               if status \<noteq> 200
               then (Inl (ErrorString (''JWKS endpoint returned status '' @ itoa status)), w1)
               else (case decode_jwks env body of
                       Inl err \<Rightarrow> (Inl (wrap_prefix ''failed to decode JWKS response: '' err), w1)
                     | Inr keys \<Rightarrow>
                         let newCache = build_cache keys []
                         in if newCache = []
                            then (Inl (ErrorString ''JWKS response contains zero valid RSA keys''), w1)
                            else (Inr newCache, w1))))"

text \<open>What happens under the lock.\<close>

definition install_keys :: "int \<Rightarrow> (string \<times> rsa_key) list \<Rightarrow> caching_client \<Rightarrow> caching_client" where
  "install_keys now newCache c = c\<lparr>cache := newCache, lastUpdated := now\<rparr>"

section \<open>Goroutines and the flight\<close>

text \<open>A caller of \<^verbatim>\<open>doRefresh\<close> wants a key or is the ticker.\<close>

datatype purpose = ForKid string | ForTick

text \<open>
  Where a goroutine stands: idle, after a miss, waiting for the flight, woken with the flight's
  result, or done with a key, an error or a tick.
\<close>

datatype pc = Idle | Missed purpose | Waiting purpose | Woken purpose "go_error option"
  | Got string rsa_key | Denied go_error | Ticked "go_error option"

datatype flight = Requesting | Answered "go_error + (string \<times> rsa_key) list" | Landed "go_error option"

text \<open>
  \<open>installed\<close> records the caches that have been current, the first at construction; \<open>requests\<close>
  counts the flights started.
\<close>

record 'w jwks_state =
  jc :: caching_client
  jw :: 'w
  flying :: "flight option"
  pc_of :: "nat \<Rightarrow> pc"
  installed :: "(string \<times> rsa_key) list list"
  requests :: nat

definition set_pc :: "nat \<Rightarrow> pc \<Rightarrow> 'w jwks_state \<Rightarrow> 'w jwks_state" where
  "set_pc g p s = s\<lparr>pc_of := (pc_of s)(g := p)\<rparr>"

definition lookup_pc :: "string \<Rightarrow> caching_client \<Rightarrow> pc \<Rightarrow> pc" where
  "lookup_pc kid c missing = (case map_of (cache c) kid of Some key \<Rightarrow> Got kid key | None \<Rightarrow> missing)"

text \<open>\<^verbatim>\<open>sf.Do\<close>: start a flight unless there is one, and wait.\<close>

definition join_flight :: "nat \<Rightarrow> purpose \<Rightarrow> 'w jwks_state \<Rightarrow> 'w jwks_state" where
  "join_flight g p s =
     (case flying s of
        None \<Rightarrow> set_pc g (Waiting p) (s\<lparr>flying := Some Requesting, requests := Suc (requests s)\<rparr>)
      | Some f \<Rightarrow> set_pc g (Waiting p) s)"

definition wake :: "go_error option \<Rightarrow> pc \<Rightarrow> pc" where
  "wake r p = (case p of Waiting why \<Rightarrow> Woken why r | _ \<Rightarrow> p)"

text \<open>After \<^verbatim>\<open>doRefresh\<close>: the error, or a second look into the cache.\<close>

definition after_refresh :: "purpose \<Rightarrow> go_error option \<Rightarrow> caching_client \<Rightarrow> pc" where
  "after_refresh p r c =
     (case p of
        ForTick \<Rightarrow> Ticked r
      | ForKid kid \<Rightarrow>
          (case r of
             Some err \<Rightarrow> Denied (wrap_prefix ''failed emergency key refresh: '' err)
           | None \<Rightarrow> lookup_pc kid c
               (Denied (ErrorString (''kid '' @ kid @ '' not found in JWKS even after emergency refresh'')))))"

datatype 'w flight_label = LookUp nat string | TickFires nat | Join nat | Answer | Install | Land
  | Resume nat | ServerChange 'w

inductive flight_step :: "'w jwks_env \<Rightarrow> 'w jwks_state \<Rightarrow> 'w flight_label \<Rightarrow> 'w jwks_state \<Rightarrow> bool"
  for env where
  look_up: "pc_of s g = Idle \<Longrightarrow>
     flight_step env s (LookUp g kid) (set_pc g (lookup_pc kid (jc s) (Missed (ForKid kid))) s)"
| tick_fires: "pc_of s g = Idle \<Longrightarrow> flight_step env s (TickFires g) (set_pc g (Missed ForTick) s)"
| join: "pc_of s g = Missed p \<Longrightarrow> flight_step env s (Join g) (join_flight g p s)"
| answer: "flying s = Some Requesting \<Longrightarrow> fetch_response env (jc s) (jw s) = (res, w') \<Longrightarrow>
     flight_step env s Answer (s\<lparr>flying := Some (Answered res), jw := w'\<rparr>)"
| install_new: "flying s = Some (Answered (Inr newCache)) \<Longrightarrow>
     flight_step env s Install (s\<lparr>flying := Some (Landed None),
       jc := install_keys (clock env (jw s)) newCache (jc s), installed := installed s @ [newCache]\<rparr>)"
| install_none: "flying s = Some (Answered (Inl err)) \<Longrightarrow>
     flight_step env s Install (s\<lparr>flying := Some (Landed (Some err))\<rparr>)"
| land: "flying s = Some (Landed r) \<Longrightarrow>
     flight_step env s Land (s\<lparr>flying := None, pc_of := wake r \<circ> pc_of s\<rparr>)"
| resume: "pc_of s g = Woken p r \<Longrightarrow> flight_step env s (Resume g) (set_pc g (after_refresh p r (jc s)) s)"
| server_change: "flight_step env s (ServerChange w') (s\<lparr>jw := w'\<rparr>)"

definition flight_init ::
  "'w jwks_env \<Rightarrow> string \<Rightarrow> string \<Rightarrow> duration \<Rightarrow> 'w jwks_state \<Rightarrow> bool" where
  "flight_init env url iss maxStale s \<longleftrightarrow>
     (\<exists>w0. NewJWKSCachingClient env url iss maxStale w0 = (Inr (jc s), jw s)) \<and> flying s = None \<and>
     (\<forall>g. pc_of s g = Idle) \<and> installed s = [cache (jc s)] \<and> requests s = 0"

text \<open>The step relation is a function of the label.\<close>

fun flight_exec :: "'w jwks_env \<Rightarrow> 'w flight_label \<Rightarrow> 'w jwks_state \<Rightarrow> 'w jwks_state option" where
  "flight_exec env (LookUp g kid) s =
     (if pc_of s g = Idle then Some (set_pc g (lookup_pc kid (jc s) (Missed (ForKid kid))) s) else None)"
| "flight_exec env (TickFires g) s = (if pc_of s g = Idle then Some (set_pc g (Missed ForTick) s) else None)"
| "flight_exec env (Join g) s = (case pc_of s g of Missed p \<Rightarrow> Some (join_flight g p s) | _ \<Rightarrow> None)"
| "flight_exec env Answer s =
     (if flying s = Some Requesting
      then (case fetch_response env (jc s) (jw s) of (res, w') \<Rightarrow> Some (s\<lparr>flying := Some (Answered res), jw := w'\<rparr>))
      else None)"
| "flight_exec env Install s =
     (case flying s of
        Some (Answered (Inr newCache)) \<Rightarrow>
          Some (s\<lparr>flying := Some (Landed None), jc := install_keys (clock env (jw s)) newCache (jc s),
            installed := installed s @ [newCache]\<rparr>)
      | Some (Answered (Inl err)) \<Rightarrow> Some (s\<lparr>flying := Some (Landed (Some err))\<rparr>)
      | _ \<Rightarrow> None)"
| "flight_exec env Land s =
     (case flying s of Some (Landed r) \<Rightarrow> Some (s\<lparr>flying := None, pc_of := wake r \<circ> pc_of s\<rparr>) | _ \<Rightarrow> None)"
| "flight_exec env (Resume g) s =
     (case pc_of s g of Woken p r \<Rightarrow> Some (set_pc g (after_refresh p r (jc s)) s) | _ \<Rightarrow> None)"
| "flight_exec env (ServerChange w') s = Some (s\<lparr>jw := w'\<rparr>)"

lemma flight_step_exec: "flight_step env s lab t \<longleftrightarrow> flight_exec env lab s = Some t"
proof
  assume "flight_step env s lab t"
  then show "flight_exec env lab s = Some t" by (induction rule: flight_step.induct) simp_all
next
  assume "flight_exec env lab s = Some t"
  then show "flight_step env s lab t"
    by (cases lab) (auto intro: flight_step.intros split: if_splits pc.splits option.splits flight.splits sum.splits prod.splits)
qed

section \<open>Invariant\<close>

definition cache_ok :: "(string \<times> rsa_key) list \<Rightarrow> bool" where
  "cache_ok c \<longleftrightarrow> c \<noteq> [] \<and> distinct (map fst c) \<and> [] \<notin> fst ` set c"

definition waits_ok :: "'w jwks_state \<Rightarrow> bool" where
  "waits_ok s \<longleftrightarrow> (\<forall>g p. pc_of s g = Waiting p \<longrightarrow> flying s \<noteq> None)"

definition keys_ok :: "'w jwks_state \<Rightarrow> bool" where
  "keys_ok s \<longleftrightarrow> installed s \<noteq> [] \<and> cache (jc s) = last (installed s) \<and> (\<forall>c \<in> set (installed s). cache_ok c) \<and>
     (\<forall>c. flying s = Some (Answered (Inr c)) \<longrightarrow> cache_ok c) \<and>
     (\<forall>g kid key. pc_of s g = Got kid key \<longrightarrow> (\<exists>c \<in> set (installed s). map_of c kid = Some key))"

definition flights_ok :: "'w jwks_state \<Rightarrow> bool" where
  "flights_ok s \<longleftrightarrow> length (installed s) + (case flying s of Some (Landed _) \<Rightarrow> 0 | Some _ \<Rightarrow> 1 | None \<Rightarrow> 0) \<le> Suc (requests s)"

lemma fetchKeys_split:
  "fetchKeys env (c, w) =
     (case fetch_response env c w of
        (Inl err, w1) \<Rightarrow> (Some err, c, w1)
      | (Inr newCache, w1) \<Rightarrow> (None, install_keys (clock env w1) newCache c, w1))"
  by (auto simp: fetchKeys_def fetch_response_def install_keys_def Let_def split: option.splits prod.splits sum.splits)

lemma fetch_response_ok:
  assumes "fetch_response env c w = (Inr newCache, w')"
  shows "cache_ok newCache"
proof -
  from assms obtain keys where "newCache = build_cache keys []" "newCache \<noteq> []"
    by (auto simp: fetch_response_def Let_def split: option.splits prod.splits sum.splits if_splits)
  with build_cache_distinct [of "[]" keys] build_cache_kid [of "[]" keys] show ?thesis by (auto simp: cache_ok_def)
qed

lemma lookup_pc_Got: "lookup_pc kid c missing = Got kid' key \<Longrightarrow> missing \<noteq> Got kid' key \<Longrightarrow> map_of (cache c) kid' = Some key"
  by (auto simp: lookup_pc_def split: option.splits)

lemma pc_set_pc [simp]: "pc_of (set_pc g p s) = (pc_of s)(g := p)"
  by (simp add: set_pc_def)

lemma set_pc_frame [simp]:
  "jc (set_pc g p s) = jc s" "jw (set_pc g p s) = jw s" "flying (set_pc g p s) = flying s"
  "installed (set_pc g p s) = installed s" "requests (set_pc g p s) = requests s"
  by (simp_all add: set_pc_def)

lemma join_flight_frame [simp]:
  "jc (join_flight g p s) = jc s" "jw (join_flight g p s) = jw s" "installed (join_flight g p s) = installed s"
  "pc_of (join_flight g p s) = (pc_of s)(g := Waiting p)"
  "flying (join_flight g p s) = Some (case flying s of None \<Rightarrow> Requesting | Some f \<Rightarrow> f)"
  "requests (join_flight g p s) = (if flying s = None then Suc (requests s) else requests s)"
  by (simp_all add: join_flight_def split: option.split)

lemma keys_ok_set_pc:
  assumes "keys_ok s" and "\<And>kid key. p = Got kid key \<Longrightarrow> map_of (cache (jc s)) kid = Some key"
  shows "keys_ok (set_pc g p s)"
proof -
  have "last (installed s) \<in> set (installed s)" "cache (jc s) = last (installed s)" using assms(1) by (simp_all add: keys_ok_def)
  then have "\<exists>c \<in> set (installed s). map_of c kid = Some key" if "pc_of (set_pc g p s) h = Got kid key" for h kid key
    using that assms by (cases "h = g") (auto simp: keys_ok_def)
  with assms(1) show ?thesis unfolding keys_ok_def by simp
qed

lemma after_refresh_Got: "after_refresh p r c = Got kid key \<Longrightarrow> map_of (cache c) kid = Some key"
  by (auto simp: after_refresh_def lookup_pc_def split: purpose.splits option.splits)

lemma after_refresh_not_Waiting [simp]: "after_refresh p r c \<noteq> Waiting q"
  by (auto simp: after_refresh_def lookup_pc_def split: purpose.splits option.splits)

lemma keys_ok_step: "flight_step env s lab s' \<Longrightarrow> keys_ok s \<Longrightarrow> keys_ok s'"
proof (induction rule: flight_step.induct)
  case (look_up s g kid)
  then show ?case by (intro keys_ok_set_pc) (auto simp: lookup_pc_def split: option.splits)
next
  case (tick_fires s g)
  then show ?case by (intro keys_ok_set_pc) auto
next
  case (join s g p)
  then show ?case by (auto simp: keys_ok_def split: option.splits)
next
  case (answer s res w')
  then show ?case by (auto simp: keys_ok_def dest: fetch_response_ok)
next
  case (install_new s newCache)
  then show ?case by (auto simp: keys_ok_def install_keys_def)
next
  case (land s r)
  then show ?case by (auto simp: keys_ok_def wake_def split: pc.splits)
next
  case (resume s g p r)
  then show ?case by (intro keys_ok_set_pc) (auto dest: after_refresh_Got)
qed (auto simp: keys_ok_def)

lemma waits_ok_step: "flight_step env s lab s' \<Longrightarrow> waits_ok s \<Longrightarrow> waits_ok s'"
  by (induction rule: flight_step.induct)
    (auto simp: waits_ok_def wake_def lookup_pc_def split: pc.splits option.splits)

lemma flights_ok_step: "flight_step env s lab s' \<Longrightarrow> flights_ok s \<Longrightarrow> flights_ok s'"
  by (induction rule: flight_step.induct) (auto simp: flights_ok_def split: option.splits flight.splits)

definition flight_inv :: "'w jwks_state \<Rightarrow> bool" where
  "flight_inv s \<longleftrightarrow> keys_ok s \<and> waits_ok s \<and> flights_ok s"

interpretation flights: inductive_invariant "flight_init env url iss maxStale" "flight_step env" flight_inv
proof unfold_locales
  fix s assume init: "flight_init env url iss maxStale s"
  then obtain w0 where "NewJWKSCachingClient env url iss maxStale w0 = (Inr (jc s), jw s)" by (auto simp: flight_init_def)
  from NewJWKS_inv [OF this] have "cache_ok (cache (jc s))" by (simp add: client_inv_def cache_ok_def)
  with init show "flight_inv s" by (simp add: flight_inv_def flight_init_def keys_ok_def waits_ok_def flights_ok_def)
qed (use keys_ok_step waits_ok_step flights_ok_step in \<open>auto simp: flight_inv_def\<close>)

section \<open>Progress\<close>

text \<open>A step of one goroutine or of the flight.\<close>

definition own_step :: "'w jwks_env \<Rightarrow> nat \<Rightarrow> 'w jwks_state \<Rightarrow> 'w jwks_state \<Rightarrow> bool" where
  "own_step env g s s' \<longleftrightarrow> (\<exists>lab \<in> {Join g, Answer, Install, Land, Resume g}. flight_step env s lab s')"

fun settled_pc :: "pc \<Rightarrow> bool" where
  "settled_pc (Got kid key) = True"
| "settled_pc (Denied err) = True"
| "settled_pc (Ticked r) = True"
| "settled_pc _ = False"

text \<open>Each such step uses up some of what the goroutine and the flight have left to do.\<close>

fun pc_rank :: "pc \<Rightarrow> nat" where
  "pc_rank (Missed p) = 8"
| "pc_rank (Waiting p) = 4"
| "pc_rank (Woken p r) = 1"
| "pc_rank _ = 0"

fun flight_rank :: "flight option \<Rightarrow> nat" where
  "flight_rank None = 0"
| "flight_rank (Some Requesting) = 3"
| "flight_rank (Some (Answered res)) = 2"
| "flight_rank (Some (Landed r)) = 1"

definition rank :: "nat \<Rightarrow> 'w jwks_state \<Rightarrow> nat" where
  "rank g s = pc_rank (pc_of s g) + flight_rank (flying s)"

lemma own_step_rank: "own_step env g s s' \<Longrightarrow> rank g s' < rank g s"
  unfolding own_step_def
  by (auto simp: rank_def flight_step_exec wake_def after_refresh_def lookup_pc_def
      split: if_splits pc.splits option.splits flight.splits sum.splits purpose.splits prod.splits)

lemma own_steps_bounded: "(own_step env g ^^ n) s s' \<Longrightarrow> n + rank g s' \<le> rank g s"
proof (induction n arbitrary: s')
  case (Suc n)
  then obtain t where "(own_step env g ^^ n) s t" "own_step env g t s'" by auto
  with Suc.IH own_step_rank show ?case by fastforce
qed simp

lemma rank_bound: "rank g s \<le> 11"
  by (cases "pc_of s g"; cases "flying s" rule: flight_rank.cases) (simp_all add: rank_def)

text \<open>A goroutine that is neither idle nor settled, or its flight, can always make a step.\<close>

lemma own_step_enabled:
  assumes "waits_ok s" and "pc_of s g \<noteq> Idle" and "\<not> settled_pc (pc_of s g)"
  shows "\<exists>s'. own_step env g s s'"
proof (cases "pc_of s g")
  case (Missed p)
  then show ?thesis unfolding own_step_def by (blast intro: flight_step.join)
next
  case (Woken p r)
  then show ?thesis unfolding own_step_def by (blast intro: flight_step.resume)
next
  case (Waiting p)
  with assms(1) obtain f where f: "flying s = Some f" by (auto simp: waits_ok_def)
  have "\<exists>lab \<in> {Answer, Install, Land}. \<exists>s'. flight_step env s lab s'"
  proof (cases f)
    case (Answered res)
    with f show ?thesis by (cases res) (auto simp: flight_step_exec)
  qed (use f in \<open>auto simp: flight_step_exec split: prod.split\<close>)
  then show ?thesis unfolding own_step_def by blast
qed (use assms in simp_all)

lemma own_step_flight: "own_step env g s s' \<Longrightarrow> \<exists>lab. flight_step env s lab s'"
  by (auto simp: own_step_def)

lemma own_step_not_Idle: "own_step env g s s' \<Longrightarrow> pc_of s g \<noteq> Idle \<Longrightarrow> pc_of s' g \<noteq> Idle"
  unfolding own_step_def
  by (auto simp: flight_step_exec wake_def after_refresh_def lookup_pc_def
      split: if_splits pc.splits option.splits flight.splits sum.splits purpose.splits prod.splits)

lemma own_steps_keep:
  assumes "(own_step env g)\<^sup>*\<^sup>* s s'" and "reach init (flight_step env) s" and "pc_of s g \<noteq> Idle"
  shows "reach init (flight_step env) s' \<and> pc_of s' g \<noteq> Idle"
  using assms
  by (induction rule: rtranclp_induct) (auto dest: own_step_not_Idle own_step_flight intro: reach_step)

section \<open>A goroutine on its own\<close>

text \<open>The steps of one goroutine that misses, refreshes and looks again, without any other step between.\<close>

definition solo_steps :: "nat \<Rightarrow> string \<Rightarrow> 'w flight_label list" where
  "solo_steps g kid = [LookUp g kid, Join g, Answer, Install, Land, Resume g]"

fun runs :: "'w jwks_env \<Rightarrow> 'w flight_label list \<Rightarrow> 'w jwks_state \<Rightarrow> 'w jwks_state option" where
  "runs env [] s = Some s"
| "runs env (l # ls) s = Option.bind (flight_exec env l s) (runs env ls)"

lemma reach_runs:
  "runs env ls s = Some t \<Longrightarrow> reach init (flight_step env) s \<Longrightarrow> reach init (flight_step env) t"
proof (induction ls arbitrary: s)
  case (Cons l ls)
  then obtain s1 where "flight_exec env l s = Some s1" and rest: "runs env ls s1 = Some t" by (auto split: bind_splits)
  then have "reach init (flight_step env) s1" using Cons.prems(2) flight_step_exec by (metis reach_step)
  with Cons.IH [OF rest] show ?case .
qed simp

lemma solo_run:
  assumes "runs env (solo_steps g kid) s = Some s'" and "flying s = None" and "pc_of s g = Idle" and "map_of (cache (jc s)) kid = None"
  shows "(case doRefresh env (jc s, jw s) of (err, c, w) \<Rightarrow> jc s' = c \<and> jw s' = w \<and> pc_of s' g = after_refresh (ForKid kid) err c)"
  using assms
  by (auto simp: solo_steps_def doRefresh_def fetchKeys_split lookup_pc_def wake_def install_keys_def
      split: prod.splits sum.splits)

section \<open>Properties\<close>


text \<open>A client of the demonstration key server, before any verification.\<close>

definition idle_state :: "int jwks_state" where
  "idle_state = \<lparr>jc = demo_client\<lparr>lastUpdated := 5\<rparr>, jw = 5, flying = None, pc_of = \<lambda>_. Idle,
     installed = [cache demo_client], requests = 0\<rparr>"

lemma idle_state_init: "flight_init demo_env ''u'' ''iss'' 0 idle_state"
  using demo_new by (auto simp: flight_init_def idle_state_def)

lemma idle_state_look_up:
  "reach (flight_init demo_env ''u'' ''iss'' 0) (flight_step demo_env)
     (set_pc 0 (lookup_pc kid (jc idle_state) (Missed (ForKid kid))) idle_state)"
proof -
  have "reach (flight_init demo_env ''u'' ''iss'' 0) (flight_step demo_env) idle_state"
    by (rule reach_init, rule idle_state_init)
  moreover have "flight_step demo_env idle_state (LookUp 0 kid)
      (set_pc 0 (lookup_pc kid (jc idle_state) (Missed (ForKid kid))) idle_state)"
    by (rule flight_step.look_up) (simp add: idle_state_def)
  ultimately show ?thesis by (rule reach_step)
qed


text \<open>
  C23. No verification is stuck behind a refresh: from every reachable state, a goroutine that missed
  a key or waits for a refresh and the flight it waits for make at most eleven steps, in whatever
  order, and when they can make no more the goroutine has a key or an error, whatever all others
  did before and whatever the key server answers.
\<close>

theorem verification_finishes:
  assumes "reach (flight_init env url iss maxStale) (flight_step env) s" and "pc_of s g \<noteq> Idle"
  shows "(\<forall>n s'. (own_step env g ^^ n) s s' \<longrightarrow> n \<le> 11) \<and>
    (\<forall>s'. (own_step env g)\<^sup>*\<^sup>* s s' \<and> \<not> (\<exists>s''. own_step env g s' s'') \<longrightarrow> settled_pc (pc_of s' g))"
proof (intro conjI allI impI; (elim conjE)?)
  fix n s' assume "(own_step env g ^^ n) s s'"
  with own_steps_bounded rank_bound show "n \<le> 11" by (metis add_leD1 order_trans)
next
  fix s' assume run: "(own_step env g)\<^sup>*\<^sup>* s s'" and stuck: "\<not> (\<exists>s''. own_step env g s' s'')"
  from own_steps_keep [OF run assms] have r: "reach (flight_init env url iss maxStale) (flight_step env) s'" "pc_of s' g \<noteq> Idle"
    by simp_all
  from flights.holds [OF r(1)] have "waits_ok s'" by (simp add: flight_inv_def)
  with own_step_enabled [OF _ r(2)] stuck show "settled_pc (pc_of s' g)" by blast
qed

theorem verification_finishes_witness:
  "\<exists>s. reach (flight_init demo_env ''u'' ''iss'' 0) (flight_step demo_env) s \<and> pc_of s 0 = Missed (ForKid ''k9'') \<and>
     (\<forall>s'. (own_step demo_env 0)\<^sup>*\<^sup>* s s' \<and> \<not> (\<exists>s''. own_step demo_env 0 s' s'') \<longrightarrow> settled_pc (pc_of s' 0))"
proof -
  let ?s = "set_pc 0 (lookup_pc ''k9'' (jc idle_state) (Missed (ForKid ''k9''))) idle_state"
  have r: "reach (flight_init demo_env ''u'' ''iss'' 0) (flight_step demo_env) ?s"
    by (rule idle_state_look_up)
  have m: "pc_of ?s 0 = Missed (ForKid ''k9'')" by (simp add: lookup_pc_def idle_state_def demo_client_def)
  then have "pc_of ?s 0 \<noteq> Idle" by simp
  from verification_finishes [OF r this] r m show ?thesis by blast
qed


text \<open>The rotating key server publishes \<open>k2\<close> from time \<open>10\<close> on.\<close>

definition jwk_of :: "string \<Rightarrow> json_web_key" where
  "jwk_of kid = \<lparr>Kty = ''RSA'', Use = ''sig'', Kid = kid, jwk_N = ''AQ'', jwk_E = ''AQAB''\<rparr>"

definition rotating_env :: "int jwks_env" where
  "rotating_env = demo_env\<lparr>do_request := \<lambda>url w. (Inr (200, if w < 10 then ''old'' else ''new''), w),
     decode_jwks := \<lambda>b. Inr (jwk_of ''k1'' # (if b = ''new'' then [jwk_of ''k2''] else []))\<rparr>"

lemma jwk_of_key: "toRSAPublicKey (jwk_of kid) = Inr \<lparr>key_N = 1, key_E = 65537\<rparr>"
proof -
  have "toRSAPublicKey (jwk_of kid) = toRSAPublicKey (jwk_of ''k1'')"
    by (simp add: toRSAPublicKey_def jwk_of_def cong: option.case_cong)
  with demo_key show ?thesis by (simp add: jwk_of_def)
qed

lemma jwk_of_usable: "usable_jwk (jwk_of kid) \<longleftrightarrow> kid \<noteq> []" "Kid (jwk_of kid) = kid"
  by (simp_all add: usable_jwk_def jwk_of_def)

lemma fetch_demo: "fetch_response demo_env (demo_client\<lparr>lastUpdated := t\<rparr>) w = (Inr (cache demo_client), w + 5)"
  using demo_key by (simp add: fetch_response_def demo_defs usable_jwk_def)

lemma fetch_rotating:
  "fetch_response rotating_env c w =
     (Inr ((''k1'', \<lparr>key_N = 1, key_E = 65537\<rparr>) # (if w < 10 then [] else [(''k2'', \<lparr>key_N = 1, key_E = 65537\<rparr>)])), w)"
  by (simp add: fetch_response_def rotating_env_def demo_env_def jwk_of_usable jwk_of_key)

lemma runs_idle: "\<exists>s'. runs demo_env (solo_steps 0 ''k9'') idle_state = Some s'"
  using fetch_demo by (simp add: solo_steps_def idle_state_def lookup_pc_def demo_client_def wake_def)


text \<open>
  A client of the rotating server while goroutine \<open>0\<close> has a request answered with the old keys and
  the server has published \<open>k2\<close>.
\<close>

definition rotating_state :: "int jwks_state" where
  "rotating_state = idle_state\<lparr>jc := demo_client, jw := 0\<rparr>"

lemma clock_rotating: "clock rotating_env w = w"
  by (simp add: rotating_env_def demo_env_def)

lemma rotating_state_init: "flight_init rotating_env ''u'' ''iss'' 0 rotating_state"
proof -
  have "NewJWKSCachingClient rotating_env ''u'' ''iss'' 0 0 = (Inr demo_client, 0)"
    by (simp add: NewJWKSCachingClient_def fetchKeys_split fetch_rotating install_keys_def clock_rotating demo_client_def Let_def)
  then show ?thesis by (auto simp: flight_init_def rotating_state_def idle_state_def)
qed

text \<open>
  A refresh that is joined can be older than the miss: a goroutine that misses a key the
  server already publishes, joins a flight whose answer was received before, and is denied with
  \<^verbatim>\<open>not found in JWKS even after emergency refresh\<close>, although the refresh it asked for, had it
  been sent, would have brought the key.
\<close>

lemma joined_refresh_may_miss:
  "\<exists>s s'. reach (flight_init rotating_env ''u'' ''iss'' 0) (flight_step rotating_env) s \<and> pc_of s 1 = Idle \<and>
     runs rotating_env [LookUp 1 ''k2'', Join 1, Install, Land, Resume 1] s = Some s' \<and>
     pc_of s' 1 = Denied (ErrorString ''kid k2 not found in JWKS even after emergency refresh'') \<and>
     fst (keyfunc rotating_env (demo_token\<lparr>header_kid := Some ''k2''\<rparr>) (jc s, jw s)) = Inr \<lparr>key_N = 1, key_E = 65537\<rparr>"
proof -
  have init: "reach (flight_init rotating_env ''u'' ''iss'' 0) (flight_step rotating_env) rotating_state"
    by (rule reach_init, rule rotating_state_init)
  obtain s where s: "runs rotating_env [TickFires 0, Join 0, Answer, ServerChange 10] rotating_state = Some s"
    by (simp add: rotating_state_def idle_state_def fetch_rotating)
  then have "pc_of s 1 = Idle"
    "\<exists>s'. runs rotating_env [LookUp 1 ''k2'', Join 1, Install, Land, Resume 1] s = Some s' \<and>
      pc_of s' 1 = Denied (ErrorString ''kid k2 not found in JWKS even after emergency refresh'')"
    "fst (keyfunc rotating_env (demo_token\<lparr>header_kid := Some ''k2''\<rparr>) (jc s, jw s)) = Inr \<lparr>key_N = 1, key_E = 65537\<rparr>"
    by (auto simp: rotating_state_def idle_state_def fetch_rotating lookup_pc_def demo_client_def demo_token_def wake_def
        after_refresh_def install_keys_def keyfunc_def doRefresh_def fetchKeys_split)
  with reach_runs [OF s init] show ?thesis by blast
qed

end
