(* ===== verification/Contextx.thy ===== *)
theory Contextx
  imports Prelude
begin

text \<open>
  The package \<^verbatim>\<open>pkg/contextx\<close>: typed slots in a \<^verbatim>\<open>context.Context\<close>.  A context is the chain of
  \<^verbatim>\<open>context.WithValue\<close> layers; layers that other packages add under keys of their own types are
  \<open>Foreign\<close> and their accessors (the active span, gRPC metadata, the peer) read only those.

  The accessors of the thirteen slots are instances of the locale \<open>slot_store\<close>, which gives
  what any sequence of \<^verbatim>\<open>With...\<close> calls leaves in a slot.
\<close>

section \<open>Contexts\<close>

text \<open>The dynamic value under a key; \<open>VOther\<close> is a value of another type, with the text \<^verbatim>\<open>%v\<close> prints.\<close>

datatype ctx_value = VString string | VInt int | VStrings "string list" | VOther string

datatype 'b go_context =
    Background
  | WithValue "'b go_context" string ctx_value
  | Foreign "'b go_context" 'b

text \<open>\<^verbatim>\<open>ctx.Value(key)\<close> for a key of type \<^verbatim>\<open>contextKey\<close>.\<close>

primrec Value :: "'b go_context \<Rightarrow> string \<Rightarrow> ctx_value option" where
  "Value Background key = None"
| "Value (WithValue ctx k v) key = (if k = key then Some v else Value ctx key)"
| "Value (Foreign ctx b) key = Value ctx key"

text \<open>The layers of other packages, innermost first.\<close>

primrec foreign :: "'b go_context \<Rightarrow> 'b list" where
  "foreign Background = []"
| "foreign (WithValue ctx k v) = foreign ctx"
| "foreign (Foreign ctx b) = b # foreign ctx"

section \<open>The getters\<close>

text \<open>A nil context is \<^term>\<open>None\<close>.\<close>

definition getString :: "'b go_context option \<Rightarrow> string \<Rightarrow> string \<Rightarrow> string" where
  "getString ctx key fallback =
     (case ctx of
        None \<Rightarrow> fallback
      | Some c \<Rightarrow> (case Value c key of Some (VString val) \<Rightarrow> val | _ \<Rightarrow> fallback))"

definition getInt :: "'b go_context option \<Rightarrow> string \<Rightarrow> int \<Rightarrow> int" where
  "getInt ctx key fallback =
     (case ctx of
        None \<Rightarrow> fallback
      | Some c \<Rightarrow> (case Value c key of Some (VInt val) \<Rightarrow> val | _ \<Rightarrow> fallback))"

definition getStringSlice :: "'b go_context option \<Rightarrow> string \<Rightarrow> string list" where
  "getStringSlice ctx key =
     (case ctx of
        None \<Rightarrow> []
      | Some c \<Rightarrow> (case Value c key of Some (VStrings val) \<Rightarrow> val | _ \<Rightarrow> []))"

section \<open>Keys\<close>

definition TraceIDKey :: string where
  "TraceIDKey = ''helix.trace_id''"

definition ParentTraceIDKey :: string where
  "ParentTraceIDKey = ''helix.parent_trace_id''"

definition SpanIDKey :: string where
  "SpanIDKey = ''helix.span_id''"

definition RequestIDKey :: string where
  "RequestIDKey = ''helix.request_id''"

definition SourceServiceKey :: string where
  "SourceServiceKey = ''helix.source_service''"

definition EntryPointKey :: string where
  "EntryPointKey = ''helix.entry_point''"

definition AuthPrincipalIDKey :: string where
  "AuthPrincipalIDKey = ''helix.auth_principal_id''"

definition AuthSessionIDKey :: string where
  "AuthSessionIDKey = ''helix.auth_session_id''"

definition AuthDecisionIDKey :: string where
  "AuthDecisionIDKey = ''helix.auth_decision_id''"

definition IdempotencyKey :: string where
  "IdempotencyKey = ''helix.idempotency_key''"

definition RetryAttemptKey :: string where
  "RetryAttemptKey = ''helix.retry_attempt''"

definition AuditReasonKey :: string where
  "AuditReasonKey = ''helix.audit_reason''"

definition ChangeTicketKey :: string where
  "ChangeTicketKey = ''helix.change_ticket''"

section \<open>Slots\<close>

text \<open>The setters take a non-nil context, as \<^verbatim>\<open>context.WithValue\<close> requires.\<close>

definition GetTraceID :: "'b go_context option \<Rightarrow> string" where
  "GetTraceID ctx = getString ctx TraceIDKey ''untriaged''"

definition WithTraceID :: "'b go_context \<Rightarrow> string \<Rightarrow> 'b go_context" where
  "WithTraceID ctx v = WithValue ctx TraceIDKey (VString v)"

definition GetParentTraceID :: "'b go_context option \<Rightarrow> string" where
  "GetParentTraceID ctx = getString ctx ParentTraceIDKey []"

definition WithParentTraceID :: "'b go_context \<Rightarrow> string \<Rightarrow> 'b go_context" where
  "WithParentTraceID ctx v = WithValue ctx ParentTraceIDKey (VString v)"

definition GetSpanID :: "'b go_context option \<Rightarrow> string" where
  "GetSpanID ctx = getString ctx SpanIDKey []"

definition WithSpanID :: "'b go_context \<Rightarrow> string \<Rightarrow> 'b go_context" where
  "WithSpanID ctx v = WithValue ctx SpanIDKey (VString v)"

definition GetRequestID :: "'b go_context option \<Rightarrow> string" where
  "GetRequestID ctx = getString ctx RequestIDKey []"

definition WithRequestID :: "'b go_context \<Rightarrow> string \<Rightarrow> 'b go_context" where
  "WithRequestID ctx v = WithValue ctx RequestIDKey (VString v)"

definition GetSourceService :: "'b go_context option \<Rightarrow> string" where
  "GetSourceService ctx = getString ctx SourceServiceKey ''unknown''"

definition WithSourceService :: "'b go_context \<Rightarrow> string \<Rightarrow> 'b go_context" where
  "WithSourceService ctx v = WithValue ctx SourceServiceKey (VString v)"

definition GetEntryPoint :: "'b go_context option \<Rightarrow> string" where
  "GetEntryPoint ctx = getString ctx EntryPointKey ''unknown''"

definition WithEntryPoint :: "'b go_context \<Rightarrow> string \<Rightarrow> 'b go_context" where
  "WithEntryPoint ctx v = WithValue ctx EntryPointKey (VString v)"

definition GetAuthPrincipalID :: "'b go_context option \<Rightarrow> string" where
  "GetAuthPrincipalID ctx = getString ctx AuthPrincipalIDKey []"

definition WithAuthPrincipalID :: "'b go_context \<Rightarrow> string \<Rightarrow> 'b go_context" where
  "WithAuthPrincipalID ctx v = WithValue ctx AuthPrincipalIDKey (VString v)"

definition GetAuthSessionID :: "'b go_context option \<Rightarrow> string" where
  "GetAuthSessionID ctx = getString ctx AuthSessionIDKey []"

definition WithAuthSessionID :: "'b go_context \<Rightarrow> string \<Rightarrow> 'b go_context" where
  "WithAuthSessionID ctx v = WithValue ctx AuthSessionIDKey (VString v)"

definition GetAuthDecisionID :: "'b go_context option \<Rightarrow> string" where
  "GetAuthDecisionID ctx = getString ctx AuthDecisionIDKey []"

definition WithAuthDecisionID :: "'b go_context \<Rightarrow> string \<Rightarrow> 'b go_context" where
  "WithAuthDecisionID ctx v = WithValue ctx AuthDecisionIDKey (VString v)"

definition GetIdempotencyKey :: "'b go_context option \<Rightarrow> string" where
  "GetIdempotencyKey ctx = getString ctx IdempotencyKey []"

definition WithIdempotencyKey :: "'b go_context \<Rightarrow> string \<Rightarrow> 'b go_context" where
  "WithIdempotencyKey ctx v = WithValue ctx IdempotencyKey (VString v)"

definition GetRetryAttempt :: "'b go_context option \<Rightarrow> int" where
  "GetRetryAttempt ctx = getInt ctx RetryAttemptKey 0"

definition WithRetryAttempt :: "'b go_context \<Rightarrow> int \<Rightarrow> 'b go_context" where
  "WithRetryAttempt ctx v = WithValue ctx RetryAttemptKey (VInt v)"

definition GetAuditReason :: "'b go_context option \<Rightarrow> string" where
  "GetAuditReason ctx = getString ctx AuditReasonKey []"

definition WithAuditReason :: "'b go_context \<Rightarrow> string \<Rightarrow> 'b go_context" where
  "WithAuditReason ctx v = WithValue ctx AuditReasonKey (VString v)"

definition GetChangeTicket :: "'b go_context option \<Rightarrow> string" where
  "GetChangeTicket ctx = getString ctx ChangeTicketKey []"

definition WithChangeTicket :: "'b go_context \<Rightarrow> string \<Rightarrow> 'b go_context" where
  "WithChangeTicket ctx v = WithValue ctx ChangeTicketKey (VString v)"

section \<open>All slots together\<close>

datatype slot =
    Slot_TraceID
  | Slot_ParentTraceID
  | Slot_SpanID
  | Slot_RequestID
  | Slot_SourceService
  | Slot_EntryPoint
  | Slot_AuthPrincipalID
  | Slot_AuthSessionID
  | Slot_AuthDecisionID
  | Slot_IdempotencyKey
  | Slot_RetryAttempt
  | Slot_AuditReason
  | Slot_ChangeTicket

text \<open>One entry per getter and setter; a setter's argument has the slot's Go type.\<close>

fun get_slot :: "slot \<Rightarrow> 'b go_context option \<Rightarrow> ctx_value" where
  "get_slot Slot_TraceID ctx = VString (GetTraceID ctx)"
| "get_slot Slot_ParentTraceID ctx = VString (GetParentTraceID ctx)"
| "get_slot Slot_SpanID ctx = VString (GetSpanID ctx)"
| "get_slot Slot_RequestID ctx = VString (GetRequestID ctx)"
| "get_slot Slot_SourceService ctx = VString (GetSourceService ctx)"
| "get_slot Slot_EntryPoint ctx = VString (GetEntryPoint ctx)"
| "get_slot Slot_AuthPrincipalID ctx = VString (GetAuthPrincipalID ctx)"
| "get_slot Slot_AuthSessionID ctx = VString (GetAuthSessionID ctx)"
| "get_slot Slot_AuthDecisionID ctx = VString (GetAuthDecisionID ctx)"
| "get_slot Slot_IdempotencyKey ctx = VString (GetIdempotencyKey ctx)"
| "get_slot Slot_RetryAttempt ctx = VInt (GetRetryAttempt ctx)"
| "get_slot Slot_AuditReason ctx = VString (GetAuditReason ctx)"
| "get_slot Slot_ChangeTicket ctx = VString (GetChangeTicket ctx)"

fun put_slot :: "slot \<Rightarrow> 'b go_context \<Rightarrow> ctx_value \<Rightarrow> 'b go_context" where
  "put_slot Slot_TraceID ctx (VString v) = WithTraceID ctx v"
| "put_slot Slot_ParentTraceID ctx (VString v) = WithParentTraceID ctx v"
| "put_slot Slot_SpanID ctx (VString v) = WithSpanID ctx v"
| "put_slot Slot_RequestID ctx (VString v) = WithRequestID ctx v"
| "put_slot Slot_SourceService ctx (VString v) = WithSourceService ctx v"
| "put_slot Slot_EntryPoint ctx (VString v) = WithEntryPoint ctx v"
| "put_slot Slot_AuthPrincipalID ctx (VString v) = WithAuthPrincipalID ctx v"
| "put_slot Slot_AuthSessionID ctx (VString v) = WithAuthSessionID ctx v"
| "put_slot Slot_AuthDecisionID ctx (VString v) = WithAuthDecisionID ctx v"
| "put_slot Slot_IdempotencyKey ctx (VString v) = WithIdempotencyKey ctx v"
| "put_slot Slot_RetryAttempt ctx (VInt v) = WithRetryAttempt ctx v"
| "put_slot Slot_AuditReason ctx (VString v) = WithAuditReason ctx v"
| "put_slot Slot_ChangeTicket ctx (VString v) = WithChangeTicket ctx v"
| "put_slot _ ctx _ = ctx"

fun slot_typed :: "slot \<Rightarrow> ctx_value \<Rightarrow> bool" where
  "slot_typed Slot_RetryAttempt (VInt _) = True"
| "slot_typed Slot_RetryAttempt _ = False"
| "slot_typed _ (VString _) = True"
| "slot_typed _ _ = False"

text \<open>A sequence of setter calls.\<close>

fun put_slots :: "(slot \<times> ctx_value) list \<Rightarrow> 'b go_context \<Rightarrow> 'b go_context" where
  "put_slots [] ctx = ctx"
| "put_slots ((s, v) # ws) ctx = put_slots ws (put_slot s ctx v)"

section \<open>Laws\<close>

text \<open>
  What a family of slots promises: a slot returns what was last put into it, and putting into
  one slot touches no other.
\<close>

locale slot_store =
  fixes get :: "'i \<Rightarrow> 'c \<Rightarrow> 'v"
    and put :: "'i \<Rightarrow> 'c \<Rightarrow> 'v \<Rightarrow> 'c"
    and typed :: "'i \<Rightarrow> 'v \<Rightarrow> bool"
  assumes get_put: "typed j v \<Longrightarrow> get i (put j c v) = (if i = j then v else get i c)"
begin

lemma get_put_all:
  "\<forall>(j, v) \<in> set ws. typed j v \<Longrightarrow>
   get i (foldl (\<lambda>c (j, v). put j c v) c ws) = (case map_of (rev ws) i of Some v \<Rightarrow> v | None \<Rightarrow> get i c)"
proof (induction ws rule: rev_induct)
  case (snoc w ws)
  then show ?case by (cases w) (auto simp: get_put)
qed simp

end

lemmas contextx_keys =
  TraceIDKey_def ParentTraceIDKey_def SpanIDKey_def RequestIDKey_def SourceServiceKey_def
  EntryPointKey_def AuthPrincipalIDKey_def AuthSessionIDKey_def AuthDecisionIDKey_def
  IdempotencyKey_def RetryAttemptKey_def AuditReasonKey_def ChangeTicketKey_def

lemmas slot_accessors =
  GetTraceID_def WithTraceID_def GetParentTraceID_def WithParentTraceID_def GetSpanID_def
  WithSpanID_def GetRequestID_def WithRequestID_def GetSourceService_def WithSourceService_def
  GetEntryPoint_def WithEntryPoint_def GetAuthPrincipalID_def WithAuthPrincipalID_def
  GetAuthSessionID_def WithAuthSessionID_def GetAuthDecisionID_def WithAuthDecisionID_def
  GetIdempotencyKey_def WithIdempotencyKey_def GetRetryAttempt_def WithRetryAttempt_def
  GetAuditReason_def WithAuditReason_def GetChangeTicket_def WithChangeTicket_def

text \<open>Each slot lives under one key, has one type, and falls back to one value.\<close>

fun slot_key :: "slot \<Rightarrow> string" where
  "slot_key Slot_TraceID = TraceIDKey"
| "slot_key Slot_ParentTraceID = ParentTraceIDKey"
| "slot_key Slot_SpanID = SpanIDKey"
| "slot_key Slot_RequestID = RequestIDKey"
| "slot_key Slot_SourceService = SourceServiceKey"
| "slot_key Slot_EntryPoint = EntryPointKey"
| "slot_key Slot_AuthPrincipalID = AuthPrincipalIDKey"
| "slot_key Slot_AuthSessionID = AuthSessionIDKey"
| "slot_key Slot_AuthDecisionID = AuthDecisionIDKey"
| "slot_key Slot_IdempotencyKey = IdempotencyKey"
| "slot_key Slot_RetryAttempt = RetryAttemptKey"
| "slot_key Slot_AuditReason = AuditReasonKey"
| "slot_key Slot_ChangeTicket = ChangeTicketKey"

fun slot_default :: "slot \<Rightarrow> ctx_value" where
  "slot_default Slot_TraceID = VString ''untriaged''"
| "slot_default Slot_SourceService = VString ''unknown''"
| "slot_default Slot_EntryPoint = VString ''unknown''"
| "slot_default Slot_RetryAttempt = VInt 0"
| "slot_default _ = VString []"

definition slot_read :: "slot \<Rightarrow> ctx_value option \<Rightarrow> ctx_value" where
  "slot_read i x = (case x of Some v \<Rightarrow> if slot_typed i v then v else slot_default i | None \<Rightarrow> slot_default i)"

lemma slot_key_inj [simp]: "slot_key i = slot_key j \<longleftrightarrow> i = j"
  by (cases i; cases j) (simp_all add: contextx_keys)

lemma slot_typed_iff:
  "slot_typed i v \<longleftrightarrow> (if i = Slot_RetryAttempt then (\<exists>n. v = VInt n) else (\<exists>s. v = VString s))"
  by (cases i; cases v) simp_all

lemma getString_read:
  "VString (getString (Some c) k d) = (case Value c k of Some (VString s) \<Rightarrow> VString s | _ \<Rightarrow> VString d)"
  by (simp add: getString_def split: option.split ctx_value.split)

lemma getInt_read:
  "VInt (getInt (Some c) k d) = (case Value c k of Some (VInt n) \<Rightarrow> VInt n | _ \<Rightarrow> VInt d)"
  by (simp add: getInt_def split: option.split ctx_value.split)

lemma get_slot_Some: "get_slot i (Some c) = slot_read i (Value c (slot_key i))"
  by (cases i)
    (simp_all add: slot_accessors getString_read getInt_read slot_read_def split: option.split ctx_value.split)

lemma get_slot_nil: "get_slot i None = slot_default i"
  by (cases i) (simp_all add: slot_accessors getString_def getInt_def)

lemma put_slot_WithValue: "slot_typed j v \<Longrightarrow> put_slot j c v = WithValue c (slot_key j) v"
  by (cases j; cases v) (simp_all add: slot_accessors)

interpretation ctx: slot_store "\<lambda>i c. get_slot i (Some c)" put_slot slot_typed
  by unfold_locales (simp add: get_slot_Some put_slot_WithValue slot_read_def)

lemma put_slots_foldl: "put_slots ws c = foldl (\<lambda>c (j, v). put_slot j c v) c ws"
  by (induction ws arbitrary: c) auto

lemma foreign_put_slots: "foreign (put_slots ws c) = foreign c"
proof (induction ws arbitrary: c)
  case (Cons w ws)
  obtain j v where "w = (j, v)" by fastforce
  moreover have "foreign (put_slot j c v) = foreign c"
    by (cases j; cases v) (simp_all add: slot_accessors)
  ultimately show ?case using Cons by simp
qed simp

text \<open>What the components use of the accessors.\<close>

lemma principal_of_context [simp]:
  "Value (WithEntryPoint c v) AuthPrincipalIDKey = Value c AuthPrincipalIDKey"
  "Value (WithAuthPrincipalID c v) AuthPrincipalIDKey = Some (VString v)"
  "Value (WithAuthSessionID c v) AuthPrincipalIDKey = Value c AuthPrincipalIDKey"
  by (simp_all add: slot_accessors contextx_keys)

lemma trace_of_context [simp]:
  "GetTraceID (Some (WithTraceID c v)) = v" "GetRequestID (Some (WithRequestID c v)) = v"
  "GetTraceID (Some (WithRequestID c v)) = GetTraceID (Some c)"
  by (simp_all add: slot_accessors getString_def contextx_keys)

lemma foreign_setters [simp]:
  "foreign (WithTraceID c v) = foreign c" "foreign (WithRequestID c v) = foreign c"
  "foreign (WithEntryPoint c v) = foreign c" "foreign (WithAuthPrincipalID c v) = foreign c"
  "foreign (WithAuthSessionID c v) = foreign c"
  by (simp_all add: slot_accessors)

section \<open>Property\<close>

text \<open>
  C34. The slots of a context are independent: after any sequence of well-typed \<^verbatim>\<open>With...\<close> calls,
  each \<^verbatim>\<open>Get...\<close> returns the value of the last call for its slot, and what it returned before
  if there was none; the values of other packages are untouched, and without any value, also
  for a nil context, the getter's fallback is returned.
\<close>

theorem context_slots_independent:
  assumes "\<forall>(j, v) \<in> set ws. slot_typed j v"
  shows "get_slot i (Some (put_slots ws c)) =
      (case map_of (rev ws) i of Some v \<Rightarrow> v | None \<Rightarrow> get_slot i (Some c)) \<and>
    foreign (put_slots ws c) = foreign c \<and>
    get_slot i None = slot_default i \<and> get_slot i (Some Background) = slot_default i"
  using ctx.get_put_all [OF assms, of i c]
  by (simp add: put_slots_foldl [symmetric] foreign_put_slots get_slot_nil get_slot_Some slot_read_def)

theorem context_slots_independent_witness:
  "get_slot Slot_TraceID (Some (put_slots [(Slot_TraceID, VString ''a''), (Slot_RetryAttempt, VInt 3),
      (Slot_TraceID, VString ''b'')] (Background :: nat go_context))) = VString ''b''"
  using context_slots_independent [of "[(Slot_TraceID, VString ''a''), (Slot_RetryAttempt, VInt 3),
      (Slot_TraceID, VString ''b'')]" Slot_TraceID "Background :: nat go_context"] by auto

end
