(* ===== verification/Gate.thy ===== *)
theory Gate
  imports Prelude
begin

text \<open>
  The contract of a guarding middleware or interceptor.  A handler takes its arguments (the
  writer and the request, or the context and the message) and a state; the guard decides from
  these alone, and then either runs the next handler, exactly once and as its last action, or
  never runs it.
\<close>

type_synonym ('a, 's, 'r) serve = "'a \<Rightarrow> 's \<Rightarrow> 'r \<times> 's"

datatype ('a, 'r) decision = Pass 'a | Stop 'r

type_synonym ('a, 's, 'r) guard = "'a \<Rightarrow> 's \<Rightarrow> ('a, 'r) decision \<times> 's"

locale gate =
  fixes mw :: "('a, 's, 'r) serve \<Rightarrow> ('a, 's, 'r) serve"
    and decide :: "('a, 's, 'r) guard"
  assumes mw_decide: "mw next a s = (case decide a s of (Pass a', s') \<Rightarrow> next a' s' | (Stop r, s') \<Rightarrow> (r, s'))"
begin

lemma passes: "decide a s = (Pass a', s') \<Longrightarrow> mw next a s = next a' s'"
  by (simp add: mw_decide)

lemma stops: "decide a s = (Stop r, s') \<Longrightarrow> mw next a s = (r, s')"
  by (simp add: mw_decide)

text \<open>Whatever the next handler is, it is either run once on fixed arguments or not at all.\<close>

lemma once_or_never:
  "(\<exists>a' s'. decide a s = (Pass a', s') \<and> (\<forall>next. mw next a s = next a' s')) \<or>
   (\<exists>r s'. decide a s = (Stop r, s') \<and> (\<forall>next. mw next a s = (r, s')))"
  by (cases "decide a s"; cases "fst (decide a s)") (auto simp: mw_decide)

end

text \<open>Two guards in a row decide together.\<close>

definition then_decide :: "('a, 's, 'r) guard \<Rightarrow> ('a, 's, 'r) guard \<Rightarrow> ('a, 's, 'r) guard" where
  "then_decide d e a s = (case d a s of (Pass a', s') \<Rightarrow> e a' s' | (Stop r, s') \<Rightarrow> (Stop r, s'))"

locale two_gates = outer: gate mw d + inner: gate mw' d'
  for mw :: "('a, 's, 'r) serve \<Rightarrow> ('a, 's, 'r) serve" and d
    and mw' :: "('a, 's, 'r) serve \<Rightarrow> ('a, 's, 'r) serve" and d'
begin

lemma composed: "gate (\<lambda>next. mw (mw' next)) (then_decide d d')"
  by unfold_locales
    (auto simp: outer.mw_decide inner.mw_decide then_decide_def split: decision.splits prod.splits)

end

text \<open>
  Calls one after another.  Before each call everyone else changes the state by \<open>env\<close>; the call
  has its own handler, which may end in any way, and the middleware is in front of it.
\<close>

fun serve_all ::
  "(('a, 's, 'r) serve \<Rightarrow> ('a, 's, 'r) serve) \<Rightarrow> (('s \<Rightarrow> 's) \<times> ('a, 's, 'r) serve \<times> 'a) list \<Rightarrow> 's \<Rightarrow> 's" where
  "serve_all mw [] s = s"
| "serve_all mw ((env, handler, a) # calls) s = serve_all mw calls (snd (mw handler a (env s)))"

lemma then_decide_Pass:
  "then_decide d e a s = (Pass a', s') \<longleftrightarrow> (\<exists>b t. d a s = (Pass b, t) \<and> e b t = (Pass a', s'))"
  by (auto simp: then_decide_def split: prod.splits decision.splits)

end
