(* ===== verification/Http.thy ===== *)
theory Http
  imports Contextx Gate "HOL-Library.AList"
begin

text \<open>
  What the middlewares use of \<^verbatim>\<open>net/http\<close>: header maps with canonical keys, requests, the
  \<^verbatim>\<open>ResponseWriter\<close> interface as a record of functions, the server's own writer as an instance
  of it, \<^verbatim>\<open>http.Error\<close> and handlers.

  A handler runs on a world: the response of the connection, the log and the metrics written
  so far, a heap of the \<^verbatim>\<open>status\<close> fields that wrapped writers own, and the state \<open>'x\<close> of
  everything else (Redis, the key client, the application).  A panic is a value of \<open>go_result\<close>.
\<close>

section \<open>Headers\<close>

type_synonym header_map = "(string \<times> string list) list"

definition token_char :: "char \<Rightarrow> bool" where
  "token_char c \<longleftrightarrow>
     (let n = of_char c :: nat
      in (48 \<le> n \<and> n \<le> 57) \<or> (65 \<le> n \<and> n \<le> 90) \<or> (97 \<le> n \<and> n \<le> 122) \<or>
         n \<in> {33, 35, 36, 37, 38, 39, 42, 43, 45, 46, 94, 95, 96, 124, 126})"

text \<open>Upper case at the start and after a hyphen, lower case elsewhere.\<close>

primrec canonical_from :: "bool \<Rightarrow> string \<Rightarrow> string" where
  "canonical_from up [] = []"
| "canonical_from up (c # cs) = (if up then upper_char c else lower_char c) # canonical_from (c = CHR ''-'') cs"

definition CanonicalHeaderKey :: "string \<Rightarrow> string" where
  "CanonicalHeaderKey s = (if list_all token_char s then canonical_from True s else s)"

definition Header_Get :: "header_map \<Rightarrow> string \<Rightarrow> string" where
  "Header_Get h key = (case map_of h (CanonicalHeaderKey key) of Some (v # _) \<Rightarrow> v | _ \<Rightarrow> [])"

definition Header_Set :: "string \<Rightarrow> string \<Rightarrow> header_map \<Rightarrow> header_map" where
  "Header_Set key v h = AList.update (CanonicalHeaderKey key) [v] h"

definition Header_Del :: "string \<Rightarrow> header_map \<Rightarrow> header_map" where
  "Header_Del key h = AList.delete (CanonicalHeaderKey key) h"

section \<open>Requests\<close>

record 'b request =
  Method :: string
  URL_Path :: string
  Header :: header_map
  RemoteAddr :: string
  Context :: "'b go_context"

section \<open>Results and the world\<close>

datatype 'a go_result = Ok 'a | Panics string

record conn =
  hdr :: header_map
  sent :: "(int \<times> header_map) option"
  interim :: "int list"
  body :: string

datatype log_entry = LogEntry (log_msg: string) (log_attrs: "(string \<times> string) list")

record 'x world =
  conn :: conn
  heap :: "int list"
  logs :: "log_entry list"
  counters :: "(string \<times> string) list list"
  observations :: "((string \<times> string) list \<times> int) list"
  ext :: 'x

definition log_to :: "log_entry \<Rightarrow> 'x world \<Rightarrow> 'x world" where
  "log_to e s = s\<lparr>logs := logs s @ [e]\<rparr>"

text \<open>A call on the state of everything else.\<close>

definition call_ext :: "('x \<Rightarrow> 'a \<times> 'x) \<Rightarrow> 'x world \<Rightarrow> 'a \<times> 'x world" where
  "call_ext f s = (case f (ext s) of (a, x) \<Rightarrow> (a, s\<lparr>ext := x\<rparr>))"

section \<open>Response writers\<close>

text \<open>
  The interface: changing the header map, \<^verbatim>\<open>WriteHeader\<close>, and \<^verbatim>\<open>Write\<close> with its error.
\<close>

record 'w writer =
  UpdateHeader :: "(header_map \<Rightarrow> header_map) \<Rightarrow> 'w \<Rightarrow> 'w"
  WriteHeader :: "int \<Rightarrow> 'w \<Rightarrow> unit go_result \<times> 'w"
  WriteBody :: "string \<Rightarrow> 'w \<Rightarrow> go_error option go_result \<times> 'w"

text \<open>
  The writer of the \<^verbatim>\<open>net/http\<close> server.  A second \<^verbatim>\<open>WriteHeader\<close> is ignored, a code outside
  \<open>100..999\<close> panics, an informational code is sent at once and is not the response's status;
  the headers of the response are those at the time of the status.
\<close>

definition conn_WriteHeader :: "int \<Rightarrow> conn \<Rightarrow> unit go_result \<times> conn" where
  "conn_WriteHeader code c =
     (if sent c \<noteq> None then (Ok (), c)
      else if code < 100 \<or> 999 < code then (Panics (''invalid WriteHeader code '' @ itoa code), c)
      else if code \<le> 199 \<and> code \<noteq> 101 then (Ok (), c\<lparr>interim := interim c @ [code]\<rparr>)
      else (Ok (), c\<lparr>sent := Some (code, hdr c)\<rparr>))"

definition body_allowed :: "int \<Rightarrow> bool" where
  "body_allowed status \<longleftrightarrow> \<not> (100 \<le> status \<and> status \<le> 199) \<and> status \<noteq> 204 \<and> status \<noteq> 304"

definition conn_WriteBody :: "string \<Rightarrow> conn \<Rightarrow> go_error option \<times> conn" where
  "conn_WriteBody data c =
     (let c1 = (case sent c of None \<Rightarrow> c\<lparr>sent := Some (200, hdr c)\<rparr> | Some _ \<Rightarrow> c)
      in if data = [] then (None, c1)
         else if \<not> body_allowed (fst (the (sent c1)))
         then (Some (Sentinel ''http: request method or response status code does not allow body''), c1)
         else (None, c1\<lparr>body := body c1 @ data\<rparr>))"

definition server_writer :: "'x world writer" where
  "server_writer =
     \<lparr>UpdateHeader = (\<lambda>f s. s\<lparr>conn := (conn s)\<lparr>hdr := f (hdr (conn s))\<rparr>\<rparr>),
      WriteHeader = (\<lambda>code s. case conn_WriteHeader code (conn s) of (r, c) \<Rightarrow> (r, s\<lparr>conn := c\<rparr>)),
      WriteBody = (\<lambda>data s. case conn_WriteBody data (conn s) of (e, c) \<Rightarrow> (Ok e, s\<lparr>conn := c\<rparr>))\<rparr>"

definition new_conn :: conn where
  "new_conn = \<lparr>hdr = [], sent = None, interim = [], body = []\<rparr>"

text \<open>The world at the start of a request.\<close>

definition fresh_world :: "'x \<Rightarrow> 'x world" where
  "fresh_world x = \<lparr>conn = new_conn, heap = [], logs = [], counters = [], observations = [], ext = x\<rparr>"

text \<open>\<^verbatim>\<open>http.Error\<close>.\<close>

definition http_Error :: "'w writer \<Rightarrow> string \<Rightarrow> int \<Rightarrow> 'w \<Rightarrow> unit go_result \<times> 'w" where
  "http_Error w msg code s =
     (let s1 = UpdateHeader w (\<lambda>h. Header_Set ''X-Content-Type-Options'' ''nosniff''
                 (Header_Set ''Content-Type'' ''text/plain; charset=utf-8'' (Header_Del ''Content-Length'' h))) s
      in case WriteHeader w code s1 of
           (Panics p, s2) \<Rightarrow> (Panics p, s2)
         | (Ok _, s2) \<Rightarrow>
             (case WriteBody w (msg @ [CHR 0x0A]) s2 of
                (Panics p, s3) \<Rightarrow> (Panics p, s3)
              | (Ok _, s3) \<Rightarrow> (Ok (), s3)))"

section \<open>Handlers\<close>

type_synonym ('b, 'x) handler = "('x world writer \<times> 'b request, 'x world, unit go_result) serve"

type_synonym ('b, 'x) middleware = "('b, 'x) handler \<Rightarrow> ('b, 'x) handler"

section \<open>Handlers as sequences of writer calls\<close>

datatype action = SetHeader string string | SendStatus int | SendBody string

fun run_actions :: "'w writer \<Rightarrow> action list \<Rightarrow> 'w \<Rightarrow> unit go_result \<times> 'w" where
  "run_actions w [] s = (Ok (), s)"
| "run_actions w (SetHeader k v # acts) s = run_actions w acts (UpdateHeader w (Header_Set k v) s)"
| "run_actions w (SendStatus code # acts) s =
     (case WriteHeader w code s of (Panics p, s') \<Rightarrow> (Panics p, s') | (Ok _, s') \<Rightarrow> run_actions w acts s')"
| "run_actions w (SendBody d # acts) s =
     (case WriteBody w d s of (Panics p, s') \<Rightarrow> (Panics p, s') | (Ok _, s') \<Rightarrow> run_actions w acts s')"

section \<open>Facts\<close>

lemma server_writer_simps [simp]:
  "UpdateHeader server_writer f s = s\<lparr>conn := (conn s)\<lparr>hdr := f (hdr (conn s))\<rparr>\<rparr>"
  "WriteHeader server_writer code s = (case conn_WriteHeader code (conn s) of (r, c) \<Rightarrow> (r, s\<lparr>conn := c\<rparr>))"
  "WriteBody server_writer data s = (case conn_WriteBody data (conn s) of (e, c) \<Rightarrow> (Ok e, s\<lparr>conn := c\<rparr>))"
  by (simp_all add: server_writer_def)

lemma conn_WriteHeader_sent [simp]: "sent c = Some x \<Longrightarrow> conn_WriteHeader code c = (Ok (), c)"
  by (simp add: conn_WriteHeader_def)

lemma conn_WriteHeader_final [simp]:
  "sent c = None \<Longrightarrow> 200 \<le> code \<Longrightarrow> code \<le> 999 \<Longrightarrow>
   conn_WriteHeader code c = (Ok (), c\<lparr>sent := Some (code, hdr c)\<rparr>)"
  by (simp add: conn_WriteHeader_def)

text \<open>The status of a response, once sent, is never changed again.\<close>

lemma sent_is_final:
  "sent c = Some x \<Longrightarrow> sent (snd (conn_WriteHeader code c)) = Some x"
  "sent c = Some x \<Longrightarrow> sent (snd (conn_WriteBody d c)) = Some x"
  by (simp_all add: conn_WriteBody_def Let_def)

lemma case_chars [simp]:
  "lower_char (upper_char c) = lower_char c" "upper_char (lower_char c) = upper_char c"
  "upper_char (upper_char c) = upper_char c" "lower_char (lower_char c) = lower_char c"
  by (auto simp: lower_char_def upper_char_def Let_def)

lemma hyphen_char [simp]: "lower_char c = CHR ''-'' \<longleftrightarrow> c = CHR ''-''" "upper_char c = CHR ''-'' \<longleftrightarrow> c = CHR ''-''"
proof -
  have "(of_char (lower_char c) :: nat) = 45 \<longleftrightarrow> (of_char c :: nat) = 45"
    and "(of_char (upper_char c) :: nat) = 45 \<longleftrightarrow> (of_char c :: nat) = 45"
    by (auto simp: lower_char_def upper_char_def Let_def)
  moreover have "(of_char d :: nat) = 45 \<longleftrightarrow> d = CHR ''-''" for d :: char
    using of_char_eq_iff [of d "CHR ''-''", where ?'a = nat] by simp
  ultimately show "lower_char c = CHR ''-'' \<longleftrightarrow> c = CHR ''-''" "upper_char c = CHR ''-'' \<longleftrightarrow> c = CHR ''-''"
    by simp_all
qed

lemma token_char_case [simp]: "token_char (lower_char c) = token_char c" "token_char (upper_char c) = token_char c"
proof -
  have "(65 \<le> n \<and> n \<le> 90) \<Longrightarrow> token_char (char_of (n + 32)) \<and> token_char (char_of n)"
    for n :: nat by (simp add: token_char_def Let_def)
  moreover have "token_char (char_of (n - 32)) \<and> token_char (char_of n)" if "97 \<le> n" "n \<le> 122" for n :: nat
  proof -
    from that have "(n - 32) mod 256 = n - 32" "65 \<le> n - 32" "n - 32 \<le> 90" by simp_all
    with that show ?thesis by (simp add: token_char_def Let_def)
  qed
  note facts = calculation this
  from facts(1) [of "of_char c"] facts(2) [of "of_char c"] show "token_char (lower_char c) = token_char c" "token_char (upper_char c) = token_char c"
    by (auto simp: lower_char_def upper_char_def Let_def)
qed

text \<open>The canonical form depends on the lower-case form only, and is a normal form.\<close>

lemma canonical_from_lower: "canonical_from up (to_lower s) = canonical_from up s"
  by (induction s arbitrary: up) (auto simp: to_lower_def)

lemma to_lower_canonical: "to_lower (canonical_from up s) = to_lower s"
  by (induction s arbitrary: up) (auto simp: to_lower_def)

lemma token_to_lower: "list_all token_char (to_lower s) = list_all token_char s"
  by (simp add: to_lower_def list_all_iff)

lemma to_lower_Canonical [simp]: "to_lower (CanonicalHeaderKey s) = to_lower s"
  by (simp add: CanonicalHeaderKey_def to_lower_canonical)

lemma Canonical_idem [simp]: "CanonicalHeaderKey (CanonicalHeaderKey s) = CanonicalHeaderKey s"
  unfolding CanonicalHeaderKey_def
  by (metis canonical_from_lower to_lower_canonical token_to_lower)

lemma Canonical_cong:
  "to_lower s = to_lower t \<Longrightarrow> list_all token_char t \<Longrightarrow> CanonicalHeaderKey s = CanonicalHeaderKey t"
  unfolding CanonicalHeaderKey_def by (metis canonical_from_lower token_to_lower)

text \<open>What \<^verbatim>\<open>http.Error\<close> sends on a connection that has sent nothing.\<close>

definition error_conn :: "string \<Rightarrow> int \<Rightarrow> conn \<Rightarrow> conn" where
  "error_conn msg code c =
     (let h = Header_Set ''X-Content-Type-Options'' ''nosniff''
                (Header_Set ''Content-Type'' ''text/plain; charset=utf-8'' (Header_Del ''Content-Length'' (hdr c)))
      in c\<lparr>hdr := h, sent := Some (code, h), body := body c @ msg @ [CHR 0x0A]\<rparr>)"

lemma http_Error_server:
  assumes "sent (conn s) = None" and "400 \<le> code" and "code \<le> 999"
  shows "http_Error server_writer msg code s = (Ok (), s\<lparr>conn := error_conn msg code (conn s)\<rparr>)"
  using assms
  by (simp add: http_Error_def error_conn_def conn_WriteHeader_def conn_WriteBody_def Let_def body_allowed_def)

lemma ext_http_Error [simp]: "ext (snd (http_Error server_writer msg code s)) = ext s"
  by (simp add: http_Error_def Let_def split: prod.splits go_result.splits)

text \<open>Lookups in a changed header map, and the canonical forms of the names the middlewares use.\<close>

lemma Header_Get_Set: "Header_Get (Header_Set k v h) k' = (if CanonicalHeaderKey k = CanonicalHeaderKey k' then v else Header_Get h k')"
  by (simp add: Header_Get_def Header_Set_def update_conv')

lemma Header_Get_Del: "Header_Get (Header_Del k h) k' = (if CanonicalHeaderKey k = CanonicalHeaderKey k' then [] else Header_Get h k')"
  by (auto simp: Header_Get_def Header_Del_def delete_conv')

lemma canonical_names:
  "CanonicalHeaderKey ''Content-Length'' = ''Content-Length''"
  "CanonicalHeaderKey ''Content-Type'' = ''Content-Type''"
  "CanonicalHeaderKey ''X-Content-Type-Options'' = ''X-Content-Type-Options''"
  "CanonicalHeaderKey ''Retry-After'' = ''Retry-After''"
  "CanonicalHeaderKey ''X-RateLimit-Limit'' = ''X-Ratelimit-Limit''"
  "CanonicalHeaderKey ''X-RateLimit-Fallback'' = ''X-Ratelimit-Fallback''"
  "CanonicalHeaderKey ''Idempotency-Key'' = ''Idempotency-Key''"
  "CanonicalHeaderKey ''X-Frame-Options'' = ''X-Frame-Options''"
  "CanonicalHeaderKey ''X-XSS-Protection'' = ''X-Xss-Protection''"
  "CanonicalHeaderKey ''X-Trace-Id'' = ''X-Trace-Id''"
  "CanonicalHeaderKey ''X-Request-Id'' = ''X-Request-Id''"
  "CanonicalHeaderKey ''X-Forwarded-For'' = ''X-Forwarded-For''"
  "CanonicalHeaderKey ''X-Real-Ip'' = ''X-Real-Ip''"
  by (simp_all add: CanonicalHeaderKey_def token_char_def upper_char_def lower_char_def char_of_def bit_simps bit_0)

lemmas header_lookup = Header_Get_Set Header_Get_Del canonical_names

end
