(* ===== verification/Response.thy ===== *)
theory Response
  imports Http Json
begin

text \<open>
  \<^verbatim>\<open>http/response\<close>: the response envelope, the functions that write it, the error codes and
  \<^verbatim>\<open>MapStatus\<close>; and \<^verbatim>\<open>database/errors.go\<close>, whose \<^verbatim>\<open>MapError\<close> puts these codes in front of
  database errors.
\<close>

section \<open>Error codes\<close>

definition ErrSystem :: string where "ErrSystem = ''SYS_INTERNAL_ERROR''"
definition ErrBadRequest :: string where "ErrBadRequest = ''SYS_BAD_REQUEST''"
definition ErrServiceUnavail :: string where "ErrServiceUnavail = ''SYS_SERVICE_UNAVAILABLE''"
definition ErrGatewayTimeout :: string where "ErrGatewayTimeout = ''SYS_GATEWAY_TIMEOUT''"
definition ErrValidation :: string where "ErrValidation = ''VAL_INVALID_INPUT''"
definition ErrMissingField :: string where "ErrMissingField = ''VAL_MISSING_FIELD''"
definition ErrInvalidFormat :: string where "ErrInvalidFormat = ''VAL_INVALID_FORMAT''"
definition ErrMissingToken :: string where "ErrMissingToken = ''AUTH_MISSING_TOKEN''"
definition ErrInvalidToken_code :: string where "ErrInvalidToken_code = ''AUTH_INVALID_TOKEN''"
definition ErrForbidden :: string where "ErrForbidden = ''AUTH_FORBIDDEN''"
definition ErrAccountLocked :: string where "ErrAccountLocked = ''AUTH_ACCOUNT_LOCKED''"
definition ErrNotFound :: string where "ErrNotFound = ''RES_NOT_FOUND''"
definition ErrAlreadyExists :: string where "ErrAlreadyExists = ''RES_ALREADY_EXISTS''"
definition ErrConflict :: string where "ErrConflict = ''RES_CONFLICT''"
definition ErrVersionMismatch :: string where "ErrVersionMismatch = ''RES_VERSION_MISMATCH''"
definition ErrRuleViolation :: string where "ErrRuleViolation = ''BIZ_RULE_VIOLATION''"
definition ErrRateLimit :: string where "ErrRateLimit = ''BIZ_RATE_LIMIT_EXCEEDED''"

lemmas response_codes =
  ErrSystem_def ErrBadRequest_def ErrServiceUnavail_def ErrGatewayTimeout_def ErrValidation_def
  ErrMissingField_def ErrInvalidFormat_def ErrMissingToken_def ErrInvalidToken_code_def ErrForbidden_def
  ErrAccountLocked_def ErrNotFound_def ErrAlreadyExists_def ErrConflict_def ErrVersionMismatch_def
  ErrRuleViolation_def ErrRateLimit_def

definition MapStatus :: "string \<Rightarrow> int" where
  "MapStatus code =
     (if code \<in> {ErrBadRequest, ErrValidation, ErrMissingField, ErrInvalidFormat} then 400
      else if code \<in> {ErrMissingToken, ErrInvalidToken_code} then 401
      else if code \<in> {ErrForbidden, ErrAccountLocked} then 403
      else if code = ErrNotFound then 404
      else if code \<in> {ErrAlreadyExists, ErrConflict, ErrVersionMismatch} then 409
      else if code = ErrRateLimit then 429
      else if code = ErrRuleViolation then 422
      else if code \<in> {ErrServiceUnavail, ErrGatewayTimeout} then 503
      else 500)"

section \<open>Envelopes\<close>

record error_response =
  err_Code :: string
  err_Message :: string
  err_DocURL :: string
  err_RequestID :: string
  err_Details :: go_value

record envelope =
  env_Data :: go_value
  env_Meta :: go_value
  env_Error :: "error_response option"

record meta =
  meta_Page :: int
  meta_PageSize :: int
  meta_TotalItems :: int
  meta_HasNext :: bool
  meta_NextCursor :: string
  meta_TraceID :: string

text \<open>\<^verbatim>\<open>omitempty\<close> for integers, and the marshalling of the structs.\<close>

definition omit_int :: "string \<Rightarrow> int \<Rightarrow> (string \<times> json) list" where
  "omit_int k i = (if i = 0 then [] else [(k, JNum i)])"

definition marshal_meta :: "meta \<Rightarrow> json" where
  "marshal_meta m = JObj (omit_int ''page'' (meta_Page m) @ omit_int ''page_size'' (meta_PageSize m) @
     omit_int ''total_items'' (meta_TotalItems m) @ (if meta_HasNext m then [(''has_next'', JBool True)] else []) @
     omit_string ''next_cursor'' (meta_NextCursor m) @ omit_string ''trace_id'' (meta_TraceID m))"

definition marshal_error :: "error_response \<Rightarrow> go_error + json" where
  "marshal_error e =
     (case omit_value ''details'' (err_Details e) of
        Inl er \<Rightarrow> Inl er
      | Inr ds \<Rightarrow> Inr (JObj ([(''code'', JStr (err_Code e)), (''message'', JStr (err_Message e))] @
                   omit_string ''doc_url'' (err_DocURL e) @ omit_string ''request_id'' (err_RequestID e) @ ds)))"

definition marshal_envelope :: "envelope \<Rightarrow> go_error + json" where
  "marshal_envelope env =
     (case omit_value ''data'' (env_Data env) of
        Inl er \<Rightarrow> Inl er
      | Inr ds \<Rightarrow>
          (case omit_value ''meta'' (env_Meta env) of
             Inl er \<Rightarrow> Inl er
           | Inr ms \<Rightarrow>
               (case env_Error env of
                  None \<Rightarrow> Inr (JObj (ds @ ms))
                | Some e \<Rightarrow> (case marshal_error e of
                              Inl er \<Rightarrow> Inl er
                            | Inr j \<Rightarrow> Inr (JObj (ds @ ms @ [(''error'', j)]))))))"

section \<open>Writing\<close>

definition write_failed :: "int \<Rightarrow> go_error \<Rightarrow> log_entry" where
  "write_failed status err =
     LogEntry ''http_response_write_failed'' [(''status'', itoa status), (''error'', err_text err)]"

definition write_envelope ::
  "'x world writer \<Rightarrow> int \<Rightarrow> envelope \<Rightarrow> 'x world \<Rightarrow> unit go_result \<times> 'x world" where
  "write_envelope w status payload s =
     (let s1 = UpdateHeader w (Header_Set ''Content-Type'' ''application/json'') s
      in case WriteHeader w status s1 of
           (Panics p, s2) \<Rightarrow> (Panics p, s2)
         | (Ok _, s2) \<Rightarrow>
             (case marshal_envelope payload of
                Inl err \<Rightarrow> (Ok (), log_to (write_failed status err) s2)
              | Inr j \<Rightarrow>
                  (case WriteBody w (render j @ [CHR 0x0A]) s2 of
                     (Panics p, s3) \<Rightarrow> (Panics p, s3)
                   | (Ok None, s3) \<Rightarrow> (Ok (), s3)
                   | (Ok (Some err), s3) \<Rightarrow> (Ok (), log_to (write_failed status err) s3))))"

definition JSON ::
  "'x world writer \<Rightarrow> int \<Rightarrow> go_value \<Rightarrow> 'x world \<Rightarrow> unit go_result \<times> 'x world" where
  "JSON w status data s =
     write_envelope w status
       \<lparr>env_Data = (if data = NilValue \<and> status \<noteq> 204 then JsonValue (JObj []) else data),
        env_Meta = NilValue, env_Error = None\<rparr> s"

definition JSONWithMeta ::
  "'x world writer \<Rightarrow> int \<Rightarrow> go_value \<Rightarrow> go_value \<Rightarrow> 'x world \<Rightarrow> unit go_result \<times> 'x world" where
  "JSONWithMeta w status data meta s =
     write_envelope w status \<lparr>env_Data = data, env_Meta = meta, env_Error = None\<rparr> s"

definition ErrorJSONWithDetails ::
  "'x world writer \<Rightarrow> 'b request \<Rightarrow> int \<Rightarrow> string \<Rightarrow> string \<Rightarrow> go_value \<Rightarrow> 'x world \<Rightarrow> unit go_result \<times> 'x world" where
  "ErrorJSONWithDetails w r status code message details s =
     (let reqID = GetRequestID (Some (Context r))
      in write_envelope w status
           \<lparr>env_Data = NilValue, env_Meta = NilValue,
            env_Error = Some \<lparr>err_Code = code, err_Message = message, err_DocURL = [],
                              err_RequestID = reqID, err_Details = details\<rparr>\<rparr> s)"

definition ErrorJSON ::
  "'x world writer \<Rightarrow> 'b request \<Rightarrow> int \<Rightarrow> string \<Rightarrow> string \<Rightarrow> 'x world \<Rightarrow> unit go_result \<times> 'x world" where
  "ErrorJSON w r status code message s = ErrorJSONWithDetails w r status code message NilValue s"

section \<open>Database errors\<close>

definition pgx_ErrNoRows :: string where
  "pgx_ErrNoRows = ''no rows in result set''"

text \<open>\<^verbatim>\<open>errors.As\<close> for \<^verbatim>\<open>*pgconn.PgError\<close>: code, detail and message of the first one in the chain.\<close>

primrec as_pg :: "go_error \<Rightarrow> (string \<times> string \<times> string) option" where
  "as_pg (Sentinel s) = None"
| "as_pg (ErrorString s) = None"
| "as_pg (Wrapped pre e post) = as_pg e"
| "as_pg (PgError code detail message text) = Some (code, detail, message)"

definition IsNoRows :: "go_error \<Rightarrow> bool" where
  "IsNoRows err \<longleftrightarrow> errors_is err pgx_ErrNoRows"

definition MapError :: "go_error option \<Rightarrow> go_error option" where
  "MapError err =
     (case err of
        None \<Rightarrow> None
      | Some e \<Rightarrow>
          if errors_is e pgx_ErrNoRows then Some (wrap_prefix (ErrNotFound @ '': '') e)
          else (case as_pg e of
                  Some (code, detail, message) \<Rightarrow>
                    if code = ''23505'' then Some (ErrorString (ErrAlreadyExists @ '': '' @ detail))
                    else if code = ''23503'' then Some (ErrorString (ErrConflict @ '': referenced record not found''))
                    else if code = ''23514'' then Some (ErrorString (ErrValidation @ '': '' @ message))
                    else if code = ''40001'' then Some (ErrorString (ErrVersionMismatch @ '': retry transaction''))
                    else if code = ''57014'' then Some (ErrorString (ErrGatewayTimeout @ '': query timeout''))
                    else Some (wrap_prefix (ErrSystem @ '': '') e)
                | None \<Rightarrow> Some (wrap_prefix (ErrSystem @ '': '') e)))"

text \<open>The code a mapped error carries in front of its first colon.\<close>

definition error_code :: "go_error \<Rightarrow> string" where
  "error_code e = hd (split_on (CHR '':'') (err_text e))"

text \<open>The status each database failure is meant to have.\<close>

definition db_status :: "go_error \<Rightarrow> int" where
  "db_status e =
     (if IsNoRows e then 404
      else (case as_pg e of
              Some (code, _, _) \<Rightarrow>
                if code = ''23505'' \<or> code = ''23503'' \<or> code = ''40001'' then 409
                else if code = ''23514'' then 400 else if code = ''57014'' then 503 else 500
            | None \<Rightarrow> 500))"

section \<open>Facts\<close>

definition db_code :: "go_error \<Rightarrow> string" where
  "db_code e =
     (if IsNoRows e then ErrNotFound
      else (case as_pg e of
              Some (code, _, _) \<Rightarrow>
                if code = ''23505'' then ErrAlreadyExists else if code = ''23503'' then ErrConflict
                else if code = ''23514'' then ErrValidation else if code = ''40001'' then ErrVersionMismatch
                else if code = ''57014'' then ErrGatewayTimeout else ErrSystem
            | None \<Rightarrow> ErrSystem))"

lemma db_code_status: "MapStatus (db_code e) = db_status e"
  by (simp add: db_code_def db_status_def MapStatus_def response_codes split: option.split)

lemma MapError_code: "error_code (the (MapError (Some e))) = db_code e"
  by (simp add: MapError_def db_code_def IsNoRows_def wrap_prefix_def error_code_def response_codes split: option.split)

text \<open>The response of \<^verbatim>\<open>write\<close> on a connection that has sent nothing and may have a body.\<close>

definition json_conn :: "int \<Rightarrow> json \<Rightarrow> conn \<Rightarrow> conn" where
  "json_conn status j c =
     (let h = Header_Set ''Content-Type'' ''application/json'' (hdr c)
      in c\<lparr>hdr := h, sent := Some (status, h), body := body c @ render j @ [CHR 0x0A]\<rparr>)"

lemma write_server:
  assumes "sent (conn s) = None" and "200 \<le> status" and "status \<le> 999" and "body_allowed status"
    and "marshal_envelope env = Inr j"
  shows "write_envelope server_writer status env s = (Ok (), s\<lparr>conn := json_conn status j (conn s)\<rparr>)"
  using assms by (simp add: write_envelope_def json_conn_def conn_WriteBody_def Let_def)

text \<open>After a status has been sent, \<^verbatim>\<open>write\<close> can only add to the body.\<close>

lemma write_started:
  assumes "sent (conn s) = Some (code, h)" and "body_allowed code" and "marshal_envelope env = Inr j"
  shows "write_envelope server_writer status env s =
    (Ok (), s\<lparr>conn := (conn s)\<lparr>hdr := Header_Set ''Content-Type'' ''application/json'' (hdr (conn s)),
       body := body (conn s) @ render j @ [CHR 0x0A]\<rparr>\<rparr>)"
  using assms by (simp add: write_envelope_def conn_WriteBody_def Let_def)

definition error_json :: "string \<Rightarrow> string \<Rightarrow> string \<Rightarrow> json" where
  "error_json code message reqID = JObj [(''error'',
     JObj ([(''code'', JStr code), (''message'', JStr message)] @ omit_string ''request_id'' reqID))]"

lemma marshal_error_envelope:
  "marshal_envelope \<lparr>env_Data = NilValue, env_Meta = NilValue, env_Error = Some \<lparr>err_Code = code,
     err_Message = message, err_DocURL = [], err_RequestID = reqID, err_Details = NilValue\<rparr>\<rparr> =
   Inr (error_json code message reqID)"
  by (simp add: marshal_envelope_def marshal_error_def omit_value_def omit_string_def error_json_def)

lemma JSON_no_content:
  assumes "sent (conn s) = None"
  shows "body (conn (snd (JSON server_writer 204 NilValue s))) = body (conn s)"
    and "\<exists>err. logs (snd (JSON server_writer 204 NilValue s)) = logs s @ [write_failed 204 err]"
  using assms
  by (auto simp: JSON_def write_envelope_def marshal_envelope_def omit_value_def conn_WriteBody_def Let_def
      body_allowed_def log_to_def)

section \<open>Properties\<close>

text \<open>
  C33. \<^verbatim>\<open>MapError\<close> and \<^verbatim>\<open>MapStatus\<close> agree on every error: the code in front of a mapped error gives
  the status its kind of database failure is meant to have (no rows 404, unique or foreign key
  or serialization 409, check 400, cancelled query 503, everything else 500); nil stays nil,
  an error never becomes nil, and \<^verbatim>\<open>IsNoRows\<close> still recognises it.
\<close>

theorem MapError_MapStatus:
  "MapError None = None \<and>
   (\<exists>e'. MapError (Some e) = Some e' \<and> MapStatus (error_code e') = db_status e \<and> (IsNoRows e' \<longleftrightarrow> IsNoRows e))"
proof -
  have "MapError (Some e) = Some (the (MapError (Some e)))"
    and "IsNoRows (the (MapError (Some e))) \<longleftrightarrow> IsNoRows e"
    by (auto simp: MapError_def IsNoRows_def wrap_prefix_def split: option.split)
  moreover have "MapStatus (error_code (the (MapError (Some e)))) = db_status e"
    by (simp add: MapError_code db_code_status)
  moreover have "MapError None = None" by (simp add: MapError_def)
  ultimately show ?thesis by blast
qed

text \<open>
  \<^verbatim>\<open>JSON\<close> on a fresh response: with a status that allows a body the client gets that status,
  the JSON content type and exactly the envelope with the data, or with an empty object when
  the data is nil; with status 204 the client gets no body, but the attempt to write one is
  logged as a failure every time.
\<close>

lemma JSON_fresh_response:
  assumes "sent (conn s) = None" and "200 \<le> status" and "status \<le> 999"
  shows "(body_allowed status \<and> data \<in> {NilValue, JsonValue j} \<longrightarrow>
      JSON server_writer status data s =
        (Ok (), s\<lparr>conn := json_conn status (JObj [(''data'', if data = NilValue then JObj [] else j)]) (conn s)\<rparr>)) \<and>
    body (conn (snd (JSON server_writer 204 NilValue s))) = body (conn s) \<and>
    (\<exists>err. logs (snd (JSON server_writer 204 NilValue s)) = logs s @ [write_failed 204 err])"
proof (intro conjI impI)
  assume "body_allowed status \<and> data \<in> {NilValue, JsonValue j}"
  moreover from this have "status \<noteq> 204" by (auto simp: body_allowed_def)
  ultimately show "JSON server_writer status data s =
      (Ok (), s\<lparr>conn := json_conn status (JObj [(''data'', if data = NilValue then JObj [] else j)]) (conn s)\<rparr>)"
    unfolding JSON_def using assms
    by (intro write_server) (auto simp: marshal_envelope_def omit_value_def)
qed (use assms JSON_no_content in auto)

text \<open>The body of \<^verbatim>\<open>write\<close> on a fresh response reads back as the envelope.\<close>

lemma write_reads_back:
  assumes "sent (conn s) = None" and "body (conn s) = []" and "200 \<le> status" and "status \<le> 999"
    and "body_allowed status" and "marshal_envelope env = Inr j"
  shows "\<exists>h s'. write_envelope server_writer status env s = (Ok (), s') \<and> sent (conn s') = Some (status, h) \<and>
    Header_Get h ''Content-Type'' = ''application/json'' \<and> read_json (body (conn s')) = Some (valid_json j)"
  using write_server [OF assms(1,3-6)] assms(2)
  by (auto simp: json_conn_def Let_def read_json_render header_lookup)

lemma valid_utf8_eq_Nil [simp]: "valid_utf8 s = [] \<longleftrightarrow> s = []"
  by (cases s) (auto split: option.splits)

lemma valid_utf8_ascii: "list_all (\<lambda>c. byte c < 128) s \<Longrightarrow> valid_utf8 s = s"
  by (induction s) auto

text \<open>
  C18. An error response always reads back: whatever bytes the code, the message and the request
  identifier (which the client may choose) are made of, the body written by
  \<^verbatim>\<open>ErrorJSONWithDetails\<close> on a fresh response is one JSON text whose reading is the error envelope
  with exactly these fields, bytes that are not valid UTF-8 being replaced; the status and the
  content type are as asked for.
\<close>

theorem error_response_reads_back:
  assumes "sent (conn s) = None" and "body (conn s) = []" and "200 \<le> status" and "status \<le> 999"
    and "body_allowed status" and "details = NilValue \<and> ds = [] \<or> details = JsonValue d \<and> ds = [(''details'', d)]"
  shows "\<exists>h s'. ErrorJSONWithDetails server_writer r status code message details s = (Ok (), s') \<and>
    sent (conn s') = Some (status, h) \<and> Header_Get h ''Content-Type'' = ''application/json'' \<and>
    read_json (body (conn s')) = Some (JObj [(''error'', JObj (
      [(''code'', JStr (valid_utf8 code)), (''message'', JStr (valid_utf8 message))] @
      omit_string ''request_id'' (valid_utf8 (GetRequestID (Some (Context r)))) @
      map (\<lambda>(k, v). (k, valid_json v)) ds))])"
proof -
  let ?id = "GetRequestID (Some (Context r))"
  let ?env = "\<lparr>env_Data = NilValue, env_Meta = NilValue, env_Error = Some \<lparr>err_Code = code,
     err_Message = message, err_DocURL = [], err_RequestID = ?id, err_Details = details\<rparr>\<rparr>"
  let ?fields = "[(''code'', JStr code), (''message'', JStr message)] @ omit_string ''request_id'' ?id @ ds"
  have "marshal_envelope ?env = Inr (JObj [(''error'', JObj ?fields)])"
    using assms(6) by (auto simp: marshal_envelope_def marshal_error_def omit_value_def omit_string_def)
  from write_reads_back [OF assms(1-5) this] show ?thesis
    using assms(6) by (auto simp: ErrorJSONWithDetails_def omit_string_def valid_utf8_ascii)
qed

text \<open>A request whose identifier tries to close the string and add a member.\<close>

definition hostile_request :: "unit request" where
  "hostile_request = \<lparr>Method = ''GET'', URL_Path = ''/'', Header = [], RemoteAddr = [],
     Context = WithRequestID Background (CHR 0x22 # '','' @ [CHR 0x22] @ ''admin'' @ [CHR 0x22] @ '':1'')\<rparr>"

theorem error_response_reads_back_witness:
  "\<exists>s' h. ErrorJSONWithDetails server_writer hostile_request 400 ErrValidation ''bad'' NilValue (fresh_world ()) = (Ok (), s') \<and>
     sent (conn s') = Some (400, h) \<and>
     read_json (body (conn s')) = Some (JObj [(''error'', JObj [(''code'', JStr ErrValidation), (''message'', JStr ''bad''),
       (''request_id'', JStr (CHR 0x22 # '','' @ [CHR 0x22] @ ''admin'' @ [CHR 0x22] @ '':1''))])])"
  using error_response_reads_back [of "fresh_world ()" 400 NilValue "[]" JNull hostile_request ErrValidation "''bad''"]
  by (auto simp: fresh_world_def new_conn_def body_allowed_def hostile_request_def omit_string_def valid_utf8_ascii
      ErrValidation_def)

end
