(* ===== verification/Grpc.thy ===== *)
theory Grpc
  imports Http
begin

text \<open>
  Unary gRPC calls as the interceptors see them: a handler takes a context and a message and
  returns a reply and an error, or panics.  The accessors of the gRPC library read the foreign
  layers of a context: the incoming metadata and the peer address.
\<close>

datatype code = Unauthenticated | ResourceExhausted | Internal

datatype grpc_error = Status code string | HandlerError go_error

text \<open>\<open>reply\<close> is nil or a message, \<open>failure\<close> the error.\<close>

record 'r grpc_result =
  reply :: "'r option"
  failure :: "grpc_error option"

definition grpc_fail :: "code \<Rightarrow> string \<Rightarrow> 'r grpc_result" where
  "grpc_fail c msg = \<lparr>reply = None, failure = Some (Status c msg)\<rparr>"

type_synonym ('b, 'q, 'r, 'x) unary =
  "('b go_context \<times> 'q, 'x world, 'r grpc_result go_result) serve"

type_synonym metadata = "(string \<times> string list) list"

record 'b grpc_lib =
  FromIncomingContext :: "'b list \<Rightarrow> metadata option"
  peer_FromContext :: "'b list \<Rightarrow> string option"

end
