(* ===== verification/Observe.thy ===== *)
theory Observe
  imports Response Grpc
begin

text \<open>
  The middlewares that observe or protect every request: \<^verbatim>\<open>base.go\<close> (security headers, request
  log with its status-capturing writer), \<^verbatim>\<open>metrics.go\<close>, \<^verbatim>\<open>recovery.go\<close>, \<^verbatim>\<open>grpc_recovery.go\<close> and
  \<^verbatim>\<open>trace.go\<close> under \<^verbatim>\<open>server/middleware\<close>.  The writer of chi, its route context, otelchi, the metrics, the tracing and the
  uuid library and the clock are parameters.
\<close>

section \<open>Security headers\<close>

definition SecurityHeaders :: "('b, 'x) middleware" where
  "SecurityHeaders next = (\<lambda>(w, r) s.
     let s1 = UpdateHeader w (Header_Set ''X-Content-Type-Options'' ''nosniff'') s;
         s2 = UpdateHeader w (Header_Set ''X-Frame-Options'' ''DENY'') s1;
         s3 = UpdateHeader w (Header_Set ''X-XSS-Protection'' ''1; mode=block'') s2
     in next (w, r) s3)"

section \<open>Tracing of requests\<close>

text \<open>
  \<open>otelchi_Middleware\<close> is the middleware of otelchi for a service name and its options, of which the
  code uses \<^verbatim>\<open>WithChiRoutes\<close>, here with the patterns of the routes, of which it passes none.
\<close>

datatype otelchi_option = WithChiRoutes "string list option"

definition OTelMiddleware ::
  "(string \<Rightarrow> otelchi_option list \<Rightarrow> ('b, 'x) middleware) \<Rightarrow> string \<Rightarrow> ('b, 'x) middleware" where
  "OTelMiddleware otelchi_Middleware serviceName = otelchi_Middleware serviceName [WithChiRoutes None]"

section \<open>Request log\<close>

text \<open>\<^verbatim>\<open>Duration.Milliseconds\<close>, which truncates toward zero.\<close>

definition milliseconds :: "duration \<Rightarrow> int" where
  "milliseconds d = sgn d * (\<bar>d\<bar> div millisecond)"

text \<open>
  \<^verbatim>\<open>responseWriter\<close>: the writer it embeds, with \<^verbatim>\<open>WriteHeader\<close> overridden; its \<^verbatim>\<open>status\<close> field is the
  cell \<open>a\<close> of the heap.
\<close>

definition responseWriter :: "nat \<Rightarrow> 'x world writer \<Rightarrow> 'x world writer" where
  "responseWriter a w = w\<lparr>WriteHeader := (\<lambda>code s. WriteHeader w code (s\<lparr>heap := (heap s)[a := code]\<rparr>))\<rparr>"

definition http_request_entry :: "'b request \<Rightarrow> int \<Rightarrow> duration \<Rightarrow> log_entry" where
  "http_request_entry r status d = LogEntry ''http_request''
     [(''method'', Method r), (''path'', URL_Path r), (''status'', itoa status),
      (''duration_ms'', itoa (milliseconds d)), (''remote_ip'', RemoteAddr r)]"

definition LoggerMiddleware :: "('x world \<Rightarrow> int) \<Rightarrow> ('b, 'x) middleware" where
  "LoggerMiddleware now next = (\<lambda>(w, r) s.
     let start = now s;
         a = length (heap s)
     in case next (responseWriter a w, r) (s\<lparr>heap := heap s @ [200]\<rparr>) of
          (Panics p, s1) \<Rightarrow> (Panics p, s1)
        | (Ok _, s1) \<Rightarrow> (Ok (), log_to (http_request_entry r (heap s1 ! a) (now s1 - start)) s1))"

section \<open>Metrics\<close>

text \<open>
  \<open>NewWrapResponseWriter\<close> is chi's wrapper: the new writer, its \<^verbatim>\<open>Status()\<close> and the state with it.
  \<open>RoutePattern\<close> is the pattern of the request's route context, which the router fills in while
  the request runs, \<^term>\<open>None\<close> without a route context.
\<close>

record ('b, 'x) chi_lib =
  NewWrapResponseWriter :: "'x world writer \<Rightarrow> 'x world \<Rightarrow> 'x world writer \<times> ('x world \<Rightarrow> int) \<times> 'x world"
  RoutePattern :: "'b list \<Rightarrow> 'x world \<Rightarrow> string option"

definition path_label :: "string option \<Rightarrow> int \<Rightarrow> string" where
  "path_label pattern status =
     (case pattern of
        Some p \<Rightarrow> if p \<noteq> [] then p else if status = 404 then ''not_found'' else ''unmatched_route''
      | None \<Rightarrow> if status = 404 then ''not_found'' else ''unmatched_route'')"

text \<open>
  The two metric vectors, without the buckets of the histogram.  The client library's \<^verbatim>\<open>WithLabelValues\<close>, a
  parameter, gives the metric of some label values or panics; what it documents is that it does not
  panic when their number is that of the labels and they are valid UTF-8.  The world holds the
  labels of every count and observation.
\<close>

record metric_vec =
  vec_Name :: string
  vec_Help :: string
  vec_labels :: "string list"

definition httpRequestsTotal :: metric_vec where
  "httpRequestsTotal = \<lparr>vec_Name = ''http_requests_total'',
     vec_Help = ''Total number of HTTP requests processed, labeled by status, method, and path.'',
     vec_labels = [''status'', ''method'', ''path'']\<rparr>"

definition httpRequestDuration :: metric_vec where
  "httpRequestDuration = \<lparr>vec_Name = ''http_request_duration_seconds'', vec_Help = ''Duration of HTTP requests in seconds.'',
     vec_labels = [''status'', ''method'', ''path'']\<rparr>"

type_synonym with_label_values = "metric_vec \<Rightarrow> string list \<Rightarrow> (string \<times> string) list go_result"

definition label_contract :: "with_label_values \<Rightarrow> bool" where
  "label_contract WithLabelValues \<longleftrightarrow>
     (\<forall>vec vals. length vals = length (vec_labels vec) \<and> list_all (\<lambda>v. valid_utf8 v = v) vals \<longrightarrow>
        WithLabelValues vec vals = Ok (zip (vec_labels vec) vals))"

definition MetricsMiddleware :: "('b, 'x) chi_lib \<Rightarrow> with_label_values \<Rightarrow> ('x world \<Rightarrow> int) \<Rightarrow> ('b, 'x) middleware" where
  "MetricsMiddleware chi WithLabelValues now next = (\<lambda>(w, r) s.
     let start = now s
     in case NewWrapResponseWriter chi w s of
          (ww, statusOf, s0) \<Rightarrow>
            (case next (ww, r) s0 of
               (Panics p, s1) \<Rightarrow> (Panics p, s1)
             | (Ok _, s1) \<Rightarrow>
                 let duration = now s1 - start;
                     status = itoa (statusOf s1);
                     path = path_label (RoutePattern chi (foreign (Context r)) s1) (statusOf s1)
                 in (case WithLabelValues httpRequestsTotal [status, Method r, path] of
                       Panics p \<Rightarrow> (Panics p, s1)
                     | Ok counter \<Rightarrow>
                         let s2 = s1\<lparr>counters := counters s1 @ [counter]\<rparr>
                         in (case WithLabelValues httpRequestDuration [status, Method r, path] of
                               Panics p \<Rightarrow> (Panics p, s2)
                             | Ok histogram \<Rightarrow> (Ok (), s2\<lparr>observations := observations s2 @ [(histogram, duration)]\<rparr>)))))"

section \<open>Recovery\<close>

text \<open>\<open>stack\<close> is the text of \<^verbatim>\<open>debug.Stack()\<close>.\<close>

definition panic_entry :: "string \<Rightarrow> string \<Rightarrow> 'b request \<Rightarrow> log_entry" where
  "panic_entry stack p r = LogEntry ''HTTP PANIC RECOVERED''
     [(''error'', p), (''method'', Method r), (''path'', URL_Path r), (''stack'', stack)]"

definition PanicRecovery :: "string \<Rightarrow> ('b, 'x) middleware" where
  "PanicRecovery stack next = (\<lambda>(w, r) s.
     case next (w, r) s of
       (Ok u, s1) \<Rightarrow> (Ok u, s1)
     | (Panics p, s1) \<Rightarrow>
         ErrorJSON w r 500 ''INTERNAL_SERVER_ERROR'' ''An unexpected error occurred''
           (log_to (panic_entry stack p r) s1))"

definition grpc_panic_entry :: "string \<Rightarrow> string \<Rightarrow> string \<Rightarrow> log_entry" where
  "grpc_panic_entry stack p fullMethod = LogEntry ''GRPC PANIC RECOVERED''
     [(''error'', p), (''method'', fullMethod), (''stack'', stack)]"

definition GRPCRecoveryInterceptor ::
  "string \<Rightarrow> string \<Rightarrow> ('b, 'q, 'r, 'x) unary \<Rightarrow> ('b, 'q, 'r, 'x) unary" where
  "GRPCRecoveryInterceptor stack fullMethod handler = (\<lambda>(ctx, req) s.
     case handler (ctx, req) s of
       (Ok res, s1) \<Rightarrow> (Ok res, s1)
     | (Panics p, s1) \<Rightarrow>
         (Ok (grpc_fail Internal ''internal server error''), log_to (grpc_panic_entry stack p fullMethod) s1))"

section \<open>Trace identifiers\<close>

definition TraceHeader :: string where "TraceHeader = ''X-Trace-Id''"
definition RequestHeader :: string where "RequestHeader = ''X-Request-Id''"

text \<open>
  \<open>SpanTraceID\<close> is the trace identifier of the active span if its context is valid; \<open>uuid_New\<close>
  gives the bytes of a new uuid and \<open>uuid_NewString\<close> the text of one.
\<close>

record ('b, 'x) trace_lib =
  SpanTraceID :: "'b list \<Rightarrow> string option"
  uuid_New :: "'x \<Rightarrow> string \<times> 'x"
  uuid_NewString :: "'x \<Rightarrow> string \<times> 'x"

definition hex_EncodeToString :: "string \<Rightarrow> string" where
  "hex_EncodeToString bs = concat (map (\<lambda>b. [hex_digit (of_char b div 16), hex_digit (of_char b mod 16)]) bs)"

text \<open>The first of the candidates that is not empty, else a new identifier.\<close>

definition choose_trace_id :: "('b, 'x) trace_lib \<Rightarrow> 'b request \<Rightarrow> 'x world \<Rightarrow> string \<times> 'x world" where
  "choose_trace_id lib r s =
     (let fromSpan = (case SpanTraceID lib (foreign (Context r)) of Some t \<Rightarrow> t | None \<Rightarrow> []);
          traceID = (if fromSpan = [] then Header_Get (Header r) TraceHeader else fromSpan)
      in if traceID = []
         then (case call_ext (uuid_New lib) s of (uid, s1) \<Rightarrow> (hex_EncodeToString uid, s1))
         else (traceID, s))"

definition choose_request_id :: "('b, 'x) trace_lib \<Rightarrow> 'b request \<Rightarrow> 'x world \<Rightarrow> string \<times> 'x world" where
  "choose_request_id lib r s =
     (let reqID = Header_Get (Header r) RequestHeader
      in if reqID = [] then call_ext (uuid_NewString lib) s else (reqID, s))"

definition TraceIDMiddleware :: "('b, 'x) trace_lib \<Rightarrow> ('b, 'x) middleware" where
  "TraceIDMiddleware lib next = (\<lambda>(w, r) s.
     case choose_trace_id lib r s of
       (traceID, s1) \<Rightarrow>
         (case choose_request_id lib r s1 of
            (reqID, s2) \<Rightarrow>
              let s3 = UpdateHeader w (Header_Set TraceHeader traceID) s2;
                  s4 = UpdateHeader w (Header_Set RequestHeader reqID) s3;
                  ctx = WithRequestID (WithTraceID (Context r) traceID) reqID
              in next (w, r\<lparr>Context := ctx\<rparr>) s4))"

text \<open>\<^verbatim>\<open>md.Get\<close> on a lower-case key.\<close>

definition md_Get :: "metadata \<Rightarrow> string \<Rightarrow> string list" where
  "md_Get md key = (case map_of md key of Some vs \<Rightarrow> vs | None \<Rightarrow> [])"

definition GRPCTraceInterceptor ::
  "'b grpc_lib \<Rightarrow> ('b, 'x) trace_lib \<Rightarrow> ('b, 'q, 'r, 'x) unary \<Rightarrow> ('b, 'q, 'r, 'x) unary" where
  "GRPCTraceInterceptor grpc lib handler = (\<lambda>(ctx0, req) s.
     case (case SpanTraceID lib (foreign ctx0) of
             Some traceID \<Rightarrow> (WithTraceID ctx0 traceID, s)
           | None \<Rightarrow> (case call_ext (uuid_New lib) s of
                        (uid, s1) \<Rightarrow> (WithTraceID ctx0 (hex_EncodeToString uid), s1))) of
       (ctx1, s1) \<Rightarrow>
         (case FromIncomingContext grpc (foreign ctx1) of
            Some md \<Rightarrow>
              (case md_Get md (to_lower RequestHeader) of
                 v # _ \<Rightarrow> handler (WithRequestID ctx1 v, req) s1
               | [] \<Rightarrow> (case call_ext (uuid_NewString lib) s1 of
                          (u, s2) \<Rightarrow> handler (WithRequestID ctx1 u, req) s2))
          | None \<Rightarrow> (case call_ext (uuid_NewString lib) s1 of
                        (u, s2) \<Rightarrow> handler (WithRequestID ctx1 u, req) s2)))"

section \<open>Guards\<close>

definition security_decide :: "('x world writer \<times> 'b request, 'x world, unit go_result) guard" where
  "security_decide = (\<lambda>(w, r) s. (Pass (w, r),
     UpdateHeader w (Header_Set ''X-XSS-Protection'' ''1; mode=block'')
       (UpdateHeader w (Header_Set ''X-Frame-Options'' ''DENY'')
         (UpdateHeader w (Header_Set ''X-Content-Type-Options'' ''nosniff'') s))))"

interpretation security: gate SecurityHeaders security_decide
  by unfold_locales (simp add: SecurityHeaders_def security_decide_def Let_def split: prod.splits)

definition trace_decide :: "('b, 'x) trace_lib \<Rightarrow> ('x world writer \<times> 'b request, 'x world, unit go_result) guard" where
  "trace_decide lib = (\<lambda>(w, r) s.
     case choose_trace_id lib r s of
       (traceID, s1) \<Rightarrow>
         (case choose_request_id lib r s1 of
            (reqID, s2) \<Rightarrow>
              (Pass (w, r\<lparr>Context := WithRequestID (WithTraceID (Context r) traceID) reqID\<rparr>),
               UpdateHeader w (Header_Set RequestHeader reqID) (UpdateHeader w (Header_Set TraceHeader traceID) s2))))"

interpretation tracing: gate "TraceIDMiddleware lib" "trace_decide lib"
  by unfold_locales (simp add: TraceIDMiddleware_def trace_decide_def Let_def split: prod.splits)

interpretation traced_security: two_gates "TraceIDMiddleware lib" "trace_decide lib" SecurityHeaders security_decide
  by unfold_locales

section \<open>The captured status\<close>

text \<open>The code of the last \<^verbatim>\<open>WriteHeader\<close> call of a handler, and the status its response gets.\<close>

fun last_status :: "action list \<Rightarrow> int \<Rightarrow> int" where
  "last_status [] d = d"
| "last_status (SendStatus code # acts) d = last_status acts code"
| "last_status (SetHeader k v # acts) d = last_status acts d"
| "last_status (SendBody b # acts) d = last_status acts d"

fun first_status :: "action list \<Rightarrow> int option" where
  "first_status [] = None"
| "first_status (SendStatus code # acts) =
     (if code \<le> 199 \<and> code \<noteq> 101 then first_status acts else Some code)"
| "first_status (SetHeader k v # acts) = first_status acts"
| "first_status (SendBody b # acts) = Some 200"

lemma responseWriter_simps [simp]:
  "UpdateHeader (responseWriter a w) = UpdateHeader w"
  "WriteBody (responseWriter a w) = WriteBody w"
  "WriteHeader (responseWriter a w) code s = WriteHeader w code (s\<lparr>heap := (heap s)[a := code]\<rparr>)"
  by (simp_all add: responseWriter_def)

text \<open>The same calls on the connection alone.\<close>

fun conn_run :: "action list \<Rightarrow> conn \<Rightarrow> unit go_result \<times> conn" where
  "conn_run [] c = (Ok (), c)"
| "conn_run (SetHeader k v # acts) c = conn_run acts (c\<lparr>hdr := Header_Set k v (hdr c)\<rparr>)"
| "conn_run (SendStatus code # acts) c =
     (case conn_WriteHeader code c of (Panics p, c') \<Rightarrow> (Panics p, c') | (Ok _, c') \<Rightarrow> conn_run acts c')"
| "conn_run (SendBody d # acts) c = conn_run acts (snd (conn_WriteBody d c))"

lemma run_actions_conn:
  "conn_run acts (conn s) = (res, c) \<Longrightarrow> run_actions server_writer acts s = (res, s\<lparr>conn := c\<rparr>)"
  by (induction acts "conn s" arbitrary: s rule: conn_run.induct)
    (auto split: prod.splits go_result.splits)

text \<open>
  Through the wrapper a handler does to the connection what it does without it, and the cell
  ends up with the last code.
\<close>

lemma run_actions_wrapped:
  "a < length (heap s) \<Longrightarrow> conn_run acts (conn s) = (res, c) \<Longrightarrow>
   \<exists>h. run_actions (responseWriter a server_writer) acts s = (res, s\<lparr>conn := c, heap := h\<rparr>) \<and>
     (res = Ok () \<longrightarrow> h = (heap s)[a := last_status acts (heap s ! a)])"
proof (induction acts arbitrary: s)
  case Nil
  then show ?case by (intro exI [of _ "heap s"]) auto
next
  case (Cons act acts)
  show ?case
  proof (cases act)
    case (SetHeader k v)
    with Cons.prems Cons.IH [of "UpdateHeader server_writer (Header_Set k v) s"] show ?thesis by simp
  next
    case (SendBody b)
    obtain e d where d: "conn_WriteBody b (conn s) = (e, d)" by fastforce
    with SendBody Cons.prems Cons.IH [of "s\<lparr>conn := d\<rparr>"] show ?thesis by simp
  next
    case (SendStatus code)
    obtain r d where d: "conn_WriteHeader code (conn s) = (r, d)" by fastforce
    show ?thesis
    proof (cases r)
      case (Panics p)
      with SendStatus Cons.prems d show ?thesis by (intro exI [of _ "(heap s)[a := code]"]) auto
    next
      case (Ok u)
      with SendStatus d Cons.prems Cons.IH [of "s\<lparr>heap := (heap s)[a := code], conn := d\<rparr>"]
      show ?thesis by simp
    qed
  qed
qed

text \<open>The status on the wire is the first final one.\<close>

lemma conn_run_sent:
  "sent c = Some x \<Longrightarrow> conn_run acts c = (res, c') \<Longrightarrow> sent c' = Some x"
  by (induction acts c rule: conn_run.induct)
    (auto simp: conn_WriteBody_def Let_def split: if_splits)

lemma conn_run_first:
  "sent c = None \<Longrightarrow> conn_run acts c = (Ok u, c') \<Longrightarrow> map_option fst (sent c') = first_status acts"
proof (induction acts c rule: conn_run.induct)
  case (3 code acts c)
  then show ?case
    by (auto simp: conn_WriteHeader_def split: if_splits dest!: conn_run_sent [rotated])
next
  case (4 d acts c)
  have "map_option fst (sent (snd (conn_WriteBody d c))) = Some 200"
    using 4 by (auto simp: conn_WriteBody_def Let_def)
  then obtain x where "sent (snd (conn_WriteBody d c)) = Some x" "fst x = 200" by auto
  with conn_run_sent [OF this(1), of acts] 4 show ?case by auto
qed auto

text \<open>Numbers and HTTP methods are ASCII, hence valid label values.\<close>

lemma valid_labels:
  shows "valid_utf8 (itoa i) = itoa i"
    and "list_all token_char m \<Longrightarrow> valid_utf8 m = m"
proof -
  have "list_all (\<lambda>c. byte c < 128) (dec_digits n)" for n
    using dec_digits_ok [of n] by (auto simp: list_all_iff is_digit_def)
  then show "valid_utf8 (itoa i) = itoa i" by (intro valid_utf8_ascii) (simp add: itoa_def)
  show "list_all token_char m \<Longrightarrow> valid_utf8 m = m"
    by (intro valid_utf8_ascii) (auto simp: list_all_iff token_char_def Let_def)
qed

lemma hex_EncodeToString_nonempty: "hex_EncodeToString bs = [] \<longleftrightarrow> bs = []"
  by (cases bs) (simp_all add: hex_EncodeToString_def)

section \<open>Properties\<close>


definition plain_get :: "unit request" where
  "plain_get = \<lparr>Method = ''GET'', URL_Path = ''/a'', Header = [], RemoteAddr = ''10.0.0.1:80'', Context = Background\<rparr>"


text \<open>
  C30. \<^verbatim>\<open>LoggerMiddleware\<close> is transparent, but what it logs is not always what was sent: a handler
  that sets headers, sends statuses and writes body data gets the same response as without
  it and one log entry is added; the logged status is the code of its last \<^verbatim>\<open>WriteHeader\<close> call
  (200 without one), while the status on the wire is the first that is final.
\<close>

theorem LoggerMiddleware_transparent:
  assumes "sent (conn s) = None" and "run_actions server_writer acts s = (Ok (), t)"
  shows "\<exists>t' d. LoggerMiddleware now (\<lambda>(w, r). run_actions w acts) (server_writer, r) s = (Ok (), t') \<and>
    conn t' = conn t \<and> logs t' = logs t @ [http_request_entry r (last_status acts 200) d] \<and>
    map_option fst (sent (conn t)) = first_status acts"
proof -
  obtain res c where run: "conn_run acts (conn s) = (res, c)" by fastforce
  with run_actions_conn [OF run] assms(2) have c: "res = Ok ()" "t = s\<lparr>conn := c\<rparr>" by simp_all
  let ?s = "s\<lparr>heap := heap s @ [200]\<rparr>"
  from run_actions_wrapped [of "length (heap s)" ?s acts res c] run c(1) obtain h where
    "run_actions (responseWriter (length (heap s)) server_writer) acts ?s = (Ok (), ?s\<lparr>conn := c, heap := h\<rparr>)"
    "h ! length (heap s) = last_status acts 200" by (auto simp: nth_append)
  with c conn_run_first [OF assms(1), of acts "()" c] run show ?thesis
    by (auto simp: LoggerMiddleware_def Let_def log_to_def)
qed

theorem LoggerMiddleware_transparent_witness:
  "\<exists>t' d. LoggerMiddleware (\<lambda>_. 0) (\<lambda>(w, r). run_actions w [SendStatus 200, SendStatus 500]) (server_writer, plain_get)
      (fresh_world ()) = (Ok (), t') \<and> logs t' = [http_request_entry plain_get 500 d] \<and> map_option fst (sent (conn t')) = Some 200"
proof -
  let ?acts = "[SendStatus 200, SendStatus 500]"
  let ?c = "new_conn\<lparr>sent := Some (200, [])\<rparr>"
  have "run_actions server_writer ?acts (fresh_world ()) = (Ok (), (fresh_world ())\<lparr>conn := ?c\<rparr>)"
    and "sent (conn (fresh_world ())) = None"
    by (simp_all add: fresh_world_def new_conn_def)
  from LoggerMiddleware_transparent [OF this(2,1), of "\<lambda>_. 0" plain_get] obtain t' d where
    "LoggerMiddleware (\<lambda>_. 0) (\<lambda>(w, r). run_actions w ?acts) (server_writer, plain_get) (fresh_world ()) = (Ok (), t')"
    "conn t' = ?c" "logs t' = [http_request_entry plain_get 500 d]"
    by (auto simp: fresh_world_def)
  then show ?thesis by (intro exI [of _ t'] exI [of _ d]) simp
qed

text \<open>
  C31. Every request whose handler returns is counted once and observed once, with the same labels, and
  counting does not panic: the number of labels fits and they are valid UTF-8, for a method as the
  HTTP server accepts it and route patterns that are valid.  The path label is the route's
  pattern, or one of two fixed words when there is none, never the request's path; the method
  label is the method as the client sent it.  A request whose handler panics adds nothing.
\<close>

theorem MetricsMiddleware_labels:
  assumes "NewWrapResponseWriter chi w s = (ww, statusOf, s0)" and "handler (ww, r) s0 = (res, s')"
    and "label_contract WithLabelValues" and "list_all token_char (Method r)" and "\<And>p. RoutePattern chi (foreign (Context r)) s' = Some p \<Longrightarrow> valid_utf8 p = p"
  shows "case res of
      Panics p \<Rightarrow> MetricsMiddleware chi WithLabelValues now handler (w, r) s = (Panics p, s')
    | Ok u \<Rightarrow> (\<exists>labels path d. MetricsMiddleware chi WithLabelValues now handler (w, r) s =
        (Ok (), s'\<lparr>counters := counters s' @ [labels], observations := observations s' @ [(labels, d)]\<rparr>) \<and>
        labels = [(''status'', itoa (statusOf s')), (''method'', Method r), (''path'', path)] \<and>
        (path \<in> {''unmatched_route'', ''not_found''} \<or> RoutePattern chi (foreign (Context r)) s' = Some path))"
proof (cases res)
  case (Ok u)
  let ?path = "path_label (RoutePattern chi (foreign (Context r)) s') (statusOf s')"
  have path: "?path \<in> {''unmatched_route'', ''not_found''} \<or> RoutePattern chi (foreign (Context r)) s' = Some ?path"
    by (simp add: path_label_def split: option.split)
  with assms(5) [of ?path] have "valid_utf8 ?path = ?path" by (auto simp: valid_utf8_ascii)
  with valid_labels(1) [of "statusOf s'"] valid_labels(2) [OF assms(4)] path assms(1,2,3) Ok show ?thesis
    by (auto simp: MetricsMiddleware_def label_contract_def httpRequestsTotal_def httpRequestDuration_def Let_def)
qed (use assms(1,2) in \<open>simp add: MetricsMiddleware_def Let_def\<close>)

definition plain_labels :: with_label_values where
  "plain_labels vec vals =
     (if length vals = length (vec_labels vec) \<and> list_all (\<lambda>v. valid_utf8 v = v) vals then Ok (zip (vec_labels vec) vals)
      else Panics ''inconsistent label values'')"

theorem MetricsMiddleware_labels_witness:
  "\<exists>labels path d. MetricsMiddleware \<lparr>NewWrapResponseWriter = \<lambda>w s. (w, \<lambda>_. 404, s), RoutePattern = \<lambda>_ _. None\<rparr> plain_labels (\<lambda>_. 0)
      (\<lambda>_ s. (Ok (), s)) (server_writer, plain_get) (fresh_world ()) =
     (Ok (), (fresh_world ())\<lparr>counters := [labels], observations := [(labels, d)]\<rparr>) \<and>
     labels = [(''status'', itoa 404), (''method'', ''GET''), (''path'', path)] \<and> path \<in> {''unmatched_route'', ''not_found''}"
  using MetricsMiddleware_labels [where chi = "\<lparr>NewWrapResponseWriter = \<lambda>w s. (w, \<lambda>_. 404, s), RoutePattern = \<lambda>_ _. None\<rparr>"
      and w = server_writer and s = "fresh_world ()" and ww = server_writer and statusOf = "\<lambda>_. 404" and s0 = "fresh_world ()"
      and handler = "\<lambda>_ s. (Ok (), s)" and r = plain_get and res = "Ok ()" and s' = "fresh_world ()" and now = "\<lambda>_. 0"
      and WithLabelValues = plain_labels]
  by (simp add: fresh_world_def plain_get_def token_char_def label_contract_def plain_labels_def)

text \<open>
  C32. Every request behind \<^verbatim>\<open>TraceIDMiddleware\<close> has identifiers: the handler runs exactly once, the
  trace and request identifiers in its context are the ones in the response headers and are
  not empty; the trace identifier is the active span's if there is one, else the caller's,
  else new, and the request identifier is the caller's if it sent one.
\<close>

theorem TraceID_assigned:
  assumes "\<And>x. fst (uuid_New lib x) \<noteq> []" and "\<And>x. fst (uuid_NewString lib x) \<noteq> []"
  shows "\<exists>ctx s'. (\<forall>next. TraceIDMiddleware lib next (server_writer, r) s = next (server_writer, r\<lparr>Context := ctx\<rparr>) s') \<and>
    GetTraceID (Some ctx) \<noteq> [] \<and> GetRequestID (Some ctx) \<noteq> [] \<and>
    Header_Get (hdr (conn s')) TraceHeader = GetTraceID (Some ctx) \<and>
    Header_Get (hdr (conn s')) RequestHeader = GetRequestID (Some ctx) \<and>
    (\<forall>t. SpanTraceID lib (foreign (Context r)) = Some t \<and> t \<noteq> [] \<longrightarrow> GetTraceID (Some ctx) = t) \<and>
    (SpanTraceID lib (foreign (Context r)) = None \<and> Header_Get (Header r) TraceHeader \<noteq> [] \<longrightarrow>
       GetTraceID (Some ctx) = Header_Get (Header r) TraceHeader) \<and>
    (Header_Get (Header r) RequestHeader \<noteq> [] \<longrightarrow> GetRequestID (Some ctx) = Header_Get (Header r) RequestHeader)"
proof -
  obtain tid s1 where t: "choose_trace_id lib r s = (tid, s1)" by fastforce
  obtain rid s2 where q: "choose_request_id lib r s1 = (rid, s2)" by fastforce
  have tid: "tid \<noteq> []" "\<And>t. SpanTraceID lib (foreign (Context r)) = Some t \<Longrightarrow> t \<noteq> [] \<Longrightarrow> tid = t"
    "SpanTraceID lib (foreign (Context r)) = None \<Longrightarrow> Header_Get (Header r) TraceHeader \<noteq> [] \<Longrightarrow>
       tid = Header_Get (Header r) TraceHeader"
    using t assms(1) [of "ext s"]
    by (auto simp: choose_trace_id_def call_ext_def Let_def hex_EncodeToString_nonempty case_prod_beta split: if_splits option.splits)
  have rid: "rid \<noteq> []" "Header_Get (Header r) RequestHeader \<noteq> [] \<Longrightarrow> rid = Header_Get (Header r) RequestHeader"
    using q assms(2) [of "ext s1"]
    by (auto simp: choose_request_id_def call_ext_def Let_def case_prod_beta split: if_splits)
  let ?ctx = "WithRequestID (WithTraceID (Context r) tid) rid"
  show ?thesis
    by (rule exI [of _ ?ctx], rule exI, intro conjI allI impI)
      (auto simp: TraceIDMiddleware_def t q tid rid Let_def TraceHeader_def RequestHeader_def header_lookup)
qed

theorem TraceID_assigned_witness:
  "\<exists>ctx s'. (\<forall>next. TraceIDMiddleware
      \<lparr>SpanTraceID = \<lambda>_. None, uuid_New = \<lambda>x. (''u'', x), uuid_NewString = \<lambda>x. (''v'', x)\<rparr> next
      (server_writer, plain_get) (fresh_world ()) = next (server_writer, plain_get\<lparr>Context := ctx\<rparr>) s') \<and>
     GetTraceID (Some ctx) \<noteq> []"
  using TraceID_assigned [of "\<lparr>SpanTraceID = \<lambda>_. None, uuid_New = \<lambda>x. (''u'', x), uuid_NewString = \<lambda>x. (''v'', x)\<rparr>"
      plain_get "fresh_world ()"] by auto

end
