(* ===== verification/Auth.thy ===== *)
theory Auth
  imports Grpc Jwks
begin

text \<open>
  \<^verbatim>\<open>server/middleware/auth.go\<close> and \<^verbatim>\<open>strategy_jwt.go\<close>: the authentication middleware for HTTP and
  for gRPC over a strategy, and the JWT strategy over a token verifier.  The strategy is a
  parameter of the middleware as it is in the source; the properties below take the JWT
  strategy, whose verifier is the JWKS client.
\<close>

section \<open>Payload\<close>

record auth_payload =
  Headers :: "(string \<times> string) list"
  payload_RemoteAddr :: string
  payload_Method :: string
  payload_Path :: string

text \<open>
  The loop over a header map: the first value of each key.  The list gives the order in which
  the map is visited, which Go leaves open.
\<close>

fun collect_headers :: "header_map \<Rightarrow> (string \<times> string) list \<Rightarrow> (string \<times> string) list" where
  "collect_headers [] headers = headers"
| "collect_headers ((k, v) # hs) headers =
     (case v of
        [] \<Rightarrow> collect_headers hs headers
      | v0 # _ \<Rightarrow> collect_headers hs (AList.update (CanonicalHeaderKey k) v0 headers))"

definition GetHeader :: "auth_payload \<Rightarrow> string \<Rightarrow> string" where
  "GetHeader p key =
     (case map_of (Headers p) (CanonicalHeaderKey key) of
        Some v \<Rightarrow> v
      | None \<Rightarrow>
          (case find (\<lambda>(k, v). to_lower k = to_lower key) (Headers p) of
             Some (k, v) \<Rightarrow> v
           | None \<Rightarrow> []))"

section \<open>The middleware\<close>

type_synonym ('b, 'x) strategy =
  "'b go_context \<Rightarrow> auth_payload \<Rightarrow> 'x world \<Rightarrow> (go_error + 'b go_context) go_result \<times> 'x world"

definition http_payload :: "'b request \<Rightarrow> auth_payload" where
  "http_payload r = \<lparr>Headers = collect_headers (Header r) [], payload_RemoteAddr = RemoteAddr r,
     payload_Method = Method r, payload_Path = URL_Path r\<rparr>"

definition HTTPMiddleware :: "('b, 'x) strategy \<Rightarrow> ('b, 'x) middleware" where
  "HTTPMiddleware authenticate next = (\<lambda>(w, r) s.
     let ctx = WithEntryPoint (Context r) ''http''
     in case authenticate ctx (http_payload r) s of
          (Panics p, s1) \<Rightarrow> (Panics p, s1)
        | (Ok (Inl err), s1) \<Rightarrow> http_Error w (err_text err) 401 s1
        | (Ok (Inr ctx1), s1) \<Rightarrow> next (w, r\<lparr>Context := ctx1\<rparr>) s1)"

definition grpc_payload :: "string \<Rightarrow> string option \<Rightarrow> metadata \<Rightarrow> auth_payload" where
  "grpc_payload fullMethod addr md = \<lparr>Headers = collect_headers md [],
     payload_RemoteAddr = (case addr of Some a \<Rightarrow> a | None \<Rightarrow> ''0.0.0.0:0''),
     payload_Method = fullMethod, payload_Path = fullMethod\<rparr>"

definition GRPCUnaryInterceptor ::
  "'b grpc_lib \<Rightarrow> ('b, 'x) strategy \<Rightarrow> string \<Rightarrow> ('b, 'q, 'r, 'x) unary \<Rightarrow> ('b, 'q, 'r, 'x) unary" where
  "GRPCUnaryInterceptor lib authenticate fullMethod handler = (\<lambda>(ctx0, req) s.
     let ctx = WithEntryPoint ctx0 ''grpc''
     in case FromIncomingContext lib (foreign ctx) of
          None \<Rightarrow> (Ok (grpc_fail Unauthenticated ''metadata is not provided''), s)
        | Some md \<Rightarrow>
            (case authenticate ctx (grpc_payload fullMethod (peer_FromContext lib (foreign ctx)) md) s of
               (Panics p, s1) \<Rightarrow> (Panics p, s1)
             | (Ok (Inl err), s1) \<Rightarrow> (Ok (grpc_fail Unauthenticated (err_text err)), s1)
             | (Ok (Inr newCtx), s1) \<Rightarrow> handler (newCtx, req) s1))"

section \<open>The JWT strategy\<close>

definition jwt_failed :: "go_error \<Rightarrow> string \<Rightarrow> log_entry" where
  "jwt_failed err ip = LogEntry ''JWT verification failed'' [(''error'', err_text err), (''ip'', ip)]"

definition with_claims :: "helix_claims \<Rightarrow> 'b go_context \<Rightarrow> 'b go_context" where
  "with_claims cl ctx =
     (let ctx1 = (if Subject cl \<noteq> [] then WithAuthPrincipalID ctx (Subject cl) else ctx)
      in if Sid cl \<noteq> [] then WithAuthSessionID ctx1 (Sid cl) else ctx1)"

definition Authenticate :: "(string \<Rightarrow> 'x \<Rightarrow> verify_result \<times> 'x) \<Rightarrow> ('b, 'x) strategy" where
  "Authenticate verify ctx payload s =
     (let authHeader = GetHeader payload ''Authorization''
      in if authHeader = [] then (Ok (Inl (ErrorString ''missing authorization header'')), s)
         else (case split_on (CHR '' '') authHeader of
                 [bearer, tokenStr] \<Rightarrow>
                   if bearer \<noteq> ''Bearer''
                   then (Ok (Inl (ErrorString ''invalid authorization header format'')), s)
                   else (case call_ext (verify tokenStr) s of
                           (VPanic, s1) \<Rightarrow> (Panics ''nil pointer dereference'', s1)
                         | (VErr err, s1) \<Rightarrow>
                             (Ok (Inl (ErrorString ''invalid token'')),
                              log_to (jwt_failed err (payload_RemoteAddr payload)) s1)
                         | (VOk cl, s1) \<Rightarrow> (Ok (Inr (with_claims cl ctx)), s1))
               | _ \<Rightarrow> (Ok (Inl (ErrorString ''invalid authorization header format'')), s)))"

section \<open>Guards\<close>

text \<open>What the two middlewares decide.\<close>

definition http_auth_decide ::
  "('b, 'x) strategy \<Rightarrow> ('x world writer \<times> 'b request, 'x world, unit go_result) guard" where
  "http_auth_decide authenticate = (\<lambda>(w, r) s.
     case authenticate (WithEntryPoint (Context r) ''http'') (http_payload r) s of
       (Panics p, s1) \<Rightarrow> (Stop (Panics p), s1)
     | (Ok (Inl err), s1) \<Rightarrow> (case http_Error w (err_text err) 401 s1 of (res, s2) \<Rightarrow> (Stop res, s2))
     | (Ok (Inr ctx1), s1) \<Rightarrow> (Pass (w, r\<lparr>Context := ctx1\<rparr>), s1))"

definition grpc_auth_decide ::
  "'b grpc_lib \<Rightarrow> ('b, 'x) strategy \<Rightarrow> string \<Rightarrow> ('b go_context \<times> 'q, 'x world, 'r grpc_result go_result) guard" where
  "grpc_auth_decide lib authenticate fullMethod = (\<lambda>(ctx0, req) s.
     case FromIncomingContext lib (foreign ctx0) of
       None \<Rightarrow> (Stop (Ok (grpc_fail Unauthenticated ''metadata is not provided'')), s)
     | Some md \<Rightarrow>
         (case authenticate (WithEntryPoint ctx0 ''grpc'')
                 (grpc_payload fullMethod (peer_FromContext lib (foreign ctx0)) md) s of
            (Panics p, s1) \<Rightarrow> (Stop (Panics p), s1)
          | (Ok (Inl err), s1) \<Rightarrow> (Stop (Ok (grpc_fail Unauthenticated (err_text err))), s1)
          | (Ok (Inr newCtx), s1) \<Rightarrow> (Pass (newCtx, req), s1)))"

interpretation http_auth: gate "HTTPMiddleware authenticate" "http_auth_decide authenticate"
  by unfold_locales
    (simp add: HTTPMiddleware_def http_auth_decide_def split: prod.splits go_result.splits sum.splits)

interpretation grpc_auth: gate "GRPCUnaryInterceptor lib authenticate fullMethod"
  "grpc_auth_decide lib authenticate fullMethod"
  by unfold_locales
    (simp add: GRPCUnaryInterceptor_def grpc_auth_decide_def split: prod.splits go_result.splits sum.splits option.splits)

section \<open>Headers\<close>

text \<open>
  Header maps as the HTTP server delivers them: each key once and in canonical form.
\<close>

definition canonical_key :: "string \<Rightarrow> bool" where
  "canonical_key k \<longleftrightarrow> CanonicalHeaderKey k = k"

definition server_headers :: "header_map \<Rightarrow> bool" where
  "server_headers h \<longleftrightarrow> distinct (map fst h) \<and> (\<forall>k \<in> set (map fst h). canonical_key k)"

lemma canonical_key_Canonical [simp]: "canonical_key (CanonicalHeaderKey k)"
  by (simp add: canonical_key_def)

lemma collect_headers_keys:
  assumes "\<forall>k \<in> fst ` set acc. canonical_key k"
  shows "\<forall>k \<in> fst ` set (collect_headers h acc). canonical_key k"
  using assms
proof (induction h acc rule: collect_headers.induct)
  case (2 k' v hs headers)
  show ?case
  proof (cases v)
    case Nil
    from 2(1) [OF this 2(3)] Nil show ?thesis by simp
  next
    case (Cons v0 vs)
    from 2(3) have "\<forall>k \<in> fst ` set (AList.update (CanonicalHeaderKey k') v0 headers). canonical_key k"
      by (simp only: dom_update ball_Un) auto
    from 2(2) [OF Cons this] Cons show ?thesis by simp
  qed
qed simp

lemma collect_headers_sound:
  "map_of (collect_headers h acc) k = Some v \<Longrightarrow>
   map_of acc k = Some v \<or> (\<exists>k' vs. (k', v # vs) \<in> set h \<and> CanonicalHeaderKey k' = k)"
proof (induction h acc rule: collect_headers.induct)
  case (2 k' v hs headers)
  then show ?case by (cases v) (auto simp: update_conv' split: if_splits)
qed simp

lemma collect_headers_server:
  "server_headers h \<Longrightarrow> map_of (collect_headers h acc) k =
     (case map_of h k of Some (v # _) \<Rightarrow> Some v | _ \<Rightarrow> map_of acc k)"
proof (induction h acc rule: collect_headers.induct)
  case (2 k' v hs headers)
  then have hs: "server_headers hs" "k' \<notin> set (map fst hs)" "CanonicalHeaderKey k' = k'"
    by (auto simp: server_headers_def canonical_key_def)
  then have "map_of hs k' = None" by (simp add: map_of_eq_None_iff)
  with 2 hs show ?case by (cases v) (auto simp: update_conv' split: option.splits list.splits)
qed simp

text \<open>The second loop of \<^verbatim>\<open>GetHeader\<close> finds nothing the first lookup does not.\<close>

lemma GetHeader_canonical:
  assumes "list_all token_char key" and "\<forall>k \<in> fst ` set (Headers p). canonical_key k"
  shows "GetHeader p key = (case map_of (Headers p) (CanonicalHeaderKey key) of Some v \<Rightarrow> v | None \<Rightarrow> [])"
proof (cases "map_of (Headers p) (CanonicalHeaderKey key)")
  case None
  have "to_lower k \<noteq> to_lower key" if "(k, v) \<in> set (Headers p)" for k v
  proof
    assume "to_lower k = to_lower key"
    then have "CanonicalHeaderKey key = CanonicalHeaderKey k" by (metis Canonical_cong assms(1))
    also from assms(2) that have "CanonicalHeaderKey k = k" by (force simp: canonical_key_def)
    finally show False using None that by (simp add: map_of_eq_None_iff) force
  qed
  then have "find (\<lambda>(k, v). to_lower k = to_lower key) (Headers p) = None"
    by (auto simp: find_None_iff)
  with None show ?thesis by (simp add: GetHeader_def)
qed (simp add: GetHeader_def)

lemma GetHeader_collected:
  assumes "list_all token_char key" and "Headers p = collect_headers h []"
  shows "GetHeader p key = (case map_of (collect_headers h []) (CanonicalHeaderKey key) of Some v \<Rightarrow> v | None \<Rightarrow> [])"
  using GetHeader_canonical [OF assms(1), of p] collect_headers_keys [of "[]" h] assms(2) by auto

lemma GetHeader_http:
  assumes "list_all token_char key" and "server_headers (Header r)"
  shows "GetHeader (http_payload r) key = Header_Get (Header r) key"
  using GetHeader_collected [OF assms(1), of "http_payload r" "Header r"]
    collect_headers_server [OF assms(2), of "[]" "CanonicalHeaderKey key"]
  by (auto simp: http_payload_def Header_Get_def split: option.splits list.splits)

lemma GetHeader_grpc:
  assumes "list_all token_char key" and "GetHeader (grpc_payload m a md) key \<noteq> []"
  shows "\<exists>k vs. (k, GetHeader (grpc_payload m a md) key # vs) \<in> set md \<and>
    CanonicalHeaderKey k = CanonicalHeaderKey key"
  using GetHeader_collected [OF assms(1), of "grpc_payload m a md" md] assms(2)
    collect_headers_sound [of md "[]" "CanonicalHeaderKey key"]
  by (auto simp: grpc_payload_def split: option.splits)

text \<open>A request without headers.\<close>

definition anonymous_get :: "unit request" where
  "anonymous_get = \<lparr>Method = ''GET'', URL_Path = ''/'', Header = [], RemoteAddr = ''10.0.0.1:80'', Context = Background\<rparr>"

section \<open>The strategy\<close>

lemma authorization_token [simp]: "list_all token_char ''Authorization''"
  by (simp add: token_char_def)

text \<open>The three ways the strategy ends.\<close>

lemma Authenticate_cases:
  obtains (accepted) tok cl x' where "GetHeader payload ''Authorization'' = ''Bearer '' @ tok" "CHR '' '' \<notin> set tok"
      "verify tok (ext s) = (VOk cl, x')"
      "Authenticate verify ctx payload s = (Ok (Inr (with_claims cl ctx)), s\<lparr>ext := x'\<rparr>)"
  | (rejected) err s1 where "Authenticate verify ctx payload s = (Ok (Inl err), s1)" "conn s1 = conn s"
  | (panicked) tok x' p where "verify tok (ext s) = (VPanic, x')"
      "Authenticate verify ctx payload s = (Panics p, s\<lparr>ext := x'\<rparr>)"
proof (cases "\<exists>tok. split_on (CHR '' '') (GetHeader payload ''Authorization'') = [''Bearer'', tok]")
  case True
  then obtain tok where tok: "split_on (CHR '' '') (GetHeader payload ''Authorization'') = [''Bearer'', tok]" by blast
  then have hv: "GetHeader payload ''Authorization'' = ''Bearer '' @ tok" "CHR '' '' \<notin> set tok"
    unfolding split_on_two by simp_all
  obtain v x' where v: "verify tok (ext s) = (v, x')" by fastforce
  from tok hv(1) v have run: "Authenticate verify ctx payload s =
      (case v of VPanic \<Rightarrow> (Panics ''nil pointer dereference'', s\<lparr>ext := x'\<rparr>)
       | VErr err \<Rightarrow> (Ok (Inl (ErrorString ''invalid token'')),
           log_to (jwt_failed err (payload_RemoteAddr payload)) (s\<lparr>ext := x'\<rparr>))
       | VOk cl \<Rightarrow> (Ok (Inr (with_claims cl ctx)), s\<lparr>ext := x'\<rparr>))"
    by (simp add: Authenticate_def call_ext_def split: verify_result.split)
  show ?thesis
  proof (cases v)
    case (VOk cl)
    with run v hv show ?thesis by (intro accepted) simp_all
  next
    case (VErr e)
    with run have "Authenticate verify ctx payload s = (Ok (Inl (ErrorString ''invalid token'')),
      log_to (jwt_failed e (payload_RemoteAddr payload)) (s\<lparr>ext := x'\<rparr>))" by simp
    then show ?thesis by (rule rejected) (simp add: log_to_def)
  next
    case VPanic
    with run v show ?thesis by (intro panicked) simp_all
  qed
next
  case False
  then have "\<exists>err. Authenticate verify ctx payload s = (Ok (Inl err), s)"
    by (auto simp: Authenticate_def Let_def split: list.split)
  with rejected show ?thesis by blast
qed

text \<open>Under the JWT library's contract the verifier never panics.\<close>

lemma VerifyToken_no_panic:
  assumes "parse_contract env sig_ok parse"
  shows "fst (VerifyToken env parse t st) \<noteq> VPanic"
proof
  assume "fst (VerifyToken env parse t st) = VPanic"
  then obtain tok st' where "parse t (keyfunc env) (issuer (fst st)) st = (Inr tok, st')"
    "ExpiresAt (claims tok) = None"
    by (auto simp: VerifyToken_def check_times_def split: prod.splits sum.splits if_splits option.splits)
  with parse_ok [OF assms this(1)] show False by auto
qed

text \<open>What the JWKS-backed strategy does under the JWT library's contract.\<close>

lemma jwt_strategy_cases:
  assumes "parse_contract env sig_ok parse"
  obtains (accepted) tok cl x' where "GetHeader payload ''Authorization'' = ''Bearer '' @ tok" "CHR '' '' \<notin> set tok"
      "VerifyToken env parse tok (ext s) = (VOk cl, x')" "authentic env sig_ok tok (ext s) x' cl"
      "Authenticate (VerifyToken env parse) ctx payload s = (Ok (Inr (with_claims cl ctx)), s\<lparr>ext := x'\<rparr>)"
  | (rejected) err s1 where "Authenticate (VerifyToken env parse) ctx payload s = (Ok (Inl err), s1)"
      "conn s1 = conn s"
proof (cases rule: Authenticate_cases [of payload "VerifyToken env parse" s ctx])
  case (accepted tok cl x')
  with VerifyToken_authentic [OF assms accepted(3)] that(1) show ?thesis by blast
next
  case (rejected err s1)
  with that(2) show ?thesis by blast
next
  case (panicked tok x' p)
  with VerifyToken_no_panic [OF assms] show ?thesis by (metis fst_conv)
qed

text \<open>The interceptor over it.\<close>

lemma grpc_auth_cases:
  assumes "parse_contract env sig_ok parse"
  obtains (runs) md k vs tok cl x' where "FromIncomingContext lib (foreign ctx) = Some md"
      "(k, (''Bearer '' @ tok) # vs) \<in> set md" "to_lower k = ''authorization''" "CHR '' '' \<notin> set tok"
      "VerifyToken env parse tok (ext s) = (VOk cl, x')" "authentic env sig_ok tok (ext s) x' cl"
      "\<forall>handler :: ('b, 'q, 'r, caching_client \<times> 'w) unary.
         GRPCUnaryInterceptor lib (Authenticate (VerifyToken env parse)) m handler (ctx, req) s =
         handler (with_claims cl (WithEntryPoint ctx ''grpc''), req) (s\<lparr>ext := x'\<rparr>)"
  | (refused) msg s' where "\<forall>handler :: ('b, 'q, 'r2, caching_client \<times> 'w) unary.
       GRPCUnaryInterceptor lib (Authenticate (VerifyToken env parse)) m handler (ctx, req) s =
       (Ok \<lparr>reply = None, failure = Some (Status Unauthenticated msg)\<rparr>, s')"
proof (cases "FromIncomingContext lib (foreign ctx)")
  case None
  with refused show ?thesis by (auto simp: GRPCUnaryInterceptor_def grpc_fail_def)
next
  case (Some md)
  let ?p = "grpc_payload m (peer_FromContext lib (foreign ctx)) md"
  show ?thesis
  proof (cases rule: jwt_strategy_cases [OF assms, of ?p s "WithEntryPoint ctx ''grpc''"])
    case (1 tok cl x')
    then have "GetHeader ?p ''Authorization'' \<noteq> []" by simp
    from GetHeader_grpc [OF authorization_token this] 1(1) obtain k vs where
      k: "(k, (''Bearer '' @ tok) # vs) \<in> set md" "CanonicalHeaderKey k = CanonicalHeaderKey ''Authorization''" by auto
    then have "to_lower k = to_lower ''Authorization''" by (metis to_lower_Canonical)
    then have "to_lower k = ''authorization''" by (simp add: to_lower_def lower_char_def char_of_def bit_simps bit_0)
    moreover have "\<forall>handler. GRPCUnaryInterceptor lib (Authenticate (VerifyToken env parse)) m handler (ctx, req) s =
        handler (with_claims cl (WithEntryPoint ctx ''grpc''), req) (s\<lparr>ext := x'\<rparr>)"
      using 1(5) Some by (simp add: GRPCUnaryInterceptor_def)
    ultimately show ?thesis using runs Some 1 k(1) by blast
  next
    case (2 err s1)
    with Some refused show ?thesis by (auto simp: GRPCUnaryInterceptor_def grpc_fail_def)
  qed
qed

section \<open>Properties\<close>

text \<open>
  C2. Behind the HTTP authentication middleware a handler sees authenticated requests only.
  With the JWT strategy over the JWKS client, a request as the server delivers it either
  carries \<^verbatim>\<open>Authorization: Bearer\<close> and one token that \<^verbatim>\<open>VerifyToken\<close> accepts as authentic, and the
  handler runs once with that token's subject and session (if not empty) in its context; or
  the handler does not run and the middleware answers with \<^verbatim>\<open>http.Error\<close> and status 401.
\<close>

theorem http_auth_gate:
  assumes "parse_contract env sig_ok parse" and "server_headers (Header r)"
  shows "(\<exists>tok cl x'. Header_Get (Header r) ''Authorization'' = ''Bearer '' @ tok \<and> CHR '' '' \<notin> set tok \<and>
        VerifyToken env parse tok (ext s) = (VOk cl, x') \<and> authentic env sig_ok tok (ext s) x' cl \<and>
        (\<forall>next. HTTPMiddleware (Authenticate (VerifyToken env parse)) next (w, r) s =
           next (w, r\<lparr>Context := with_claims cl (WithEntryPoint (Context r) ''http'')\<rparr>) (s\<lparr>ext := x'\<rparr>))) \<or>
    (\<exists>msg s'. conn s' = conn s \<and>
        (\<forall>next. HTTPMiddleware (Authenticate (VerifyToken env parse)) next (w, r) s = http_Error w msg 401 s'))"
proof (cases rule: jwt_strategy_cases [OF assms(1), of "http_payload r" s "WithEntryPoint (Context r) ''http''"])
  case (1 tok cl x')
  have "Header_Get (Header r) ''Authorization'' = ''Bearer '' @ tok"
    using 1(1) by (simp add: GetHeader_http [OF authorization_token assms(2), symmetric])
  moreover have "\<forall>next. HTTPMiddleware (Authenticate (VerifyToken env parse)) next (w, r) s =
      next (w, r\<lparr>Context := with_claims cl (WithEntryPoint (Context r) ''http'')\<rparr>) (s\<lparr>ext := x'\<rparr>)"
    using 1(5) by (simp add: HTTPMiddleware_def)
  ultimately show ?thesis using 1 by blast
next
  case (2 err s1)
  then show ?thesis by (intro disjI2) (auto simp: HTTPMiddleware_def)
qed

theorem http_auth_gate_witness:
  "\<exists>msg s'. conn s' = new_conn \<and>
    (\<forall>next. HTTPMiddleware (Authenticate (VerifyToken demo_env (demo_parse demo_env demo_token))) next
       (server_writer, anonymous_get) (fresh_world (demo_client, 0)) = http_Error server_writer msg 401 s')"
  using http_auth_gate [OF demo_parse_contract [of demo_env demo_token], where r = anonymous_get and
      s = "fresh_world (demo_client, 0)" and w = server_writer]
  by (simp add: anonymous_get_def fresh_world_def server_headers_def Header_Get_def)

text \<open>
  The gRPC interceptor guards its handler the same way: it runs once, for a call whose
  metadata holds \<^verbatim>\<open>Bearer\<close> and an authentic token under the key \<^verbatim>\<open>authorization\<close> in any case; otherwise
  the call fails with \<^verbatim>\<open>Unauthenticated\<close> and no reply, and the handler does not run.
\<close>

lemma grpc_auth_gate:
  assumes "parse_contract env sig_ok parse"
  shows "(\<exists>md k vs tok cl x'. FromIncomingContext lib (foreign ctx) = Some md \<and>
        (k, (''Bearer '' @ tok) # vs) \<in> set md \<and> to_lower k = ''authorization'' \<and> CHR '' '' \<notin> set tok \<and>
        VerifyToken env parse tok (ext s) = (VOk cl, x') \<and> authentic env sig_ok tok (ext s) x' cl \<and>
        (\<forall>handler. GRPCUnaryInterceptor lib (Authenticate (VerifyToken env parse)) m handler (ctx, req) s =
           handler (with_claims cl (WithEntryPoint ctx ''grpc''), req) (s\<lparr>ext := x'\<rparr>))) \<or>
    (\<exists>msg s'. \<forall>handler. GRPCUnaryInterceptor lib (Authenticate (VerifyToken env parse)) m handler (ctx, req) s =
       (Ok \<lparr>reply = None, failure = Some (Status Unauthenticated msg)\<rparr>, s'))"
  by (cases rule: grpc_auth_cases [OF assms, of lib ctx s m req]) blast+

lemma grpc_auth_gate_witness:
  "\<exists>msg s'. \<forall>handler. GRPCUnaryInterceptor \<lparr>FromIncomingContext = \<lambda>_. Some [], peer_FromContext = \<lambda>_. None\<rparr>
      (Authenticate (VerifyToken demo_env (demo_parse demo_env demo_token))) ''/svc/M'' handler
      (Background :: unit go_context, ''req'') (fresh_world (demo_client, 0)) =
     (Ok \<lparr>reply = None :: unit option, failure = Some (Status Unauthenticated msg)\<rparr>, s')"
  using grpc_auth_gate [OF demo_parse_contract [of demo_env demo_token],
      where lib = "\<lparr>FromIncomingContext = \<lambda>_. Some [], peer_FromContext = \<lambda>_. None\<rparr>" and
        ctx = "Background :: unit go_context" and s = "fresh_world (demo_client, 0)" and m = "''/svc/M''" and
        req = "''req''"]
  by simp

end
