(* ===== verification/Gcra.thy ===== *)
theory Gcra
  imports Complex_Main Prelude
begin

text \<open>
  The rate limiter's core: the Lua script \<^verbatim>\<open>luaGCRA\<close> of \<^verbatim>\<open>server/middleware/ratelimit.go\<close>, the
  Generic Cell Rate Algorithm run inside Redis.  Times are seconds, as exact rationals where
  Lua computes with doubles.  The replies of Redis to \<^verbatim>\<open>TIME\<close> and \<^verbatim>\<open>GET\<close> are inputs of the
  script; its result is the returned integer and the \<^verbatim>\<open>SET ... EX\<close> it issues, if any.
\<close>

section \<open>The script\<close>

definition now_ts_of :: "int \<Rightarrow> int \<Rightarrow> rat" where
  "now_ts_of now_sec now_usec = of_int now_sec + of_int now_usec / 1000000"

definition emission_interval :: "int \<Rightarrow> rat \<Rightarrow> rat" where
  "emission_interval rate period = period / of_int rate"

text \<open>The theoretical arrival time the script works with: never in the past.\<close>

definition effective_tat :: "rat \<Rightarrow> rat option \<Rightarrow> rat" where
  "effective_tat now_ts got = max now_ts (case got of None \<Rightarrow> now_ts | Some v \<Rightarrow> v)"

definition luaGCRA :: "int \<Rightarrow> rat \<Rightarrow> int \<Rightarrow> rat \<Rightarrow> rat option \<Rightarrow> int \<times> (rat \<times> int) option" where
  "luaGCRA rate period burst now_ts got =
     (let interval = emission_interval rate period;
          tat = effective_tat now_ts got;
          new_tat = tat + interval;
          allow_at = new_tat - of_int burst * interval
      in if allow_at \<le> now_ts then (-1, Some (new_tat, \<lceil>period * 2\<rceil>))
         else (\<lceil>allow_at - now_ts\<rceil>, None))"

section \<open>A sequence of calls on one key\<close>

text \<open>
  Redis answers a sequence of calls on one key.  \<open>live\<close> is what \<^verbatim>\<open>GET\<close> returns at time \<open>now\<close>
  from a cell that holds a value and the time it expires; \<open>cell_after\<close> is the cell once the
  script's \<^verbatim>\<open>SET ... EX\<close> is done.  \<open>redis_replies\<close> is the assumption on Redis: its clock does
  not go back, and \<^verbatim>\<open>GET\<close> returns the last value set until its expiry and nothing after.
\<close>

type_synonym cell = "(rat \<times> rat) option"

definition live :: "cell \<Rightarrow> rat \<Rightarrow> rat option" where
  "live c now = (case c of None \<Rightarrow> None | Some (v, expires) \<Rightarrow> if now < expires then Some v else None)"

definition cell_after :: "cell \<Rightarrow> rat \<Rightarrow> (rat \<times> int) option \<Rightarrow> cell" where
  "cell_after c now w = (case w of None \<Rightarrow> c | Some (v, ttl) \<Rightarrow> Some (v, now + of_int ttl))"

fun redis_replies :: "int \<Rightarrow> rat \<Rightarrow> int \<Rightarrow> cell \<Rightarrow> rat \<Rightarrow> (rat \<times> rat option) list \<Rightarrow> bool" where
  "redis_replies rate period burst c t [] = True"
| "redis_replies rate period burst c t ((now, got) # rs) =
     (t \<le> now \<and> got = live c now \<and>
      redis_replies rate period burst
        (cell_after c now (snd (luaGCRA rate period burst now got))) now rs)"

text \<open>The calls that the script lets through: their time and the arrival time they set.\<close>

fun grants :: "int \<Rightarrow> rat \<Rightarrow> int \<Rightarrow> (rat \<times> rat option) list \<Rightarrow> (rat \<times> rat) list" where
  "grants rate period burst [] = []"
| "grants rate period burst ((now, got) # rs) =
     (case luaGCRA rate period burst now got of
        (_, Some (v, _)) \<Rightarrow> (now, v) # grants rate period burst rs
      | (_, None) \<Rightarrow> grants rate period burst rs)"

section \<open>One call\<close>

lemma luaGCRA_allow:
  "luaGCRA rate period burst now got = (r, Some (v, ttl)) \<longleftrightarrow>
     r = -1 \<and> v = effective_tat now got + emission_interval rate period \<and> ttl = \<lceil>period * 2\<rceil> \<and>
     v - of_int burst * emission_interval rate period \<le> now"
  by (auto simp: luaGCRA_def Let_def split: if_splits)

lemma luaGCRA_deny:
  "luaGCRA rate period burst now got = (r, None) \<longleftrightarrow>
     now < effective_tat now got + emission_interval rate period - of_int burst * emission_interval rate period \<and>
     r = \<lceil>effective_tat now got + emission_interval rate period
          - of_int burst * emission_interval rate period - now\<rceil>"
  by (auto simp: luaGCRA_def Let_def split: if_splits)

lemma effective_tat_ge: "now \<le> effective_tat now got"
  by (simp add: effective_tat_def)

lemma effective_tat_Some [simp]: "effective_tat now (Some v) = max now v"
  by (simp add: effective_tat_def)

lemma effective_tat_None [simp]: "effective_tat now None = now"
  by (simp add: effective_tat_def)

section \<open>The rate bound\<close>

text \<open>
  \<open>behind c now v\<close>: the arrival time \<open>v\<close> of an earlier grant is still respected at \<open>now\<close>,
  because the cell holds it or because it has passed.
\<close>

definition behind :: "cell \<Rightarrow> rat \<Rightarrow> rat \<Rightarrow> bool" where
  "behind c t v \<longleftrightarrow> (\<forall>now \<ge> t. v \<le> effective_tat now (live c now))"

lemma behind_after_grant:
  assumes "0 < rate" "0 < period" "burst \<le> 2 * rate"
    and "luaGCRA rate period burst now got = (r, Some (v, ttl))"
  shows "behind (cell_after c now (Some (v, ttl))) now v"
proof -
  have "of_int burst * emission_interval rate period \<le> period * 2"
    using assms(1-3) by (simp add: emission_interval_def field_simps mult_left_mono flip: of_int_mult)
  also have "\<dots> \<le> of_int ttl" using assms(4) by (simp add: luaGCRA_allow)
  finally have "v \<le> now + of_int ttl" using assms(4) by (simp add: luaGCRA_allow)
  then show ?thesis by (auto simp: behind_def live_def cell_after_def)
qed

lemma behind_later: "behind c t v \<Longrightarrow> t \<le> t' \<Longrightarrow> behind c t' v"
  by (meson behind_def order_trans)

fun spaced_by :: "rat \<Rightarrow> rat \<Rightarrow> (rat \<times> rat) list \<Rightarrow> bool" where
  "spaced_by i v [] = True"
| "spaced_by i v ((t, w) # gs) = (v + i \<le> w \<and> spaced_by i w gs)"

lemma spaced_by_weaken: "spaced_by i v gs \<Longrightarrow> v' \<le> v \<Longrightarrow> spaced_by i v' gs"
  by (cases gs) auto

lemma grants_within:
  "(t, v) \<in> set (grants rate period burst rs) \<Longrightarrow>
   t + emission_interval rate period \<le> v \<and> v \<le> t + of_int burst * emission_interval rate period"
proof (induction rs)
  case (Cons x rs)
  obtain now got r w where x: "x = (now, got)" and out: "luaGCRA rate period burst now got = (r, w)"
    by (metis surj_pair)
  show ?case
  proof (cases w)
    case None
    with Cons x out show ?thesis by simp
  next
    case (Some p)
    obtain v' ttl where "p = (v', ttl)" by fastforce
    with Some out have a: "luaGCRA rate period burst now got = (r, Some (v', ttl))" by simp
    then have "now + emission_interval rate period \<le> v' \<and>
        v' \<le> now + of_int burst * emission_interval rate period"
      using effective_tat_ge [of now got] by (simp add: luaGCRA_allow algebra_simps)
    with Cons x a show ?thesis by auto
  qed
qed simp

lemma grants_spaced:
  assumes "0 < rate" "0 < period" "burst \<le> 2 * rate"
  shows "redis_replies rate period burst c t rs \<Longrightarrow> behind c t v \<Longrightarrow>
    spaced_by (emission_interval rate period) v (grants rate period burst rs)"
proof (induction rs arbitrary: c t v)
  case (Cons x rs)
  obtain now got where x: "x = (now, got)" by fastforce
  with Cons.prems have t: "t \<le> now" and got: "got = live c now" by simp_all
  show ?case
  proof (cases "luaGCRA rate period burst now got")
    case (Pair r w)
    show ?thesis
    proof (cases w)
      case None
      with Pair Cons.prems(1) x have "redis_replies rate period burst c now rs"
        by (simp add: cell_after_def)
      from Cons.IH [OF this behind_later [OF Cons.prems(2) t]] None Pair x show ?thesis by simp
    next
      case (Some p)
      obtain w' ttl where p: "p = (w', ttl)" by fastforce
      have out: "luaGCRA rate period burst now got = (r, Some (w', ttl))" using Pair Some p by simp
      have "v \<le> effective_tat now got" using Cons.prems(2) t got by (simp add: behind_def)
      then have "v + emission_interval rate period \<le> w'" using out by (simp add: luaGCRA_allow)
      moreover have "redis_replies rate period burst (cell_after c now (Some (w', ttl))) now rs"
        using Cons.prems(1) x out by simp
      ultimately show ?thesis
        using Cons.IH behind_after_grant [OF assms out] x out by auto
    qed
  qed
qed simp

lemma spaced_by_nth:
  "spaced_by i v gs \<Longrightarrow> k < length gs \<Longrightarrow> v + of_nat (Suc k) * i \<le> snd (gs ! k)"
proof (induction gs arbitrary: v k)
  case (Cons g gs)
  obtain t w where g: "g = (t, w)" by fastforce
  show ?case
  proof (cases k)
    case 0
    with Cons.prems g show ?thesis by simp
  next
    case (Suc k')
    with Cons g have "w + of_nat (Suc k') * i \<le> snd (gs ! k')" by simp
    with Cons.prems g Suc show ?thesis by (simp add: algebra_simps)
  qed
qed simp

lemma spaced_by_between:
  "spaced_by i v gs \<Longrightarrow> j < length gs \<Longrightarrow> k \<le> j \<Longrightarrow> snd (gs ! k) + of_nat (j - k) * i \<le> snd (gs ! j)"
proof (induction gs arbitrary: v j k)
  case (Cons g gs)
  obtain t w where g: "g = (t, w)" by fastforce
  show ?case
  proof (cases k)
    case 0
    with Cons.prems g spaced_by_nth [of i w gs "j - 1"] show ?thesis by (cases j) auto
  next
    case (Suc k')
    with Cons.prems g Cons.IH [of w "j - 1" k'] show ?thesis by (cases j) auto
  qed
qed simp

lemma behind_None: "behind None t t"
  by (simp add: behind_def live_def)

lemma rate_bound:
  assumes "0 < rate" "0 < period" "burst \<le> 2 * rate"
    and "redis_replies rate period burst None t rs"
    and "k \<le> j" "j < length (grants rate period burst rs)"
  shows "of_nat (Suc (j - k)) * emission_interval rate period \<le>
    of_int burst * emission_interval rate period +
      (fst (grants rate period burst rs ! j) - fst (grants rate period burst rs ! k))"
proof -
  let ?gs = "grants rate period burst rs" and ?i = "emission_interval rate period"
  have "spaced_by ?i t ?gs" using grants_spaced [OF assms(1-4) behind_None] .
  from spaced_by_between [OF this assms(6,5)] have
    1: "snd (?gs ! k) + of_nat (j - k) * ?i \<le> snd (?gs ! j)" .
  have 2: "fst (?gs ! k) + ?i \<le> snd (?gs ! k)" "snd (?gs ! j) \<le> fst (?gs ! j) + of_int burst * ?i"
    using grants_within [of "fst (?gs ! k)" "snd (?gs ! k)" rate period burst rs]
      grants_within [of "fst (?gs ! j)" "snd (?gs ! j)" rate period burst rs] assms(5,6) by auto
  from 1 2 show ?thesis by (simp add: algebra_simps)
qed

section \<open>Retry-After and bursts\<close>

lemma interval_pos: "0 < rate \<Longrightarrow> 0 < period \<Longrightarrow> 0 < emission_interval rate period"
  by (simp add: emission_interval_def)

lemma deny_until:
  assumes "0 < rate" "0 < period" "1 \<le> burst" "luaGCRA rate period burst now got = (r, None)" "now \<le> now'"
  shows "(\<exists>w. luaGCRA rate period burst now' got = (-1, Some w)) \<longleftrightarrow>
    effective_tat now got + emission_interval rate period - of_int burst * emission_interval rate period \<le> now'"
proof -
  let ?i = "emission_interval rate period"
  have b: "?i \<le> of_int burst * ?i"
    using assms(3) interval_pos [OF assms(1,2)] mult_right_mono [of 1 "of_int burst" ?i] by simp
  have "now < effective_tat now got + ?i - of_int burst * ?i" using assms(4) by (simp add: luaGCRA_deny)
  with b obtain v where v: "got = Some v" "now < v"
    by (cases got) (auto simp: effective_tat_def max_def split: if_splits)
  have "(\<exists>w. luaGCRA rate period burst now' got = (-1, Some w)) \<longleftrightarrow> max now' v + ?i - of_int burst * ?i \<le> now'"
    using v by (auto simp: luaGCRA_def Let_def)
  also have "\<dots> \<longleftrightarrow> v + ?i - of_int burst * ?i \<le> now'" using b by (auto simp: max_def)
  finally show ?thesis using v assms(5) by (simp add: max_def)
qed

lemma rate_bound_quotient:
  assumes "0 < rate" and "0 < period" and "burst \<le> 2 * rate"
    and "redis_replies rate period burst None t rs"
    and "k \<le> j" and "j < length (grants rate period burst rs)"
  shows "of_nat (Suc (j - k)) \<le> of_int burst +
     (fst (grants rate period burst rs ! j) - fst (grants rate period burst rs ! k)) * of_int rate / period"
proof -
  have "n \<le> b + d / i" if "n * i \<le> b * i + d" "0 < i" for n b d i :: rat
    using that by (simp add: field_simps)
  from this [OF rate_bound [OF assms] interval_pos [OF assms(1,2)]] show ?thesis
    by (simp add: emission_interval_def)
qed

text \<open>The replies of Redis to calls at given times, for concrete runs.\<close>

fun redis_run :: "int \<Rightarrow> rat \<Rightarrow> int \<Rightarrow> cell \<Rightarrow> rat list \<Rightarrow> (rat \<times> rat option) list" where
  "redis_run rate period burst c [] = []"
| "redis_run rate period burst c (now # ts) =
     (now, live c now) # redis_run rate period burst
        (cell_after c now (snd (luaGCRA rate period burst now (live c now)))) ts"

lemma redis_run_replies: "sorted (t # ts) \<Longrightarrow> redis_replies rate period burst c t (redis_run rate period burst c ts)"
  by (induction ts arbitrary: c t) auto

lemma burst_from:
  assumes "0 < rate" "0 < period"
  shows "redis_replies rate period burst c t rs \<Longrightarrow> \<forall>x \<in> set rs. fst x = t \<Longrightarrow>
    effective_tat t (live c t) = t + of_nat m * emission_interval rate period \<Longrightarrow> int m \<le> burst \<Longrightarrow>
    length (grants rate period burst rs) = min (length rs) (nat burst - m)"
proof (induction rs arbitrary: c m)
  case (Cons x rs)
  let ?i = "emission_interval rate period"
  define got where "got = live c t"
  have x: "x = (t, got)" using Cons.prems(1,2) by (cases x) (simp add: got_def)
  have tat: "effective_tat t got = t + of_nat m * ?i" using Cons.prems(3) by (simp add: got_def)
  have key: "t + of_nat m * ?i + ?i - of_int burst * ?i \<le> t \<longleftrightarrow> int m < burst"
  proof -
    have "t + of_nat m * ?i + ?i - of_int burst * ?i \<le> t \<longleftrightarrow> of_int (int m + 1) * ?i \<le> of_int burst * ?i"
      by (simp add: algebra_simps)
    also have "\<dots> \<longleftrightarrow> int m + 1 \<le> burst"
      using interval_pos [OF assms] by (simp only: mult_le_cancel_right of_int_le_iff) auto
    finally show ?thesis by auto
  qed
  show ?case
  proof (cases "int m < burst")
    case True
    let ?w = "(t + of_nat m * ?i + ?i, \<lceil>period * 2\<rceil>)"
    have out: "luaGCRA rate period burst t got = (-1, Some ?w)"
      using key True by (simp add: luaGCRA_def Let_def tat)
    have "redis_replies rate period burst (cell_after c t (Some ?w)) t rs"
      using Cons.prems(1) x out by simp
    moreover have "effective_tat t (live (cell_after c t (Some ?w)) t) = t + of_nat (Suc m) * ?i"
      using assms interval_pos [OF assms] by (simp add: cell_after_def live_def algebra_simps)
    ultimately have "length (grants rate period burst rs) = min (length rs) (nat burst - Suc m)"
      using Cons.IH [of _ "Suc m"] Cons.prems(2) True by auto
    with x out True show ?thesis by auto
  next
    case False
    then have out: "\<exists>r. luaGCRA rate period burst t got = (r, None)"
      using key by (simp add: luaGCRA_def Let_def tat)
    then have "redis_replies rate period burst c t rs" using Cons.prems(1) x by (auto simp: cell_after_def)
    from Cons.IH [OF this _ Cons.prems(3,4)] Cons.prems(2) have
      "length (grants rate period burst rs) = min (length rs) (nat burst - m)" by simp
    with x out False Cons.prems(4) show ?thesis by auto
  qed
qed simp

section \<open>Properties\<close>

text \<open>
  C25. \<^verbatim>\<open>Retry-After\<close> is exact: when the script denies a call with \<open>r\<close>, then \<open>r\<close> is at least one
  second; while the stored time stays, every call up to \<open>r - 1\<close> seconds later is denied too;
  and a call \<open>r\<close> or more seconds later is let through, whether the key still holds its value
  or has expired.
\<close>

theorem retry_after_exact:
  assumes "0 < rate" and "0 < period" and "1 \<le> burst" and "luaGCRA rate period burst now got = (r, None)"
  shows "1 \<le> r \<and>
     (\<forall>now'. now \<le> now' \<and> now' \<le> now + of_int (r - 1) \<longrightarrow> snd (luaGCRA rate period burst now' got) = None) \<and>
     (\<forall>now' got'. now + of_int r \<le> now' \<and> (got' = got \<or> got' = None) \<longrightarrow>
        fst (luaGCRA rate period burst now' got') = -1)"
proof -
  let ?i = "emission_interval rate period"
  let ?at = "effective_tat now got + ?i - of_int burst * ?i"
  have d: "now < ?at" "r = \<lceil>?at - now\<rceil>" using assms(4) by (simp_all add: luaGCRA_deny)
  then have r: "1 \<le> r" "now + of_int (r - 1) < ?at" "?at \<le> now + of_int r" by linarith+
  have early: "snd (luaGCRA rate period burst now' got) = None"
    if "now \<le> now'" "now' \<le> now + of_int (r - 1)" for now'
  proof (rule ccontr)
    assume "snd (luaGCRA rate period burst now' got) \<noteq> None"
    then obtain w where "luaGCRA rate period burst now' got = (-1, Some w)"
      by (cases "luaGCRA rate period burst now' got") (auto simp: luaGCRA_allow)
    with deny_until [OF assms that(1)] that(2) r(2) show False by auto
  qed
  have late: "fst (luaGCRA rate period burst now' got') = -1"
    if "now + of_int r \<le> now'" "got' = got \<or> got' = None" for now' got'
  proof (cases "got' = got")
    case True
    with deny_until [OF assms, of now'] that(1) r show ?thesis by force
  next
    case False
    have "?i \<le> of_int burst * ?i"
      using assms(3) interval_pos [OF assms(1,2)] mult_right_mono [of 1 "of_int burst" ?i] by simp
    with False that show ?thesis by (simp add: luaGCRA_def Let_def)
  qed
  from r(1) early late show ?thesis by blast
qed

theorem retry_after_exact_witness:
  "luaGCRA 1 1 2 0 (Some 4) = (3, None) \<and> fst (luaGCRA 1 1 2 3 (Some 4)) = -1"
proof -
  have d: "luaGCRA 1 1 2 0 (Some 4) = (3, None)" by (simp add: luaGCRA_def emission_interval_def)
  from retry_after_exact [OF _ _ _ d] d show ?thesis by auto
qed

text \<open>
  A fresh key admits exactly \<^verbatim>\<open>burst\<close> calls at one instant: of any number of simultaneous
  calls the script lets through the first \<^verbatim>\<open>burst\<close> and denies the rest.
\<close>

lemma burst_at_once:
  assumes "0 < rate" and "0 < period" and "0 \<le> burst"
    and "redis_replies rate period burst None t rs" and "\<forall>x \<in> set rs. fst x = t"
  shows "length (grants rate period burst rs) = min (length rs) (nat burst)"
  using burst_from [OF assms(1,2,4,5), of 0] assms(3) by (simp add: live_def)

text \<open>
  With a burst above twice the rate the key expires before the arrival time it stores has
  passed, and the limiter forgets: at one call per second with a burst of four, eight calls
  pass within two seconds, where the rate bound would give six.
\<close>

lemma gcra_forgets_large_burst:
  "redis_replies 1 1 4 None 0 (redis_run 1 1 4 None [0, 0, 0, 0, 2, 2, 2, 2]) \<and>
   length (grants 1 1 4 (redis_run 1 1 4 None [0, 0, 0, 0, 2, 2, 2, 2])) = 8"
  by (simp add: luaGCRA_def emission_interval_def live_def cell_after_def effective_tat_def)

end
