(* ===== verification/Rate_Limit.thy ===== *)
theory Rate_Limit
  imports Gcra Grpc
begin

text \<open>
  \<^verbatim>\<open>server/middleware/ratelimit.go\<close> and \<^verbatim>\<open>grpc_ratelimit.go\<close>: the rate limiting middleware and
  interceptor around the script \<open>luaGCRA\<close>.  Running a script on Redis, the token bucket of
  \<^verbatim>\<open>golang.org/x/time/rate\<close> and \<^verbatim>\<open>grpc.SetHeader\<close> are the fields of \<open>limiter_env\<close>.
\<close>

section \<open>The client's address\<close>

definition index_of :: "char \<Rightarrow> string \<Rightarrow> nat option" where
  "index_of c s = (if c \<in> set s then Some (length (takeWhile (\<lambda>x. x \<noteq> c) s)) else None)"

definition last_index_of :: "char \<Rightarrow> string \<Rightarrow> nat option" where
  "last_index_of c s = map_option (\<lambda>i. length s - 1 - i) (index_of c (rev s))"

text \<open>\<^verbatim>\<open>net.SplitHostPort\<close>: host and port, or \<^term>\<open>None\<close> for its errors.\<close>

definition SplitHostPort :: "string \<Rightarrow> (string \<times> string) option" where
  "SplitHostPort hostport =
     (case last_index_of (CHR '':'') hostport of
        None \<Rightarrow> None
      | Some i \<Rightarrow>
          if hd hostport = CHR ''[''
          then (case index_of (CHR '']'') hostport of
                  None \<Rightarrow> None
                | Some e \<Rightarrow>
                    if e + 1 \<noteq> i \<or> CHR ''['' \<in> set (drop 1 hostport) \<or> CHR '']'' \<in> set (drop (e + 1) hostport)
                    then None
                    else Some (drop 1 (take e hostport), drop (i + 1) hostport))
          else (let host = take i hostport
                in if CHR '':'' \<in> set host \<or> CHR ''['' \<in> set hostport \<or> CHR '']'' \<in> set hostport then None
                   else Some (host, drop (i + 1) hostport)))"

definition getRealIP :: "'b request \<Rightarrow> string" where
  "getRealIP r =
     (let xForwardedFor = Header_Get (Header r) ''X-Forwarded-For'';
          xRealIP = Header_Get (Header r) ''X-Real-Ip''
      in if xForwardedFor \<noteq> [] then trim_space (hd (split_on (CHR '','') xForwardedFor))
         else if xRealIP \<noteq> [] then xRealIP
         else (case SplitHostPort (RemoteAddr r) of None \<Rightarrow> RemoteAddr r | Some (host, port) \<Rightarrow> host))"

text \<open>\<^verbatim>\<open>%v\<close> of a context value.\<close>

definition value_text :: "ctx_value \<Rightarrow> string" where
  "value_text v =
     (case v of VString s \<Rightarrow> s | VInt i \<Rightarrow> itoa i
      | VStrings ss \<Rightarrow> ''['' @ join_with (CHR '' '') ss @ '']'' | VOther t \<Rightarrow> t)"

definition http_identity :: "'b request \<Rightarrow> string" where
  "http_identity r =
     (case Value (Context r) AuthPrincipalIDKey of
        Some user \<Rightarrow> ''user:'' @ value_text user
      | None \<Rightarrow> ''ip:'' @ getRealIP r)"

definition http_limit_key :: "'b request \<Rightarrow> string" where
  "http_limit_key r = ''rl:'' @ http_identity r"

text \<open>
  An anonymous client chooses its own bucket: the key is whatever single name it puts into
  \<^verbatim>\<open>X-Forwarded-For\<close>, wherever the request comes from.
\<close>

lemma forwarded_for_chooses_key:
  assumes "Value (Context r) AuthPrincipalIDKey = None" and "Header_Get (Header r) ''X-Forwarded-For'' = name"
    and "name \<noteq> []" and "CHR '','' \<notin> set name" and "trim_space name = name"
  shows "http_limit_key r = ''rl:ip:'' @ name"
  using assms by (simp add: http_limit_key_def http_identity_def getRealIP_def split_on_no_sep)

section \<open>The emergency limiter\<close>

text \<open>
  \<^verbatim>\<open>rate.NewLimiter(rate.Limit(rps*2), burst*2)\<close>, by its two numbers.  \<open>init_limiter\<close> is the
  \<^verbatim>\<open>limiterOnce.Do\<close> on the package variable, which every construction of the middleware runs.
\<close>

definition init_limiter :: "int \<Rightarrow> int \<Rightarrow> (int \<times> int) option \<Rightarrow> (int \<times> int) option" where
  "init_limiter rps burst emergency =
     (case emergency of None \<Rightarrow> Some (i64 (rps * 2), i64 (burst * 2)) | Some l \<Rightarrow> Some l)"

record 'x limiter_env =
  run_script :: "string \<Rightarrow> int \<Rightarrow> rat \<Rightarrow> int \<Rightarrow> 'x \<Rightarrow> (go_error + int) \<times> 'x"
  limiter_Allow :: "(int \<times> int) \<Rightarrow> 'x \<Rightarrow> bool \<times> 'x"
  grpc_SetHeader :: "metadata \<Rightarrow> 'x \<Rightarrow> 'x"

text \<open>\<^verbatim>\<open>period.Seconds()\<close>.\<close>

definition seconds :: "duration \<Rightarrow> rat" where
  "seconds d = of_int d / of_int second"

section \<open>The HTTP middleware\<close>

definition RateLimitMiddleware ::
  "'x limiter_env \<Rightarrow> (int \<times> int) \<Rightarrow> int \<Rightarrow> int \<Rightarrow> duration \<Rightarrow> ('b, 'x) middleware" where
  "RateLimitMiddleware env emergency rps burst period next = (\<lambda>(w, r) s.
     if rps \<le> 0 then next (w, r) s
     else (case call_ext (run_script env (http_limit_key r) rps (seconds period) burst) s of
             (Inl err, s1) \<Rightarrow>
               (case call_ext (limiter_Allow env emergency) s1 of
                  (allowed, s2) \<Rightarrow>
                    if \<not> allowed
                    then http_Error w ''Service Unavailable (Rate Limit Fallback)'' 503
                           (UpdateHeader w (Header_Set ''X-RateLimit-Fallback'' ''true'') s2)
                    else next (w, r) s2)
           | (Inr res, s1) \<Rightarrow>
               if res \<ge> 0
               then http_Error w ''Rate limit exceeded'' 429
                      (UpdateHeader w (Header_Set ''X-RateLimit-Limit'' (itoa rps))
                        (UpdateHeader w (Header_Set ''Retry-After'' (itoa res)) s1))
               else next (w, r) (UpdateHeader w (Header_Set ''X-RateLimit-Limit'' (itoa rps)) s1)))"

definition http_limit_decide ::
  "'x limiter_env \<Rightarrow> (int \<times> int) \<Rightarrow> int \<Rightarrow> int \<Rightarrow> duration \<Rightarrow>
   ('x world writer \<times> 'b request, 'x world, unit go_result) guard" where
  "http_limit_decide env emergency rps burst period = (\<lambda>(w, r) s.
     let stop = (\<lambda>(res, s'). (Stop res, s'))
     in if rps \<le> 0 then (Pass (w, r), s)
        else (case call_ext (run_script env (http_limit_key r) rps (seconds period) burst) s of
                (Inl err, s1) \<Rightarrow>
                  (case call_ext (limiter_Allow env emergency) s1 of
                     (allowed, s2) \<Rightarrow>
                       if \<not> allowed
                       then stop (http_Error w ''Service Unavailable (Rate Limit Fallback)'' 503
                              (UpdateHeader w (Header_Set ''X-RateLimit-Fallback'' ''true'') s2))
                       else (Pass (w, r), s2))
              | (Inr res, s1) \<Rightarrow>
                  if res \<ge> 0
                  then stop (http_Error w ''Rate limit exceeded'' 429
                         (UpdateHeader w (Header_Set ''X-RateLimit-Limit'' (itoa rps))
                           (UpdateHeader w (Header_Set ''Retry-After'' (itoa res)) s1)))
                  else (Pass (w, r), UpdateHeader w (Header_Set ''X-RateLimit-Limit'' (itoa rps)) s1)))"

interpretation http_limit: gate "RateLimitMiddleware env emergency rps burst period"
  "http_limit_decide env emergency rps burst period"
  by unfold_locales
    (simp add: RateLimitMiddleware_def http_limit_decide_def Let_def split: prod.splits sum.splits)

section \<open>The gRPC interceptor\<close>

definition grpc_identity :: "'b grpc_lib \<Rightarrow> 'b go_context \<Rightarrow> string" where
  "grpc_identity lib ctx =
     (case Value ctx AuthPrincipalIDKey of
        Some user \<Rightarrow> ''user:'' @ value_text user
      | None \<Rightarrow> (case peer_FromContext lib (foreign ctx) of Some addr \<Rightarrow> ''ip:'' @ addr | None \<Rightarrow> ''ip:unknown''))"

definition grpc_limit_key :: "'b grpc_lib \<Rightarrow> 'b go_context \<Rightarrow> string" where
  "grpc_limit_key lib ctx = ''rl:grpc:'' @ grpc_identity lib ctx"

definition GRPCRateLimitInterceptor ::
  "'b grpc_lib \<Rightarrow> 'x limiter_env \<Rightarrow> int \<Rightarrow> int \<Rightarrow> duration \<Rightarrow> ('b, 'q, 'r, 'x) unary \<Rightarrow> ('b, 'q, 'r, 'x) unary" where
  "GRPCRateLimitInterceptor lib env rate burst period handler = (\<lambda>(ctx, req) s.
     if rate \<le> 0 then handler (ctx, req) s
     else (case call_ext (run_script env (grpc_limit_key lib ctx) rate (seconds period) burst) s of
             (Inl err, s1) \<Rightarrow> handler (ctx, req) s1
           | (Inr res, s1) \<Rightarrow>
               if res \<ge> 0
               then (let retryAfter = itoa res;
                         header = [(''x-retry-after'', [retryAfter]), (''x-ratelimit-limit'', [itoa rate])]
                     in (Ok (grpc_fail ResourceExhausted (''rate limit exceeded, retry in '' @ retryAfter @ '' seconds'')),
                         s1\<lparr>ext := grpc_SetHeader env header (ext s1)\<rparr>))
               else handler (ctx, req) s1))"

definition grpc_limit_decide ::
  "'b grpc_lib \<Rightarrow> 'x limiter_env \<Rightarrow> int \<Rightarrow> int \<Rightarrow> duration \<Rightarrow>
   ('b go_context \<times> 'q, 'x world, 'r grpc_result go_result) guard" where
  "grpc_limit_decide lib env rate burst period = (\<lambda>(ctx, req) s.
     if rate \<le> 0 then (Pass (ctx, req), s)
     else (case call_ext (run_script env (grpc_limit_key lib ctx) rate (seconds period) burst) s of
             (Inl err, s1) \<Rightarrow> (Pass (ctx, req), s1)
           | (Inr res, s1) \<Rightarrow>
               if res \<ge> 0
               then (Stop (Ok (grpc_fail ResourceExhausted (''rate limit exceeded, retry in '' @ itoa res @ '' seconds''))),
                     s1\<lparr>ext := grpc_SetHeader env
                       [(''x-retry-after'', [itoa res]), (''x-ratelimit-limit'', [itoa rate])] (ext s1)\<rparr>)
               else (Pass (ctx, req), s1)))"

interpretation grpc_limit: gate "GRPCRateLimitInterceptor lib env rate burst period"
  "grpc_limit_decide lib env rate burst period"
  by unfold_locales
    (simp add: GRPCRateLimitInterceptor_def grpc_limit_decide_def Let_def split: prod.splits sum.splits)

section \<open>Requests of one client\<close>

text \<open>
  What the middleware relies on when Redis answers: the script runs on the clock and on the
  cell of its key, and stores what it sets there.  Times are those of the clock that the script
  reads; it does not advance while the script runs.
\<close>

definition script_contract :: "('x \<Rightarrow> rat) \<Rightarrow> (string \<Rightarrow> 'x \<Rightarrow> cell) \<Rightarrow> 'x limiter_env \<Rightarrow> bool" where
  "script_contract now cell_of env \<longleftrightarrow>
     (\<forall>k rate p b x. \<exists>x'.
        run_script env k rate p b x = (Inr (fst (luaGCRA rate p b (now x) (live (cell_of k x) (now x)))), x') \<and>
        cell_of k x' = cell_after (cell_of k x) (now x)
          (snd (luaGCRA rate p b (now x) (live (cell_of k x) (now x)))) \<and> now x' = now x)"

text \<open>
  A request of the client, its handler, and what everyone else does before it.  \<open>starts\<close> lists
  the times at which handlers of this client started; only the limiter uses the client's cell.
\<close>

definition same_client ::
  "('x \<Rightarrow> rat) \<Rightarrow> (string \<Rightarrow> 'x \<Rightarrow> cell) \<Rightarrow> ('x \<Rightarrow> rat list) \<Rightarrow> string \<Rightarrow>
   ('x world \<Rightarrow> 'x world) \<times> ('b, 'x) handler \<times> 'x world writer \<times> 'b request \<Rightarrow> bool" where
  "same_client now cell_of starts key = (\<lambda>(env_step, handler, w, r). w = server_writer \<and> http_limit_key r = key \<and>
     (\<forall>s. cell_of key (ext (env_step s)) = cell_of key (ext s) \<and> now (ext s) \<le> now (ext (env_step s)) \<and>
        starts (ext (env_step s)) = starts (ext s)) \<and>
     (\<forall>a s. cell_of key (ext (snd (handler a s))) = cell_of key (ext s) \<and> now (ext s) \<le> now (ext (snd (handler a s))) \<and>
        starts (ext (snd (handler a s))) = starts (ext s) @ [now (ext s)]))"

lemma redis_replies_earlier:
  "redis_replies rate p b c t qs \<Longrightarrow> t' \<le> t \<Longrightarrow> redis_replies rate p b c t' qs"
  by (cases qs) auto

lemma luaGCRA_sign:
  "0 < rate \<Longrightarrow> 0 < p \<Longrightarrow> fst (luaGCRA rate p b now got) < 0 \<longleftrightarrow> snd (luaGCRA rate p b now got) \<noteq> None"
  by (auto simp: luaGCRA_def Let_def)

text \<open>What one request does to the state outside the connection when Redis answers with \<open>n\<close>.\<close>

lemma limited_call:
  assumes "0 < rps" and "http_limit_key r = key"
    and "run_script env key rps (seconds period) burst (ext s) = (Inr n, x')"
  shows "if n < 0
    then \<exists>s'. ext s' = x' \<and> RateLimitMiddleware env em rps burst period handler (server_writer, r) s = handler (server_writer, r) s'
    else ext (snd (RateLimitMiddleware env em rps burst period handler (server_writer, r) s)) = x'"
proof (cases "n < 0")
  case True
  let ?s = "UpdateHeader server_writer (Header_Set ''X-RateLimit-Limit'' (itoa rps)) (s\<lparr>ext := x'\<rparr>)"
  from True assms have "RateLimitMiddleware env em rps burst period handler (server_writer, r) s = handler (server_writer, r) ?s"
    by (auto simp: RateLimitMiddleware_def call_ext_def)
  moreover have "ext ?s = x'" by simp
  ultimately show ?thesis using True by metis
next
  case False
  with assms ext_http_Error show ?thesis by (auto simp: RateLimitMiddleware_def call_ext_def Let_def)
qed

lemma limited_call_effect:
  assumes "script_contract now cell_of env" and "\<forall>k rate p b x. starts (snd (run_script env k rate p b x)) = starts x"
    and "0 < rps" and "0 < seconds period" and "same_client now cell_of starts key (g, handler, server_writer, r)"
    and "out = luaGCRA rps (seconds period) burst (now (ext s)) (live (cell_of key (ext s)) (now (ext s)))"
    and "s' = snd (RateLimitMiddleware env em rps burst period handler (server_writer, r) s)"
  shows "cell_of key (ext s') = cell_after (cell_of key (ext s)) (now (ext s)) (snd out) \<and> now (ext s) \<le> now (ext s') \<and>
    starts (ext s') = starts (ext s) @ (if snd out \<noteq> None then [now (ext s)] else [])"
proof -
  from assms(1,6) obtain x' where x': "run_script env key rps (seconds period) burst (ext s) = (Inr (fst out), x')"
    "cell_of key x' = cell_after (cell_of key (ext s)) (now (ext s)) (snd out)" "now x' = now (ext s)"
    unfolding script_contract_def by blast
  with assms(2) have st: "starts x' = starts (ext s)" by (metis snd_conv)
  from assms(5) have key: "http_limit_key r = key" by (simp add: same_client_def)
  from assms(5) have h: "cell_of key (ext (snd (handler (server_writer, r) t))) = cell_of key (ext t) \<and>
      now (ext t) \<le> now (ext (snd (handler (server_writer, r) t))) \<and>
      starts (ext (snd (handler (server_writer, r) t))) = starts (ext t) @ [now (ext t)]" for t
    by (simp add: same_client_def)
  have sign: "fst out < 0 \<longleftrightarrow> snd out \<noteq> None" using luaGCRA_sign [OF assms(3,4)] assms(6) by simp
  show ?thesis
    using limited_call [OF assms(3) key x'(1), of em handler] assms(7) x'(2,3) st h sign
    by (cases "fst out < 0") (simp, metis, simp)
qed

lemma served_grants:
  assumes "script_contract now cell_of env" and "\<forall>k rate p b x. starts (snd (run_script env k rate p b x)) = starts x"
    and "0 < rps" and "0 < seconds period" and "\<forall>call \<in> set calls. same_client now cell_of starts key call"
  shows "\<exists>qs. redis_replies rps (seconds period) burst (cell_of key (ext s)) (now (ext s)) qs \<and>
    starts (ext (serve_all (RateLimitMiddleware env em rps burst period) calls s)) =
      starts (ext s) @ map fst (grants rps (seconds period) burst qs)"
  using assms(5)
proof (induction calls arbitrary: s)
  case Nil
  then show ?case by (intro exI [of _ "[]"]) simp
next
  case (Cons call calls)
  then obtain g handler r where call: "call = (g, handler, server_writer, r)"
    by (cases call) (auto simp: same_client_def)
  with Cons.prems have client: "same_client now cell_of starts key (g, handler, server_writer, r)" by simp
  then have g: "cell_of key (ext (g s)) = cell_of key (ext s)" "now (ext s) \<le> now (ext (g s))"
    "starts (ext (g s)) = starts (ext s)" by (auto simp: same_client_def)
  let ?got = "live (cell_of key (ext (g s))) (now (ext (g s)))"
  let ?s = "snd (RateLimitMiddleware env em rps burst period handler (server_writer, r) (g s))"
  note effect = limited_call_effect [OF assms(1-4) client refl refl, where burst = burst and s = "g s" and em = em]
  from Cons obtain qs where qs: "redis_replies rps (seconds period) burst (cell_of key (ext ?s)) (now (ext ?s)) qs"
    "starts (ext (serve_all (RateLimitMiddleware env em rps burst period) calls ?s)) =
       starts (ext ?s) @ map fst (grants rps (seconds period) burst qs)" by fastforce
  have "redis_replies rps (seconds period) burst (cell_of key (ext s)) (now (ext s)) ((now (ext (g s)), ?got) # qs)"
    using qs(1) effect g(1,2) redis_replies_earlier by simp
  moreover have "starts (ext (serve_all (RateLimitMiddleware env em rps burst period) (call # calls) s)) =
      starts (ext s) @ map fst (grants rps (seconds period) burst ((now (ext (g s)), ?got) # qs))"
    using call effect g(3) qs(2) by (auto split: prod.splits option.splits)
  ultimately show ?case by blast
qed

text \<open>A Redis that answers: a clock and the cells of its keys; beside it the application's list of starts.\<close>

type_synonym demo_state = "rat \<times> (string \<Rightarrow> cell) \<times> rat list"

definition demo_redis :: "demo_state limiter_env" where
  "demo_redis =
     \<lparr>run_script = (\<lambda>k rate p b (now, cells, ts).
        case luaGCRA rate p b now (live (cells k) now) of
          (res, stored) \<Rightarrow> (Inr res, (now, cells(k := cell_after (cells k) now stored), ts))),
      limiter_Allow = (\<lambda>_ x. (True, x)), grpc_SetHeader = (\<lambda>_ x. x)\<rparr>"

lemma demo_redis_contract: "script_contract fst (\<lambda>k x. fst (snd x) k) demo_redis"
  by (auto simp: script_contract_def demo_redis_def split: prod.splits)

definition from_proxy :: "string \<Rightarrow> unit request" where
  "from_proxy ip = \<lparr>Method = ''GET'', URL_Path = ''/'', Header = [(''X-Forwarded-For'', [ip])],
     RemoteAddr = ''10.0.0.1:80'', Context = Background\<rparr>"

section \<open>Properties\<close>


text \<open>A handler that notes when it starts and takes a tenth of a second.\<close>

definition noting_handler :: "(unit, demo_state) handler" where
  "noting_handler = (\<lambda>a s. (Ok (), s\<lparr>ext := (case ext s of (t, cells, ts) \<Rightarrow> (t + 1 / 10, cells, ts @ [t]))\<rparr>))"

definition proxy_call ::
  "(demo_state world \<Rightarrow> demo_state world) \<times> (unit, demo_state) handler \<times> demo_state world writer \<times> unit request" where
  "proxy_call = (id, noting_handler, server_writer, from_proxy ''1'')"


text \<open>
  What the HTTP limiter answers, on a response that has not started: a denial is status
  429 with \<^verbatim>\<open>Retry-After\<close> as the script returned it and \<^verbatim>\<open>X-RateLimit-Limit\<close>; when Redis fails and
  the emergency limiter refuses, status 503 with \<^verbatim>\<open>X-RateLimit-Fallback\<close>; in both cases the
  handler does not run.  In all other cases it runs exactly once, also when the limit is
  disabled by a rate of zero or less.
\<close>

lemma ratelimit_answers:
  assumes "sent (conn s) = None"
    and "run_script env (http_limit_key r) rps (seconds period) burst (ext s) = (res, x1)"
    and "limiter_Allow env em x1 = (allowed, x2)"
  shows "if 0 < rps \<and> (\<exists>n \<ge> 0. res = Inr n)
    then \<exists>h s'. (\<forall>next. RateLimitMiddleware env em rps burst period next (server_writer, r) s = (Ok (), s')) \<and>
      sent (conn s') = Some (429, h) \<and> Header_Get h ''Retry-After'' = itoa (projr res) \<and>
      Header_Get h ''X-RateLimit-Limit'' = itoa rps
    else if 0 < rps \<and> isl res \<and> \<not> allowed
    then \<exists>h s'. (\<forall>next. RateLimitMiddleware env em rps burst period next (server_writer, r) s = (Ok (), s')) \<and>
      sent (conn s') = Some (503, h) \<and> Header_Get h ''X-RateLimit-Fallback'' = ''true''
    else \<exists>s'. \<forall>next. RateLimitMiddleware env em rps burst period next (server_writer, r) s = next (server_writer, r) s'"
  using assms
  by (cases res)
    (auto simp: RateLimitMiddleware_def call_ext_def http_Error_server error_conn_def Let_def header_lookup)

lemma ratelimit_answers_witness:
  "\<exists>h s'. (\<forall>next. RateLimitMiddleware demo_redis (0, 0) 1 0 second next (server_writer, from_proxy ''1'')
         (fresh_world (7, \<lambda>_. None, [])) = (Ok (), s')) \<and>
      sent (conn s') = Some (429, h) \<and> Header_Get h ''Retry-After'' = ''1''"
proof -
  have run: "run_script demo_redis (http_limit_key (from_proxy ''1'')) 1 (seconds second) 0
      (ext (fresh_world (7, \<lambda>_. None, []))) = (Inr 1, (7, \<lambda>_. None, []))"
    by (simp add: demo_redis_def fresh_world_def luaGCRA_def live_def cell_after_def seconds_def
        emission_interval_def effective_tat_def Let_def fun_eq_iff)
  have "itoa 1 = ''1''" by (simp add: itoa_def dec_digits.simps char_of_def bit_simps bit_0)
  moreover have "limiter_Allow demo_redis (0, 0) (7, \<lambda>_. None, []) = (True, (7, \<lambda>_. None, []))"
    by (simp add: demo_redis_def)
  moreover have "sent (conn (fresh_world (7 :: rat, \<lambda>_ :: string. None :: cell, [] :: rat list))) = None"
    by (simp add: fresh_world_def new_conn_def)
  ultimately show ?thesis using ratelimit_answers [OF _ run, of "(0, 0)" True "(7, \<lambda>_. None, [])"] by auto
qed

text \<open>
  The gRPC limiter has no fallback: it refuses a call, with \<^verbatim>\<open>ResourceExhausted\<close> and the retry
  time as metadata, only when the script itself denies it; on every error of Redis the handler
  runs, without any limit.
\<close>

lemma grpc_ratelimit_fails_open:
  assumes "run_script env (grpc_limit_key lib ctx) rate (seconds period) burst (ext s) = (res, x')"
  shows "(0 < rate \<and> (\<exists>n \<ge> 0. res = Inr n) \<longrightarrow>
      (\<exists>msg. \<forall>handler. GRPCRateLimitInterceptor lib env rate burst period handler (ctx, req) s =
         (Ok \<lparr>reply = None, failure = Some (Status ResourceExhausted msg)\<rparr>,
          s\<lparr>ext := grpc_SetHeader env [(''x-retry-after'', [itoa (projr res)]), (''x-ratelimit-limit'', [itoa rate])] x'\<rparr>))) \<and>
    (isl res \<longrightarrow> (\<exists>s'. \<forall>handler. GRPCRateLimitInterceptor lib env rate burst period handler (ctx, req) s =
       handler (ctx, req) s'))"
  using assms
  by (cases res) (auto simp: GRPCRateLimitInterceptor_def call_ext_def grpc_fail_def Let_def)

lemma grpc_ratelimit_fails_open_witness:
  "\<exists>s'. \<forall>handler. GRPCRateLimitInterceptor \<lparr>FromIncomingContext = \<lambda>_. None, peer_FromContext = \<lambda>_. None\<rparr>
      (demo_redis\<lparr>run_script := \<lambda>_ _ _ _ x. (Inl (ErrorString ''connection refused''), x)\<rparr>) 5 5 second handler
      (Background :: unit go_context, ()) (fresh_world (7, \<lambda>_. None, [])) =
     (handler (Background, ()) s' :: unit grpc_result go_result \<times> _)"
  using grpc_ratelimit_fails_open [where env = "demo_redis\<lparr>run_script := \<lambda>_ _ _ _ x. (Inl (ErrorString ''connection refused''), x)\<rparr>"
      and s = "fresh_world (7, \<lambda>_. None, [])" and res = "Inl (ErrorString ''connection refused'')" and x' = "(7, \<lambda>_. None, [])"
      and lib = "\<lparr>FromIncomingContext = \<lambda>_. None, peer_FromContext = \<lambda>_. None\<rparr>" and ctx = "Background :: unit go_context"
      and rate = 5 and burst = 5 and period = second and req = "()"]
  by (simp add: fresh_world_def)

end
