(* ===== verification/Idempotency.thy ===== *)
theory Idempotency
  imports Http
begin

text \<open>
  \<^verbatim>\<open>server/middleware/idempotency.go\<close>: a request with an idempotency key runs only if the key
  could be set in Redis with \<^verbatim>\<open>NX\<close>.  The Redis client's \<^verbatim>\<open>SetNX\<close> is the parameter \<open>setNX\<close>; what
  the middleware relies on is the hypothesis \<open>setNX_contract\<close>.
\<close>

section \<open>The middleware\<close>

record idempotency_config =
  HeaderKey :: string
  Expiry :: duration
  FailOpen :: bool

type_synonym 'x set_nx = "string \<Rightarrow> string \<Rightarrow> duration \<Rightarrow> 'x \<Rightarrow> (go_error + bool) \<times> 'x"

definition log_unreachable :: "go_error \<Rightarrow> string \<Rightarrow> bool \<Rightarrow> log_entry" where
  "log_unreachable err key failOpen = LogEntry ''idempotency: redis unreachable''
     [(''error'', err_text err), (''key'', key),
      (''strategy'', if failOpen then ''fail_open'' else ''fail_closed'')]"

definition log_bypassed :: "string \<Rightarrow> log_entry" where
  "log_bypassed key = LogEntry ''idempotency: bypassed check due to redis failure'' [(''key'', key)]"

definition log_conflict :: "string \<Rightarrow> string \<Rightarrow> log_entry" where
  "log_conflict key ip = LogEntry ''idempotency: conflict detected'' [(''key'', key), (''ip'', ip)]"

definition redis_key :: "string \<Rightarrow> string" where
  "redis_key key = ''idempotency:'' @ key"

definition IdempotencyMiddleware :: "idempotency_config \<Rightarrow> 'x set_nx \<Rightarrow> ('b, 'x) middleware" where
  "IdempotencyMiddleware cfg setNX next = (\<lambda>(w, r) s.
     let key = Header_Get (Header r) (HeaderKey cfg)
     in if key = [] then next (w, r) s
        else (case call_ext (setNX (redis_key key) ''locked'' (Expiry cfg)) s of
                (Inl err, s1) \<Rightarrow>
                  let s2 = log_to (log_unreachable err key (FailOpen cfg)) s1
                  in if FailOpen cfg then next (w, r) (log_to (log_bypassed key) s2)
                     else http_Error w ''Idempotency check service unavailable'' 503 s2
              | (Inr success, s1) \<Rightarrow>
                  if \<not> success
                  then http_Error w ''Duplicate request detected'' 409
                         (UpdateHeader w (Header_Set ''Retry-After'' ''5'')
                           (log_to (log_conflict key (RemoteAddr r)) s1))
                  else next (w, r) s1))"

section \<open>The guard\<close>

definition idempotency_decide ::
  "idempotency_config \<Rightarrow> 'x set_nx \<Rightarrow> ('x world writer \<times> 'b request, 'x world, unit go_result) guard" where
  "idempotency_decide cfg setNX = (\<lambda>(w, r) s.
     let key = Header_Get (Header r) (HeaderKey cfg);
         stop = (\<lambda>(res, s'). (Stop res, s'))
     in if key = [] then (Pass (w, r), s)
        else (case call_ext (setNX (redis_key key) ''locked'' (Expiry cfg)) s of
                (Inl err, s1) \<Rightarrow>
                  let s2 = log_to (log_unreachable err key (FailOpen cfg)) s1
                  in if FailOpen cfg then (Pass (w, r), log_to (log_bypassed key) s2)
                     else stop (http_Error w ''Idempotency check service unavailable'' 503 s2)
              | (Inr success, s1) \<Rightarrow>
                  if \<not> success
                  then stop (http_Error w ''Duplicate request detected'' 409
                         (UpdateHeader w (Header_Set ''Retry-After'' ''5'')
                           (log_to (log_conflict key (RemoteAddr r)) s1)))
                  else (Pass (w, r), s1)))"

interpretation idempotency: gate "IdempotencyMiddleware cfg setNX" "idempotency_decide cfg setNX"
  by unfold_locales
    (simp add: IdempotencyMiddleware_def idempotency_decide_def Let_def split: prod.splits sum.splits)

section \<open>Requests one after another\<close>

text \<open>
  \<open>held k x\<close>: the key \<open>k\<close> exists in Redis.  \<^verbatim>\<open>SetNX\<close> answers true only for a key that did not exist
  and then exists, and it removes no key.
\<close>

definition setNX_contract :: "(string \<Rightarrow> 'x \<Rightarrow> bool) \<Rightarrow> 'x set_nx \<Rightarrow> bool" where
  "setNX_contract held setNX \<longleftrightarrow>
     (\<forall>k v e x. (fst (setNX k v e x) = Inr True \<longrightarrow> \<not> held k x \<and> held k (snd (setNX k v e x))) \<and>
        (\<forall>k'. held k' x \<longrightarrow> held k' (snd (setNX k v e x))))"

text \<open>
  A request with the key, its handler, and what happens before it.  \<open>starts\<close> counts handler
  starts; a handler that is still running when the next request arrives goes on in the \<open>env\<close> of
  that request.  No key expires.
\<close>

definition same_key ::
  "idempotency_config \<Rightarrow> string \<Rightarrow> (string \<Rightarrow> 'x \<Rightarrow> bool) \<Rightarrow> ('x \<Rightarrow> nat) \<Rightarrow>
   ('x world \<Rightarrow> 'x world) \<times> ('b, 'x) handler \<times> 'x world writer \<times> 'b request \<Rightarrow> bool" where
  "same_key cfg key held starts = (\<lambda>(env, handler, w, r). w = server_writer \<and> Header_Get (Header r) (HeaderKey cfg) = key \<and>
     (\<forall>t. starts (ext (env t)) = starts (ext t) \<and> (\<forall>k. held k (ext t) \<longrightarrow> held k (ext (env t)))) \<and>
     (\<forall>a t. starts (ext (snd (handler a t))) = Suc (starts (ext t)) \<and>
        (\<forall>k. held k (ext t) \<longrightarrow> held k (ext (snd (handler a t))))))"

section \<open>Facts\<close>

lemma decide_ext:
  assumes "Header_Get (Header r) (HeaderKey cfg) = key" and "key \<noteq> []"
  shows "ext (snd (idempotency_decide cfg setNX (server_writer, r) s)) =
    snd (setNX (redis_key key) ''locked'' (Expiry cfg) (ext s))"
  using assms ext_http_Error
  by (auto simp: idempotency_decide_def call_ext_def Let_def log_to_def case_prod_beta split: sum.splits)

lemma decide_Pass:
  assumes "Header_Get (Header r) (HeaderKey cfg) = key" and "key \<noteq> []" and "\<not> FailOpen cfg"
    and "idempotency_decide cfg setNX (w, r) s = (Pass a, s')"
  shows "fst (setNX (redis_key key) ''locked'' (Expiry cfg) (ext s)) = Inr True"
  using assms
  by (auto simp: idempotency_decide_def call_ext_def Let_def case_prod_beta split: sum.splits if_splits)

text \<open>A fail-closed request with a key either locks it and runs its handler, or runs nothing.\<close>

lemma served:
  assumes "Header_Get (Header r) (HeaderKey cfg) = key" and "key \<noteq> []" and "\<not> FailOpen cfg"
  shows "(fst (setNX (redis_key key) ''locked'' (Expiry cfg) (ext s)) = Inr True \<and>
      (\<exists>a s'. ext s' = snd (setNX (redis_key key) ''locked'' (Expiry cfg) (ext s)) \<and>
         IdempotencyMiddleware cfg setNX handler (server_writer, r) s = handler a s')) \<or>
    ext (snd (IdempotencyMiddleware cfg setNX handler (server_writer, r) s)) =
      snd (setNX (redis_key key) ''locked'' (Expiry cfg) (ext s))"
  using idempotency.once_or_never [of cfg setNX "(server_writer, r)" s] decide_ext [OF assms(1,2), of setNX s]
    decide_Pass [OF assms, of setNX server_writer s] by (metis snd_conv)

text \<open>Once the key is held no handler of a request with it starts.\<close>

lemma held_starts_none:
  assumes "setNX_contract held setNX" and "\<forall>k v e x. starts (snd (setNX k v e x)) = starts x"
    and "key \<noteq> []" and "\<not> FailOpen cfg"
    and "\<forall>call \<in> set calls. same_key cfg key held starts call" and "held (redis_key key) (ext s)"
  shows "starts (ext (serve_all (IdempotencyMiddleware cfg setNX) calls s)) = starts (ext s)"
  using assms(5,6)
proof (induction calls arbitrary: s)
  case (Cons call calls)
  obtain env handler r where call: "call = (env, handler, server_writer, r)"
    using Cons.prems by (cases call) (auto simp: same_key_def)
  with Cons.prems have key: "Header_Get (Header r) (HeaderKey cfg) = key" and held: "held (redis_key key) (ext (env s))"
    and env: "starts (ext (env s)) = starts (ext s)" by (auto simp: same_key_def)
  let ?set = "setNX (redis_key key) ''locked'' (Expiry cfg) (ext (env s))"
  have "ext (snd (IdempotencyMiddleware cfg setNX handler (server_writer, r) (env s))) = snd ?set"
    using served [OF key assms(3,4), of setNX "env s" handler] held assms(1) unfolding setNX_contract_def by blast
  moreover have "held (redis_key key) (snd ?set)" using held assms(1) by (simp add: setNX_contract_def)
  ultimately show ?case using Cons.IH Cons.prems call env assms(2) by simp
qed simp

section \<open>Property\<close>

text \<open>
  C5. Fail-closed idempotency runs a request at most once: of any number of requests with one
  idempotency key, in whatever order and with whatever happening in between short of the key's
  expiry, at most one handler starts, whether Redis answers or fails.  In particular a retry
  after a handler that failed or panicked is refused too.
\<close>

theorem idempotency_at_most_once:
  assumes "setNX_contract held setNX" and "\<forall>k v e x. starts (snd (setNX k v e x)) = starts x"
    and "key \<noteq> []" and "\<not> FailOpen cfg" and "\<forall>call \<in> set calls. same_key cfg key held starts call"
  shows "starts (ext (serve_all (IdempotencyMiddleware cfg setNX) calls s)) \<le> Suc (starts (ext s))"
  using assms(5)
proof (induction calls arbitrary: s)
  case (Cons call calls)
  obtain env handler r where call: "call = (env, handler, server_writer, r)"
    using Cons.prems by (cases call) (auto simp: same_key_def)
  with Cons.prems have key: "Header_Get (Header r) (HeaderKey cfg) = key"
    and env: "starts (ext (env s)) = starts (ext s)" by (auto simp: same_key_def)
  let ?set = "setNX (redis_key key) ''locked'' (Expiry cfg) (ext (env s))"
  let ?s = "snd (IdempotencyMiddleware cfg setNX handler (server_writer, r) (env s))"
  from served [OF key assms(3,4), of setNX "env s" handler] show ?case
  proof
    assume "fst ?set = Inr True \<and> (\<exists>a s'. ext s' = snd ?set \<and>
      IdempotencyMiddleware cfg setNX handler (server_writer, r) (env s) = handler a s')"
    then obtain a s' where run: "fst ?set = Inr True" "ext s' = snd ?set" "?s = snd (handler a s')" by auto
    from run(1,2) assms(1) have "held (redis_key key) (ext s')" by (simp add: setNX_contract_def)
    with run(3) Cons.prems call have "held (redis_key key) (ext ?s)" "starts (ext ?s) = Suc (starts (ext s'))"
      by (cases a; auto simp: same_key_def)+
    with held_starts_none [OF assms(1-4), of calls ?s] Cons.prems call env run(2) assms(2) show ?thesis by simp
  next
    assume "ext ?s = snd ?set"
    with Cons call env assms(2) show ?thesis by (metis list.set_intros(2) serve_all.simps(2))
  qed
qed simp

definition demo_setNX :: "(string set \<times> nat) set_nx" where
  "demo_setNX k v e = (\<lambda>(keys, n). (Inr (k \<notin> keys), (insert k keys, n)))"

definition demo_idempotency :: idempotency_config where
  "demo_idempotency = \<lparr>HeaderKey = ''Idempotency-Key'', Expiry = 24 * hour, FailOpen = False\<rparr>"

definition keyed_post :: "unit request" where
  "keyed_post = \<lparr>Method = ''POST'', URL_Path = ''/orders'', Header = [(''Idempotency-Key'', [''k''])],
     RemoteAddr = ''10.0.0.1:80'', Context = Background\<rparr>"

text \<open>A handler that starts and panics.\<close>

definition failing_handler :: "(unit, string set \<times> nat) handler" where
  "failing_handler = (\<lambda>a s. (Panics ''handler'', s\<lparr>ext := (fst (ext s), Suc (snd (ext s)))\<rparr>))"

theorem idempotency_at_most_once_witness:
  "snd (ext (serve_all (IdempotencyMiddleware demo_idempotency demo_setNX)
     [(id, failing_handler, server_writer, keyed_post), (id, failing_handler, server_writer, keyed_post)]
     (fresh_world ({}, 0)))) \<le> Suc (snd (ext (fresh_world ({} :: string set, 0 :: nat))))"
  by (rule idempotency_at_most_once [where held = "\<lambda>k x. k \<in> fst x" and key = "''k''"])
    (auto simp: setNX_contract_def demo_setNX_def demo_idempotency_def same_key_def keyed_post_def Header_Get_def
      canonical_names failing_handler_def split: prod.splits)

end
