(* ===== verification/Health.thy ===== *)
theory Health
  imports Response
begin

text \<open>
  \<^verbatim>\<open>server/health/checker.go\<close>: the liveness and readiness endpoints and their registration.  The
  checker holds the pool, of which it uses \<^verbatim>\<open>Ping\<close>, called with a timeout; its logger writes to the
  log of the world.  \<open>router_Get\<close> stands for the method \<^verbatim>\<open>Get\<close> of a chi router.
\<close>

record 'x checker =
  db_Ping :: "duration \<Rightarrow> 'x \<Rightarrow> go_error option \<times> 'x"

definition NewChecker :: "(duration \<Rightarrow> 'x \<Rightarrow> go_error option \<times> 'x) \<Rightarrow> 'x checker" where
  "NewChecker db = \<lparr>db_Ping = db\<rparr>"

definition HandleHealth :: "('b, 'x) handler" where
  "HandleHealth = (\<lambda>(w, r) s.
     case WriteHeader w 200 s of
       (Panics p, s1) \<Rightarrow> (Panics p, s1)
     | (Ok _, s1) \<Rightarrow> (case WriteBody w ''OK'' s1 of (Panics p, s2) \<Rightarrow> (Panics p, s2) | (Ok _, s2) \<Rightarrow> (Ok (), s2)))"

definition readiness_json :: "string \<Rightarrow> json" where
  "readiness_json status = JObj [(''db'', JStr status), (''status'', JStr status)]"

text \<open>The map is encoded with its keys sorted.\<close>

definition HandleReadiness :: "'x checker \<Rightarrow> ('b, 'x) handler" where
  "HandleReadiness c = (\<lambda>(w, r) s.
     case call_ext (db_Ping c (1 * second)) s of
       (res, s1) \<Rightarrow>
         let (status, statusCode, s2) =
               (case res of
                  None \<Rightarrow> (''UP'', 200, s1)
                | Some err \<Rightarrow> (''DOWN'', 503,
                    log_to (LogEntry ''readiness check failed: database unreachable or slow'' [(''error'', err_text err)]) s1));
             s3 = UpdateHeader w (Header_Set ''Content-Type'' ''application/json'') s2
         in case WriteHeader w statusCode s3 of
              (Panics p, s4) \<Rightarrow> (Panics p, s4)
            | (Ok _, s4) \<Rightarrow>
                (case WriteBody w (render (readiness_json status) @ [CHR 0x0A]) s4 of
                   (Panics p, s5) \<Rightarrow> (Panics p, s5)
                 | (Ok None, s5) \<Rightarrow> (Ok (), s5)
                 | (Ok (Some err), s5) \<Rightarrow>
                     (Ok (), log_to (LogEntry ''failed to write health response'' [(''error'', err_text err)]) s5)))"

definition RegisterRoutes :: "(string \<Rightarrow> ('b, 'x) handler \<Rightarrow> 'r \<Rightarrow> 'r) \<Rightarrow> 'x checker \<Rightarrow> 'r \<Rightarrow> 'r" where
  "RegisterRoutes router_Get c router =
     router_Get ''/ready'' (HandleReadiness c) (router_Get ''/health'' HandleHealth router)"

text \<open>
  Readiness reports the database: on a fresh response it answers exactly status 200 with status
  \<^verbatim>\<open>UP\<close> when the ping succeeds and 503 with \<^verbatim>\<open>DOWN\<close> when it fails, as JSON; liveness answers 200
  whatever the database does.
\<close>

lemma readiness_follows_ping:
  assumes "sent (conn s) = None" and "db_Ping c (1 * second) (ext s) = (res, x')"
  shows "\<exists>s'. HandleReadiness c (server_writer, r) s = (Ok (), s') \<and>
    conn s' = json_conn (if res = None then 200 else 503) (readiness_json (if res = None then ''UP'' else ''DOWN'')) (conn s) \<and>
    (\<exists>h. sent (conn (snd (HandleHealth (server_writer, r) s))) = Some (200, h))"
  using assms
  by (cases res)
    (simp_all add: HandleReadiness_def HandleHealth_def call_ext_def conn_WriteBody_def json_conn_def body_allowed_def Let_def log_to_def)

text \<open>
  What a router promises of \<^verbatim>\<open>Get\<close>: the handler last registered for a pattern serves it.  Under it
  the two endpoints are served by their handlers, whatever other routes the router has.
\<close>

definition router_contract ::
  "(string \<Rightarrow> ('b, 'x) handler \<Rightarrow> 'r \<Rightarrow> 'r) \<Rightarrow> ('r \<Rightarrow> string \<Rightarrow> ('b, 'x) handler option) \<Rightarrow> bool" where
  "router_contract router_Get route \<longleftrightarrow>
     (\<forall>p h router q. route (router_Get p h router) q = (if q = p then Some h else route router q))"

lemma routes_registered:
  assumes "router_contract router_Get route"
  shows "route (RegisterRoutes router_Get c router) p =
    (if p = ''/health'' then Some HandleHealth else if p = ''/ready'' then Some (HandleReadiness c) else route router p)"
  using assms by (simp add: router_contract_def RegisterRoutes_def)

lemma router_contract_satisfiable: "router_contract (\<lambda>p h router. router(p \<mapsto> h)) (\<lambda>router. router)"
  by (simp add: router_contract_def)

end
