(* ===== verification/Middleware_Chain.thy ===== *)
theory Middleware_Chain
  imports Observe Auth Rate_Limit Idempotency Health "HOL-Library.Sublist"
begin

text \<open>
  Chains of middlewares.  A response is well formed when its header names are canonical and
  occur once, its status is one a server may send, and it has a body only where the status
  allows one; it only grows: a status that was sent stays and bytes that were written stay.  The
  contract of a response writer (locale \<open>response_writer\<close>) is that its operations keep this; the
  contract of a middleware (locale \<open>typed_middleware\<close>) that it keeps it whenever the next handler
  does.  Every middleware of \<^verbatim>\<open>server/middleware\<close> satisfies it, hence every chain of them in front of
  every handler.
\<close>

section \<open>Well-formed responses\<close>

definition headers_wf :: "header_map \<Rightarrow> bool" where
  "headers_wf h \<longleftrightarrow> distinct (map fst h) \<and> (\<forall>(k, vs) \<in> set h. CanonicalHeaderKey k = k \<and> vs \<noteq> [])"

definition conn_wf :: "conn \<Rightarrow> bool" where
  "conn_wf c \<longleftrightarrow> headers_wf (hdr c) \<and> (\<forall>i \<in> set (interim c). 100 \<le> i \<and> i \<le> 199 \<and> i \<noteq> 101) \<and>
     (case sent c of
        None \<Rightarrow> body c = []
      | Some (code, h) \<Rightarrow> (code = 101 \<or> 200 \<le> code \<and> code \<le> 999) \<and> headers_wf h \<and>
          (body c \<noteq> [] \<longrightarrow> body_allowed code))"

definition continues :: "conn \<Rightarrow> conn \<Rightarrow> bool" where
  "continues c c' \<longleftrightarrow> (conn_wf c \<longrightarrow> conn_wf c') \<and> (\<forall>x. sent c = Some x \<longrightarrow> sent c' = Some x) \<and>
     prefix (interim c) (interim c') \<and> prefix (body c) (body c')"

definition header_op :: "(header_map \<Rightarrow> header_map) \<Rightarrow> bool" where
  "header_op f \<longleftrightarrow> (\<forall>h. headers_wf h \<longrightarrow> headers_wf (f h))"

lemma continues_refl [simp, intro]: "continues c c"
  by (simp add: continues_def)

lemma continues_trans [trans]: "continues c c' \<Longrightarrow> continues c' c'' \<Longrightarrow> continues c c''"
  by (auto simp: continues_def intro: prefix_order.trans)

lemma set_update_subset: "set (AList.update k v h) \<subseteq> insert (k, v) (set h)"
  by (induction h) auto

lemma set_delete_subset: "set (AList.delete k h) \<subseteq> set h"
  by (induction h) auto

lemma header_op_Set [simp, intro]: "header_op (Header_Set k v)"
proof -
  have "headers_wf (Header_Set k v h)" if "headers_wf h" for h
    using that set_update_subset [of "CanonicalHeaderKey k" "[v]" h] distinct_update [of h "CanonicalHeaderKey k" "[v]"]
    by (auto simp: headers_wf_def Header_Set_def)
  then show ?thesis by (simp add: header_op_def)
qed

lemma header_op_Del [simp, intro]: "header_op (Header_Del k)"
proof -
  have "headers_wf (Header_Del k h)" if "headers_wf h" for h
    using that set_delete_subset [of "CanonicalHeaderKey k" h] distinct_delete [of h "CanonicalHeaderKey k"]
    by (auto simp: headers_wf_def Header_Del_def)
  then show ?thesis by (simp add: header_op_def)
qed

lemma header_op_comp: "header_op f \<Longrightarrow> header_op g \<Longrightarrow> header_op (\<lambda>h. f (g h))"
  by (simp add: header_op_def)

section \<open>The contract of a writer\<close>

locale response_writer =
  fixes w :: "'x world writer"
  assumes header_continues: "header_op f \<Longrightarrow> continues (conn s) (conn (UpdateHeader w f s))"
    and status_continues: "continues (conn s) (conn (snd (WriteHeader w code s)))"
    and body_continues: "continues (conn s) (conn (snd (WriteBody w d s)))"
begin

lemma set_header: "continues c (conn s) \<Longrightarrow> continues c (conn (UpdateHeader w (Header_Set k v) s))"
  by (blast intro: continues_trans header_continues)

lemma status_then:
  assumes "continues c (conn s)" and "WriteHeader w code s = (res, s')"
  shows "continues c (conn s')"
  using continues_trans [OF assms(1) status_continues [of s code]] assms(2) by simp

lemma body_then:
  assumes "continues c (conn s)" and "WriteBody w d s = (res, s')"
  shows "continues c (conn s')"
  using continues_trans [OF assms(1) body_continues [of s d]] assms(2) by simp

text \<open>What follows a status or a body, however the call ends.\<close>

lemma status_case:
  assumes "continues c (conn s)" and "\<And>s'. continues c (conn s') \<Longrightarrow> continues c (conn (snd (k s')))"
  shows "continues c (conn (snd (case WriteHeader w code s of (Panics p, s1) \<Rightarrow> (Panics p, s1) | (Ok _, s1) \<Rightarrow> k s1)))"
  using assms status_then [OF assms(1), of code] by (auto split: prod.split go_result.split)

lemma body_case:
  assumes "continues c (conn s)" and "\<And>e s'. continues c (conn s') \<Longrightarrow> continues c (conn (snd (k e s')))"
  shows "continues c (conn (snd (case WriteBody w d s of (Panics p, s1) \<Rightarrow> (Panics p, s1) | (Ok e, s1) \<Rightarrow> k e s1)))"
  using assms body_then [OF assms(1), of d] by (auto split: prod.split go_result.split)

lemma error_continues:
  assumes "continues c (conn s)"
  shows "continues c (conn (snd (http_Error w msg code s)))"
proof -
  let ?f = "\<lambda>h. Header_Set ''X-Content-Type-Options'' ''nosniff''
    (Header_Set ''Content-Type'' ''text/plain; charset=utf-8'' (Header_Del ''Content-Length'' h))"
  have "header_op ?f" using header_op_Set header_op_Del by (simp add: header_op_def)
  with assms have "continues c (conn (UpdateHeader w ?f s))" by (blast intro: continues_trans header_continues)
  then show ?thesis
    unfolding http_Error_def Let_def by (rule status_case) (auto intro: body_case)
qed

lemma write_continues: "continues c (conn s) \<Longrightarrow> continues c (conn (snd (write_envelope w status payload s)))"
proof -
  assume start: "continues c (conn s)"
  have "continues c (conn (snd (case res of None \<Rightarrow> (Ok (), s') | Some err \<Rightarrow> (Ok (), log_to (write_failed status err) s'))))"
    if "continues c (conn s')" for res and s' :: "'x world"
    using that by (simp add: log_to_def split: option.split)
  then have "continues c (conn (snd (case marshal_envelope payload of
      Inl err \<Rightarrow> (Ok (), log_to (write_failed status err) s')
    | Inr j \<Rightarrow> (case WriteBody w (render j @ [CHR 0x0A]) s' of
          (Panics p, s3) \<Rightarrow> (Panics p, s3)
        | (Ok res, s3) \<Rightarrow> (case res of None \<Rightarrow> (Ok (), s3) | Some err \<Rightarrow> (Ok (), log_to (write_failed status err) s3))))))"
    if "continues c (conn s')" for s' :: "'x world"
    using that by (auto simp: log_to_def split: sum.split intro!: body_case)
  then show ?thesis
    unfolding write_envelope_def Let_def
    by (intro status_case set_header start) (simp_all cong: sum.case_cong prod.case_cong go_result.case_cong option.case_cong)
qed

lemma health_continues: "continues (conn s) (conn (snd (HandleHealth (w, r) s)))"
  unfolding HandleHealth_def prod.case by (rule status_case, simp) (rule body_case, simp_all)

lemma readiness_continues: "continues (conn s) (conn (snd (HandleReadiness c (w, r) s)))"
proof -
  obtain res s1 where ping: "call_ext (db_Ping c (1 * second)) s = (res, s1)" by fastforce
  then have "conn s1 = conn s" by (auto simp: call_ext_def split: prod.splits)
  then have "continues (conn s) (conn (UpdateHeader w f s'))" if "header_op f" "conn s' = conn s1" for f s'
    using header_continues [OF that(1), of s'] that(2) by simp
  note start = this [OF header_op_Set]
  have wrote: "continues (conn s) (conn (snd (case WriteBody w d s' of (Panics p, s5) \<Rightarrow> (Panics p, s5)
      | (Ok None, s5) \<Rightarrow> (Ok (), s5)
      | (Ok (Some err), s5) \<Rightarrow> (Ok (), log_to (LogEntry ''failed to write health response'' [(''error'', err_text err)]) s5))))"
    if "continues (conn s) (conn s')" for d and s' :: "'x world"
    using body_then [OF that, of d] by (auto simp: log_to_def split: prod.split go_result.split option.split)
  show ?thesis
    unfolding HandleReadiness_def prod.case ping Let_def
    by (cases res) (simp_all, (rule status_case, simp add: start log_to_def, erule wrote)+)
qed

end

interpretation server_conn: response_writer server_writer
proof
  fix f and s :: "'x world"
  assume "header_op f"
  then show "continues (conn s) (conn (UpdateHeader server_writer f s))"
    by (auto simp: continues_def conn_wf_def header_op_def split: option.splits)
next
  fix code and s :: "'x world"
  show "continues (conn s) (conn (snd (WriteHeader server_writer code s)))"
    by (auto simp: continues_def conn_wf_def conn_WriteHeader_def split: option.splits)
next
  fix d and s :: "'x world"
  show "continues (conn s) (conn (snd (WriteBody server_writer d s)))"
    by (auto simp: continues_def conn_wf_def conn_WriteBody_def body_allowed_def Let_def split: option.splits)
qed

lemma responseWriter_keeps:
  assumes "response_writer w"
  shows "response_writer (responseWriter a w)"
proof -
  from assms have "continues (conn s) (conn (snd (WriteHeader w code (s\<lparr>heap := h\<rparr>))))" for s code h
    using response_writer.status_continues [of w "s\<lparr>heap := h\<rparr>" code] by simp
  with assms show ?thesis by (simp add: response_writer_def)
qed

section \<open>Handlers\<close>

text \<open>
  An application handler uses its writer through the interface: it changes headers, sends a
  status, writes data and looks at the error, works on the rest of the state, panics or returns.
\<close>

datatype 'x app = Return | Raise string | PutHeader string string "'x app" | DropHeader string "'x app"
  | PutStatus int "'x app" | PutBody string "go_error option \<Rightarrow> 'x app" | Work "'x \<Rightarrow> 'x" "'x \<Rightarrow> 'x app"

primrec run_app :: "'x app \<Rightarrow> 'x world writer \<Rightarrow> 'x world \<Rightarrow> unit go_result \<times> 'x world" where
  "run_app Return w s = (Ok (), s)"
| "run_app (Raise p) w s = (Panics p, s)"
| "run_app (PutHeader k v a) w s = run_app a w (UpdateHeader w (Header_Set k v) s)"
| "run_app (DropHeader k a) w s = run_app a w (UpdateHeader w (Header_Del k) s)"
| "run_app (PutStatus code a) w s =
     (case WriteHeader w code s of (Panics p, s1) \<Rightarrow> (Panics p, s1) | (Ok _, s1) \<Rightarrow> run_app a w s1)"
| "run_app (PutBody d k) w s =
     (case WriteBody w d s of (Panics p, s1) \<Rightarrow> (Panics p, s1) | (Ok e, s1) \<Rightarrow> run_app (k e) w s1)"
| "run_app (Work f k) w s = run_app (k (ext s)) w (s\<lparr>ext := f (ext s)\<rparr>)"

definition app_handler :: "('b request \<Rightarrow> 'x app) \<Rightarrow> ('b, 'x) handler" where
  "app_handler app = (\<lambda>(w, r) s. run_app (app r) w s)"

definition behaved :: "('b, 'x) handler \<Rightarrow> bool" where
  "behaved h \<longleftrightarrow> (\<forall>w r s. response_writer w \<longrightarrow> continues (conn s) (conn (snd (h (w, r) s))))"

lemma behaved_after:
  "behaved h \<Longrightarrow> response_writer w \<Longrightarrow> continues c (conn s) \<Longrightarrow> continues c (conn (snd (h (w, r) s)))"
  by (metis behaved_def continues_trans)

lemma run_app_continues:
  assumes "response_writer w"
  shows "continues c (conn s) \<Longrightarrow> continues c (conn (snd (run_app a w s)))"
proof (induction a arbitrary: s)
  case (PutHeader k v a)
  then show ?case using response_writer.set_header [OF assms] by simp
next
  case (DropHeader k a)
  then show ?case using response_writer.header_continues [OF assms header_op_Del] continues_trans by (metis run_app.simps(4))
next
  case (PutStatus code a)
  then show ?case using response_writer.status_case [OF assms, of c s "run_app a w" code] by simp
next
  case (PutBody d k)
  then show ?case using response_writer.body_case [OF assms, of c s "\<lambda>e. run_app (k e) w" d] by simp
qed simp_all

lemma app_behaved: "behaved (app_handler app)"
  by (simp add: behaved_def app_handler_def run_app_continues)

lemma behavedI:
  "(\<And>w r s. response_writer w \<Longrightarrow> continues (conn s) (conn (snd (h (w, r) s)))) \<Longrightarrow> behaved h"
  by (simp add: behaved_def)

section \<open>The contract of a middleware\<close>

locale typed_middleware =
  fixes mw :: "('b, 'x) middleware"
  assumes keeps: "behaved next \<Longrightarrow> behaved (mw next)"

text \<open>A guarding middleware keeps responses well formed if its guard does and passes on its own writer.\<close>

locale typed_gate = gate mw decide for mw :: "('b, 'x) middleware" and decide +
  assumes decide_continues: "response_writer w \<Longrightarrow> continues (conn s) (conn (snd (decide (w, r) s)))"
    and decide_writer: "fst (decide (w, r) s) = Pass (w', r') \<Longrightarrow> w' = w"

sublocale typed_gate \<subseteq> typed_middleware mw
proof (unfold_locales, rule behavedI)
  fix "next" :: "('b, 'x) handler" and w :: "'x world writer" and r :: "'b request" and s
  assume h: "behaved next" and w: "response_writer w"
  obtain d s' where d: "decide (w, r) s = (d, s')" by fastforce
  with decide_continues [OF w, of s r] have s': "continues (conn s) (conn s')" by simp
  show "continues (conn s) (conn (snd (mw next (w, r) s)))"
  proof (cases d)
    case (Pass a)
    obtain w' r' where a: "a = (w', r')" by fastforce
    with d Pass decide_writer [of w r s w' r'] have "w' = w" by simp
    with behaved_after [OF h w s'] d Pass a show ?thesis by (simp add: mw_decide)
  qed (use d s' in \<open>simp add: mw_decide\<close>)
qed

interpretation typed_security: typed_gate SecurityHeaders security_decide
  by unfold_locales (simp_all add: security_decide_def response_writer.set_header)

lemma conn_call_ext [simp]: "conn (snd (call_ext f s)) = conn s"
  by (simp add: call_ext_def split: prod.split)

lemma conn_log_to [simp]: "conn (log_to e s) = conn s"
  by (simp add: log_to_def)

lemma conn_choose [simp]:
  "conn (snd (choose_trace_id lib r s)) = conn s" "conn (snd (choose_request_id lib r s)) = conn s"
  by (auto simp: choose_trace_id_def choose_request_id_def Let_def case_prod_beta)

interpretation typed_tracing: typed_gate "TraceIDMiddleware lib" "trace_decide lib"
  by unfold_locales (simp_all add: trace_decide_def response_writer.set_header case_prod_beta)

interpretation typed_limit: typed_gate "RateLimitMiddleware env emergency rps burst period"
    "http_limit_decide env emergency rps burst period"
  by unfold_locales
    (auto simp: http_limit_decide_def Let_def case_prod_beta intro!: response_writer.set_header response_writer.error_continues
      split: sum.splits if_splits)

interpretation typed_idempotency: typed_gate "IdempotencyMiddleware cfg setNX" "idempotency_decide cfg setNX"
  by unfold_locales
    (auto simp: idempotency_decide_def Let_def case_prod_beta intro!: response_writer.set_header response_writer.error_continues
      split: sum.splits if_splits)

text \<open>The strategy may do anything but touch the response.\<close>

lemma Authenticate_conn: "conn (snd (Authenticate verify ctx payload s)) = conn s"
  by (auto simp: Authenticate_def Let_def case_prod_beta split: list.split verify_result.split)

interpretation typed_auth: typed_gate "HTTPMiddleware (Authenticate verify) :: ('b, 'x) middleware"
    "http_auth_decide (Authenticate verify)"
proof
  fix w :: "'x world writer" and r :: "'b request" and s w' r'
  obtain res s1 where a: "Authenticate verify (WithEntryPoint (Context r) ''http'') (http_payload r) s = (res, s1)" by fastforce
  with Authenticate_conn [of verify "WithEntryPoint (Context r) ''http''" "http_payload r" s] have "conn s1 = conn s" by simp
  then show "response_writer w \<Longrightarrow> continues (conn s) (conn (snd (http_auth_decide (Authenticate verify) (w, r) s)))"
    using response_writer.error_continues [of w "conn s" s1]
    by (simp add: http_auth_decide_def a case_prod_beta split: go_result.split sum.split)
  show "fst (http_auth_decide (Authenticate verify) (w, r) s) = Pass (w', r') \<Longrightarrow> w' = w"
    by (simp add: http_auth_decide_def a case_prod_beta split: go_result.splits sum.splits)
qed

interpretation typed_logger: typed_middleware "LoggerMiddleware now :: ('b, 'x) middleware"
proof (unfold_locales, rule behavedI)
  fix "next" :: "('b, 'x) handler" and w :: "'x world writer" and r :: "'b request" and s
  assume "behaved next" and "response_writer w"
  from behaved_after [OF this(1) responseWriter_keeps [OF this(2)], of "conn s" "s\<lparr>heap := heap s @ [200]\<rparr>" "length (heap s)" r]
  show "continues (conn s) (conn (snd (LoggerMiddleware now next (w, r) s)))"
    by (auto simp: LoggerMiddleware_def Let_def split: prod.split go_result.split)
qed

interpretation typed_recovery: typed_middleware "PanicRecovery stack :: ('b, 'x) middleware"
proof (unfold_locales, rule behavedI)
  fix "next" :: "('b, 'x) handler" and w :: "'x world writer" and r :: "'b request" and s
  assume h: "behaved next" and w: "response_writer w"
  obtain res s1 where run: "next (w, r) s = (res, s1)" by fastforce
  with behaved_after [OF h w continues_refl, of s r] have "continues (conn s) (conn s1)" by simp
  with run response_writer.write_continues [OF w, of "conn s" "log_to _ s1"]
  show "continues (conn s) (conn (snd (PanicRecovery stack next (w, r) s)))"
    by (simp add: PanicRecovery_def ErrorJSON_def ErrorJSONWithDetails_def Let_def split: go_result.split)
qed

text \<open>
  What chi promises of its wrapping writer: it passes on what it is given, so it is a response
  writer if the wrapped one is, and wrapping sends nothing.
\<close>

definition chi_contract :: "('b, 'x) chi_lib \<Rightarrow> bool" where
  "chi_contract chi \<longleftrightarrow> (\<forall>w s. case NewWrapResponseWriter chi w s of
     (ww, statusOf, s0) \<Rightarrow> (response_writer w \<longrightarrow> response_writer ww) \<and> conn s0 = conn s)"

lemma typed_metrics:
  assumes "chi_contract chi"
  shows "typed_middleware (MetricsMiddleware chi labels now :: ('b, 'x) middleware)"
proof (unfold_locales, rule behavedI)
  fix "next" :: "('b, 'x) handler" and w :: "'x world writer" and r :: "'b request" and s
  assume h: "behaved next" and w: "response_writer w"
  obtain ww statusOf s0 where wrap: "NewWrapResponseWriter chi w s = (ww, statusOf, s0)" by (metis prod_cases3)
  with assms w have "response_writer ww" "conn s0 = conn s" by (auto simp: chi_contract_def split: prod.splits)
  with wrap behaved_after [OF h this(1), of "conn s" s0 r] show "continues (conn s) (conn (snd (MetricsMiddleware chi labels now next (w, r) s)))"
    by (auto simp: MetricsMiddleware_def Let_def split: prod.split go_result.split)
qed

text \<open>
  What otelchi promises of its middleware: it runs the next handler once, on a writer that
  passes on what it is given, and itself sends nothing.
\<close>

definition otelchi_contract :: "(string \<Rightarrow> otelchi_option list \<Rightarrow> ('b, 'x) middleware) \<Rightarrow> bool" where
  "otelchi_contract otelchi_Middleware \<longleftrightarrow> (\<forall>name opts next w r s. \<exists>ww r' s0.
     (response_writer w \<longrightarrow> response_writer ww) \<and> conn s0 = conn s \<and>
     fst (otelchi_Middleware name opts next (w, r) s) = fst (next (ww, r') s0) \<and>
     conn (snd (otelchi_Middleware name opts next (w, r) s)) = conn (snd (next (ww, r') s0)))"

lemma typed_otel:
  assumes "otelchi_contract otelchi_Middleware"
  shows "typed_middleware (OTelMiddleware otelchi_Middleware name :: ('b, 'x) middleware)"
proof (unfold_locales, rule behavedI)
  fix "next" :: "('b, 'x) handler" and w :: "'x world writer" and r :: "'b request" and s
  assume h: "behaved next" and w: "response_writer w"
  from assms w obtain ww r' s0 where ww: "response_writer ww" and s0: "conn s0 = conn s"
    and run: "conn (snd (OTelMiddleware otelchi_Middleware name next (w, r) s)) = conn (snd (next (ww, r') s0))"
    unfolding otelchi_contract_def OTelMiddleware_def by metis
  from behaved_after [OF h ww, of "conn s" s0 r'] s0 run
  show "continues (conn s) (conn (snd (OTelMiddleware otelchi_Middleware name next (w, r) s)))" by simp
qed

section \<open>Chains\<close>

text \<open>The middlewares of \<^verbatim>\<open>server/middleware\<close>, with any configuration.\<close>

inductive helix_middleware :: "('b, 'x) middleware \<Rightarrow> bool" where
  otel: "otelchi_contract otelchi_Middleware \<Longrightarrow> helix_middleware (OTelMiddleware otelchi_Middleware name)"
| tracing: "helix_middleware (TraceIDMiddleware lib)"
| recovery: "helix_middleware (PanicRecovery stack)"
| logger: "helix_middleware (LoggerMiddleware now)"
| metrics: "chi_contract chi \<Longrightarrow> helix_middleware (MetricsMiddleware chi labels now)"
| security: "helix_middleware SecurityHeaders"
| auth: "helix_middleware (HTTPMiddleware (Authenticate verify))"
| limit: "helix_middleware (RateLimitMiddleware env emergency rps burst period)"
| idempotency: "helix_middleware (IdempotencyMiddleware cfg setNX)"

text \<open>What a chain can end in: a handler of the application or a health endpoint.\<close>

inductive served_handler :: "('b, 'x) handler \<Rightarrow> bool" where
  application: "served_handler (app_handler app)"
| liveness: "served_handler HandleHealth"
| readiness: "served_handler (HandleReadiness c)"

text \<open>\<^verbatim>\<open>router.Use\<close>: the first middleware is the outermost.\<close>

definition chain :: "('b, 'x) middleware list \<Rightarrow> ('b, 'x) handler \<Rightarrow> ('b, 'x) handler" where
  "chain mws h = foldr (\<lambda>mw. mw) mws h"

lemma helix_typed: "helix_middleware mw \<Longrightarrow> typed_middleware mw"
  by (induction rule: helix_middleware.induct)
    (auto intro: typed_otel typed_metrics typed_tracing.typed_middleware_axioms typed_recovery.typed_middleware_axioms
      typed_logger.typed_middleware_axioms typed_security.typed_middleware_axioms typed_auth.typed_middleware_axioms
      typed_limit.typed_middleware_axioms typed_idempotency.typed_middleware_axioms)

lemma served_behaved: "served_handler h \<Longrightarrow> behaved h"
  by (induction rule: served_handler.induct)
    (auto simp: app_behaved intro!: behavedI response_writer.health_continues response_writer.readiness_continues)

lemma chain_behaved: "list_all helix_middleware mws \<Longrightarrow> behaved h \<Longrightarrow> behaved (chain mws h)"
  by (induction mws) (auto simp: chain_def dest: helix_typed intro: typed_middleware.keeps)

lemma conn_WriteHeader_500: "fst (conn_WriteHeader 500 c) = Ok ()"
  by (simp add: conn_WriteHeader_def)

lemma recovery_returns: "fst (PanicRecovery stack next (server_writer, r) s) = Ok ()"
  using conn_WriteHeader_500
  by (auto simp: PanicRecovery_def ErrorJSON_def ErrorJSONWithDetails_def write_envelope_def Let_def
      split: prod.splits go_result.splits sum.splits option.splits) (metis fst_conv go_result.distinct(1))+

section \<open>Properties\<close>


text \<open>A handler that writes, sends a late status and panics, behind libraries that only pass on.\<close>

definition half_way :: "unit app" where
  "half_way = PutBody ''part'' (\<lambda>_. PutStatus 7 (Raise ''boom''))"

definition plain_chi :: "(unit, unit) chi_lib" where
  "plain_chi = \<lparr>NewWrapResponseWriter = \<lambda>w s. (w, \<lambda>_. 200, s), RoutePattern = \<lambda>_ _. None\<rparr>"

definition plain_otelchi :: "string \<Rightarrow> otelchi_option list \<Rightarrow> (unit, unit) middleware" where
  "plain_otelchi name opts next = next"

definition plain_chain :: "(unit, unit) middleware list" where
  "plain_chain = [OTelMiddleware plain_otelchi ''svc'', MetricsMiddleware plain_chi plain_labels (\<lambda>_. 0), SecurityHeaders]"

lemma plain_chain_helix: "list_all helix_middleware plain_chain"
proof -
  have "otelchi_contract plain_otelchi" unfolding otelchi_contract_def plain_otelchi_def by blast
  moreover have "chi_contract plain_chi" by (simp add: chi_contract_def plain_chi_def)
  ultimately show ?thesis by (simp add: plain_chain_def helix_middleware.intros)
qed


end
