(* ===== verification/Grpc_Chain.thy ===== *)
theory Grpc_Chain
  imports Observe Auth Rate_Limit
begin

text \<open>
  The unary interceptors of \<^verbatim>\<open>server/middleware\<close> in the order recovery, trace identifiers, authentication,
  rate limit: what a call through all four of them does.
\<close>

section \<open>Recovery around a guard\<close>

definition recovered :: "string \<Rightarrow> string \<Rightarrow> 'r grpc_result go_result \<times> 'x world \<Rightarrow> 'r grpc_result go_result \<times> 'x world" where
  "recovered stack fullMethod out =
     (case out of
        (Ok res, s1) \<Rightarrow> (Ok res, s1)
      | (Panics p, s1) \<Rightarrow>
          (Ok (grpc_fail Internal ''internal server error''), log_to (grpc_panic_entry stack p fullMethod) s1))"

lemma recovery_recovered: "GRPCRecoveryInterceptor stack m h (ctx, req) s = recovered stack m (h (ctx, req) s)"
  by (simp add: GRPCRecoveryInterceptor_def recovered_def)

lemma recovered_Ok [simp]: "recovered stack m (Ok res, s) = (Ok res, s)"
  by (simp add: recovered_def)

text \<open>Whatever happened inside, the caller gets a result, and a panic is an internal error.\<close>

lemma recovered_returns: "\<exists>res s'. recovered stack m out = (Ok res, s')"
  by (cases out; cases "fst out") (auto simp: recovered_def)

text \<open>The trace interceptor always runs the handler, with the foreign layers of the context untouched.\<close>

lemma grpc_trace_passes:
  "\<exists>ctx' s'. foreign ctx' = foreign ctx \<and> (\<forall>handler. GRPCTraceInterceptor grpc lib handler (ctx, req) s = handler (ctx', req) s')"
proof -
  obtain ctx1 s1 where c2:
    "(case SpanTraceID lib (foreign ctx) of Some traceID \<Rightarrow> (WithTraceID ctx traceID, s)
      | None \<Rightarrow> (case call_ext (uuid_New lib) s of (uid, s1) \<Rightarrow> (WithTraceID ctx (hex_EncodeToString uid), s1))) = (ctx1, s1)"
    by fastforce
  then have "foreign ctx1 = foreign ctx" by (auto split: option.splits prod.splits)
  note c = this c2
  obtain u s2 where u: "call_ext (uuid_NewString lib) s1 = (u, s2)" by fastforce
  have f: "foreign (WithRequestID ctx1 v) = foreign ctx" for v using c(1) by simp
  show ?thesis
  proof (cases "FromIncomingContext grpc (foreign ctx1)")
    case (Some md)
    then show ?thesis
    proof (cases "md_Get md (to_lower RequestHeader)")
      case Nil
      with Some c u f show ?thesis by (intro exI [of _ "WithRequestID ctx1 u"] exI [of _ s2]) (simp add: GRPCTraceInterceptor_def)
    next
      case (Cons v vs)
      with Some c u f show ?thesis by (intro exI [of _ "WithRequestID ctx1 v"] exI [of _ s1]) (simp add: GRPCTraceInterceptor_def)
    qed
  next
    case None
    with c u f show ?thesis by (intro exI [of _ "WithRequestID ctx1 u"] exI [of _ s2]) (simp add: GRPCTraceInterceptor_def)
  qed
qed

text \<open>A call through the limiter fails without running the handler, or runs it in the same context.\<close>

lemma grpc_limit_cases:
  "(\<exists>msg s'. \<forall>handler :: ('b, 'q, 'r, 'x) unary. GRPCRateLimitInterceptor lib env rate burst period handler (ctx, req) s =
      (Ok (grpc_fail ResourceExhausted msg), s')) \<or>
   (\<exists>s'. \<forall>handler :: ('b, 'q, 'r, 'x) unary. GRPCRateLimitInterceptor lib env rate burst period handler (ctx, req) s =
      handler (ctx, req) s')"
proof -
  obtain res s1 where r: "call_ext (run_script env (grpc_limit_key lib ctx) rate (seconds period) burst) s = (res, s1)" by fastforce
  then show ?thesis
    by (cases "rate \<le> 0"; cases res) (auto simp: GRPCRateLimitInterceptor_def Let_def)
qed

lemma grpc_limit_key_claims:
  "Subject cl \<noteq> [] \<Longrightarrow> grpc_limit_key lib (with_claims cl ctx) = ''rl:grpc:user:'' @ Subject cl"
  by (simp add: grpc_limit_key_def grpc_identity_def with_claims_def value_text_def Let_def)

section \<open>Properties\<close>


text \<open>A call with the demonstration token, and a handler that answers.\<close>

definition bearer_md :: "unit grpc_lib" where
  "bearer_md = \<lparr>FromIncomingContext = \<lambda>_. Some [(''authorization'', [''Bearer t''])], peer_FromContext = \<lambda>_. None\<rparr>"

definition no_tracer :: "(unit, caching_client \<times> int) trace_lib" where
  "no_tracer = \<lparr>SpanTraceID = \<lambda>_. None, uuid_New = \<lambda>x. (''u'', x), uuid_NewString = \<lambda>x. (''v'', x)\<rparr>"

definition unlimited :: "(caching_client \<times> int) limiter_env" where
  "unlimited = \<lparr>run_script = \<lambda>_ _ _ _ x. (Inr (-1), x), limiter_Allow = \<lambda>_ x. (True, x), grpc_SetHeader = \<lambda>_ x. x\<rparr>"

definition demo_serve :: "(unit, unit, unit, caching_client \<times> int) unary \<Rightarrow> (unit, unit, unit, caching_client \<times> int) unary" where
  "demo_serve = (\<lambda>handler. GRPCRecoveryInterceptor [] ''/svc/M'' (GRPCTraceInterceptor bearer_md no_tracer
     (GRPCUnaryInterceptor bearer_md (Authenticate (VerifyToken demo_env (demo_parse demo_env demo_token))) ''/svc/M''
       (GRPCRateLimitInterceptor bearer_md unlimited 5 5 second handler))))"

lemma bearer_header: "GetHeader (grpc_payload m a [(''authorization'', [''Bearer t''])]) ''Authorization'' = ''Bearer t''"
proof -
  have "CanonicalHeaderKey ''authorization'' = CanonicalHeaderKey ''Authorization''"
    by (rule Canonical_cong) (simp_all add: to_lower_def lower_char_def char_of_def bit_simps bit_0 token_char_def)
  then show ?thesis
    using GetHeader_collected [OF authorization_token, of "grpc_payload m a [(''authorization'', [''Bearer t''])]"
        "[(''authorization'', [''Bearer t''])]"]
    by (simp add: grpc_payload_def)
qed

lemma demo_serve_answers:
  "fst (demo_serve (\<lambda>_ s. (Ok \<lparr>reply = Some (), failure = None\<rparr>, s)) (Background, ()) (fresh_world (demo_client, 0))) =
     Ok \<lparr>reply = Some (), failure = None\<rparr>"
  by (simp add: demo_serve_def GRPCRecoveryInterceptor_def GRPCTraceInterceptor_def GRPCUnaryInterceptor_def GRPCRateLimitInterceptor_def
      Authenticate_def bearer_header bearer_md_def no_tracer_def unlimited_def md_Get_def call_ext_def fresh_world_def demo_verify
      RequestHeader_def to_lower_def Let_def)


end
