(* ===== verification/Outage.thy ===== *)
theory Outage
  imports Rate_Limit
begin

text \<open>
  The HTTP rate limiter while Redis is down (\<^verbatim>\<open>server/middleware/ratelimit.go\<close>, the fallback branch).  The
  token bucket of \<^verbatim>\<open>golang.org/x/time/rate\<close> is the parameter \<^verbatim>\<open>limiter_Allow\<close>; what it documents is the
  hypothesis \<open>bucket_contract\<close>: tokens fill at the limit per second up to the burst, and a call is
  allowed when one is left, which it takes.
\<close>

section \<open>The token bucket\<close>

text \<open>A bucket is its tokens and the time they were counted; \<open>tokens_at\<close> refills it.\<close>

type_synonym bucket = "rat \<times> rat"

definition tokens_at :: "int \<times> int \<Rightarrow> rat \<Rightarrow> bucket \<Rightarrow> rat" where
  "tokens_at em t b = min (of_int (snd em)) (fst b + (t - snd b) * of_int (fst em))"

definition bucket_contract :: "('x \<Rightarrow> rat) \<Rightarrow> ('x \<Rightarrow> bucket) \<Rightarrow> 'x limiter_env \<Rightarrow> (int \<times> int) \<Rightarrow> bool" where
  "bucket_contract now bucket_of env em \<longleftrightarrow>
     (\<forall>x. let tok = tokens_at em (now x) (bucket_of x)
          in \<exists>x'. limiter_Allow env em x = (1 \<le> tok, x') \<and> now x' = now x \<and>
             bucket_of x' = (if 1 \<le> tok then (tok - 1, now x) else bucket_of x))"

text \<open>Redis is down: every script fails, and failing changes nothing the bucket knows of.\<close>

definition redis_down :: "('x \<Rightarrow> rat) \<Rightarrow> ('x \<Rightarrow> bucket) \<Rightarrow> ('x \<Rightarrow> rat list) \<Rightarrow> 'x limiter_env \<Rightarrow> bool" where
  "redis_down now bucket_of starts env \<longleftrightarrow>
     (\<forall>k rate p b x. \<exists>err x'. run_script env k rate p b x = (Inl err, x') \<and>
        now x \<le> now x' \<and> bucket_of x' = bucket_of x \<and> starts x' = starts x) \<and>
     (\<forall>em x. starts (snd (limiter_Allow env em x)) = starts x)"

text \<open>
  A request of any client, its handler, and what happens before it.  \<open>starts\<close> lists the times at
  which handlers started; only the limiter uses the bucket.
\<close>

definition any_client ::
  "('x \<Rightarrow> rat) \<Rightarrow> ('x \<Rightarrow> bucket) \<Rightarrow> ('x \<Rightarrow> rat list) \<Rightarrow>
   ('x world \<Rightarrow> 'x world) \<times> ('b, 'x) handler \<times> 'x world writer \<times> 'b request \<Rightarrow> bool" where
  "any_client now bucket_of starts = (\<lambda>(env_step, handler, w, r). w = server_writer \<and>
     (\<forall>s. bucket_of (ext (env_step s)) = bucket_of (ext s) \<and> now (ext s) \<le> now (ext (env_step s)) \<and>
        starts (ext (env_step s)) = starts (ext s)) \<and>
     (\<forall>a s. bucket_of (ext (snd (handler a s))) = bucket_of (ext s) \<and> now (ext s) \<le> now (ext (snd (handler a s))) \<and>
        starts (ext (snd (handler a s))) = starts (ext s) @ [now (ext s)]))"

section \<open>The bound\<close>

text \<open>
  The starts so far keep the bound, and so will later ones: the tokens left and the starts since
  any of them are paid by the burst and the time since.
\<close>

definition paid :: "int \<times> int \<Rightarrow> bucket \<Rightarrow> rat list \<Rightarrow> bool" where
  "paid em b ts \<longleftrightarrow> 0 \<le> fst b \<and>
     (\<forall>k j. k \<le> j \<longrightarrow> j < length ts \<longrightarrow>
        of_nat (Suc (j - k)) \<le> of_int (snd em) + (ts ! j - ts ! k) * of_int (fst em)) \<and>
     (\<forall>k < length ts. fst b + of_nat (length ts - k) \<le> of_int (snd em) + (snd b - ts ! k) * of_int (fst em))"

lemma paid_take:
  assumes "paid em b ts" and "1 \<le> tokens_at em t b"
  shows "paid em (tokens_at em t b - 1, t) (ts @ [t])"
proof -
  let ?tok = "tokens_at em t b"
  have tok: "?tok \<le> of_int (snd em)" "?tok \<le> fst b + (t - snd b) * of_int (fst em)" by (simp_all add: tokens_at_def)
  have old: "?tok + of_nat (length ts - k) \<le> of_int (snd em) + (t - ts ! k) * of_int (fst em)" if "k < length ts" for k
  proof -
    from assms(1) that have "fst b + of_nat (length ts - k) \<le> of_int (snd em) + (snd b - ts ! k) * of_int (fst em)"
      by (simp add: paid_def)
    with tok(2) show ?thesis by (simp add: algebra_simps)
  qed
  have since: "?tok - 1 + of_nat (Suc (length ts) - k) \<le> of_int (snd em) + (t - (ts @ [t]) ! k) * of_int (fst em)"
    if "k < Suc (length ts)" for k
    using that old [of k] tok(1) by (cases "k = length ts") (simp_all add: nth_append Suc_diff_le)
  have "of_nat (Suc (j - k)) \<le> of_int (snd em) + ((ts @ [t]) ! j - (ts @ [t]) ! k) * (of_int (fst em) :: rat)"
    if "k \<le> j" "j < Suc (length ts)" for k j
  proof (cases "j = length ts")
    case True
    with since [of k] that assms(2) show ?thesis by (simp add: Suc_diff_le)
  next
    case False
    with assms(1) that show ?thesis by (simp add: paid_def nth_append)
  qed
  with since assms(2) show ?thesis by (simp add: paid_def)
qed

text \<open>One request during the outage.\<close>

lemma outage_call:
  assumes "bucket_contract now bucket_of env em" and "redis_down now bucket_of starts env" and "0 < rps"
    and "any_client now bucket_of starts (g, handler, server_writer, r)"
    and "paid em (bucket_of (ext s)) (starts (ext s))"
    and "s' = snd (RateLimitMiddleware env em rps burst period handler (server_writer, r) s)"
  shows "paid em (bucket_of (ext s')) (starts (ext s'))"
proof -
  from assms(2) obtain err x1 where x1: "run_script env (http_limit_key r) rps (seconds period) burst (ext s) = (Inl err, x1)"
    "bucket_of x1 = bucket_of (ext s)" "starts x1 = starts (ext s)" unfolding redis_down_def by metis
  let ?tok = "tokens_at em (now x1) (bucket_of x1)"
  from assms(1) obtain x2 where x2: "limiter_Allow env em x1 = (1 \<le> ?tok, x2)" "now x2 = now x1"
    "bucket_of x2 = (if 1 \<le> ?tok then (?tok - 1, now x1) else bucket_of x1)"
    unfolding bucket_contract_def Let_def by blast
  have st: "starts x2 = starts (ext s)" using assms(2) x2(1) x1(3) unfolding redis_down_def by (metis snd_conv)
  from assms(4) have h: "bucket_of (ext (snd (handler (server_writer, r) t))) = bucket_of (ext t) \<and>
      starts (ext (snd (handler (server_writer, r) t))) = starts (ext t) @ [now (ext t)]" for t
    by (simp add: any_client_def)
  show ?thesis
  proof (cases "1 \<le> ?tok")
    case True
    with x1(1) x2(1) assms(3,6) have "s' = snd (handler (server_writer, r) (s\<lparr>ext := x2\<rparr>))"
      by (simp add: RateLimitMiddleware_def call_ext_def)
    with h [of "s\<lparr>ext := x2\<rparr>"] x1 x2 st True paid_take [OF assms(5), of "now x1"] show ?thesis by simp
  next
    case False
    with x1(1) x2(1) assms(3,6) have "ext s' = x2"
      by (simp add: RateLimitMiddleware_def call_ext_def)
    with x1 x2 st False assms(5) show ?thesis by simp
  qed
qed

lemma outage_run:
  assumes "bucket_contract now bucket_of env em" and "redis_down now bucket_of starts env" and "0 < rps"
  shows "\<forall>call \<in> set calls. any_client now bucket_of starts call \<Longrightarrow> paid em (bucket_of (ext s)) (starts (ext s)) \<Longrightarrow>
    s' = serve_all (RateLimitMiddleware env em rps burst period) calls s \<Longrightarrow> paid em (bucket_of (ext s')) (starts (ext s'))"
proof (induction calls arbitrary: s)
  case (Cons call calls)
  then obtain g handler r where call: "call = (g, handler, server_writer, r)" by (cases call) (auto simp: any_client_def)
  with Cons.prems(1) have c: "any_client now bucket_of starts (g, handler, server_writer, r)" by simp
  with Cons.prems(2) have "paid em (bucket_of (ext (g s))) (starts (ext (g s)))" by (simp add: any_client_def)
  from outage_call [OF assms c this refl] call Cons show ?case by simp
qed simp

section \<open>Properties\<close>

text \<open>
  C15. While Redis is down the emergency limiter bounds all clients together: from a full bucket, any
  run of handler starts from the \<open>k\<close>-th to the \<open>j\<close>-th holds at most twice the burst plus twice \<^verbatim>\<open>rps\<close>
  per second of the time between them, for the values with which the process first built the
  middleware.  The bound is per second whatever \<^verbatim>\<open>period\<close> is.
\<close>

theorem outage_bounds_all_clients:
  assumes "init_limiter rps burst None = Some em" and "0 < rps" and "rps * 2 < 2 ^ 63" and "0 \<le> burst" and "burst * 2 < 2 ^ 63"
    and "bucket_contract now bucket_of env em" and "redis_down now bucket_of starts env"
    and "\<forall>call \<in> set calls. any_client now bucket_of starts call"
    and "bucket_of (ext s) = (of_int (burst * 2), now (ext s))" and "starts (ext s) = []"
    and "ts = starts (ext (serve_all (RateLimitMiddleware env em rps burst period) calls s))"
    and "k \<le> j" and "j < length ts"
  shows "of_nat (Suc (j - k)) \<le> 2 * of_int burst + (ts ! j - ts ! k) * (2 * of_int rps)"
proof -
  have em: "em = (rps * 2, burst * 2)" using assms(1-5) by (simp add: init_limiter_def i64_id)
  have "paid em (bucket_of (ext s)) (starts (ext s))" using assms(4,9,10) by (simp add: paid_def)
  from outage_run [OF assms(6,7,2,8) this refl, of burst period] assms(11) have
    "paid em (bucket_of (ext (serve_all (RateLimitMiddleware env em rps burst period) calls s))) ts" by simp
  with assms(12,13) em show ?thesis by (simp add: paid_def mult.commute)
qed

text \<open>A process without Redis: a clock, the bucket and the starts; its handler takes half a second.\<close>

type_synonym outage_state = "rat \<times> bucket \<times> rat list"

definition outage_env :: "outage_state limiter_env" where
  "outage_env =
     \<lparr>run_script = (\<lambda>k rate p b x. (Inl (ErrorString ''connection refused''), x)),
      limiter_Allow = (\<lambda>em (t, b, ts). let tok = tokens_at em t b
        in (1 \<le> tok, (t, if 1 \<le> tok then (tok - 1, t) else b, ts))),
      grpc_SetHeader = (\<lambda>_ x. x)\<rparr>"

definition half_second_handler :: "(unit, outage_state) handler" where
  "half_second_handler = (\<lambda>a s. (Ok (), s\<lparr>ext := (case ext s of (t, b, ts) \<Rightarrow> (t + 1 / 2, b, ts @ [t]))\<rparr>))"

definition outage_calls ::
  "((outage_state world \<Rightarrow> outage_state world) \<times> (unit, outage_state) handler \<times> outage_state world writer \<times> unit request) list" where
  "outage_calls = replicate 4 (id, half_second_handler, server_writer, from_proxy ''1'')"

text \<open>With a limit of one request per hour and a burst of one, four handlers start within two seconds.\<close>

lemma outage_starts:
  "ext (serve_all (RateLimitMiddleware outage_env (2, 2) 1 1 hour) outage_calls (fresh_world (7, (2, 7), []))) =
     (9, (1, 17 / 2), [7, 15 / 2, 8, 17 / 2])"
  by (simp add: outage_calls_def numeral_eq_Suc RateLimitMiddleware_def outage_env_def half_second_handler_def call_ext_def
      fresh_world_def tokens_at_def Let_def)

theorem outage_bounds_all_clients_witness:
  "\<exists>ts. ts = snd (snd (ext (serve_all (RateLimitMiddleware outage_env (2, 2) 1 1 hour) outage_calls
       (fresh_world (7, (2, 7), []))))) \<and> length ts = 4 \<and>
     of_nat (Suc (3 - 0)) \<le> 2 * of_int 1 + (ts ! 3 - ts ! 0) * (2 * of_int 1)"
proof -
  define ts where "ts = snd (snd (ext (serve_all (RateLimitMiddleware outage_env (2, 2) 1 1 hour) outage_calls
      (fresh_world (7, (2, 7), [])))))"
  have len: "length ts = 4" using outage_starts by (simp add: ts_def)
  have bucket: "bucket_contract fst (\<lambda>x. fst (snd x)) outage_env (2, 2)"
    by (auto simp: bucket_contract_def outage_env_def Let_def split: prod.splits)
  have down: "redis_down fst (\<lambda>x. fst (snd x)) (\<lambda>x. snd (snd x)) outage_env"
    by (auto simp: redis_down_def outage_env_def Let_def split: prod.splits)
  have calls: "\<forall>call \<in> set outage_calls. any_client fst (\<lambda>x. fst (snd x)) (\<lambda>x. snd (snd x)) call"
    by (auto simp: outage_calls_def any_client_def half_second_handler_def split: prod.splits)
  have init: "init_limiter 1 1 None = Some (2, 2)" by (simp add: init_limiter_def i64_id)
  have "of_nat (Suc (3 - 0)) \<le> 2 * of_int 1 + (ts ! 3 - ts ! 0) * (2 * of_int 1)"
    by (rule outage_bounds_all_clients [OF init _ _ _ _ bucket down calls _ _ ts_def]) (simp_all add: len fresh_world_def)
  with len ts_def show ?thesis by blast
qed

end
