(* ===== verification/Telemetry.thy ===== *)
theory Telemetry
  imports Prelude
begin

text \<open>
  \<^verbatim>\<open>log/logger.go\<close> and \<^verbatim>\<open>pkg/telemetry/otel_handler.go\<close>: the logger with its redaction, and the
  handler around it that puts log records onto the active span.  A record's level is the
  number \<^verbatim>\<open>slog\<close> gives it; a span is what the calls on it recorded.
\<close>

section \<open>Records\<close>

text \<open>
  A \<^verbatim>\<open>slog.Value\<close> by its kind: a string, an int64, a float64 (by its text), a bool, an \<^verbatim>\<open>error\<close>, a
  group of attributes, or anything else by the text of its \<^verbatim>\<open>String\<close> method.
\<close>

datatype slog_value =
    SString string
  | SInt int
  | SFloat string
  | SBool bool
  | SError go_error
  | SGroup "(string \<times> slog_value) list"
  | SOther string

type_synonym slog_attr = "string \<times> slog_value"

record log_record =
  Level :: int
  Message :: string
  Attrs :: "slog_attr list"

definition LevelDebug :: int where "LevelDebug = -4"
definition LevelInfo :: int where "LevelInfo = 0"
definition LevelWarn :: int where "LevelWarn = 4"
definition LevelError :: int where "LevelError = 8"

lemmas slog_levels = LevelDebug_def LevelInfo_def LevelWarn_def LevelError_def

section \<open>Redaction\<close>

definition sensitiveKeys :: "string set" where
  "sensitiveKeys = {''password'', ''token'', ''access_token'', ''refresh_token'', ''authorization'', ''secret'',
     ''db_dsn'', ''api_key''}"

definition Redactor :: "slog_attr \<Rightarrow> slog_attr" where
  "Redactor a = (if to_lower (fst a) \<in> sensitiveKeys then (fst a, SString ''[REDACTED]'') else a)"

text \<open>
  What a handler with \<^verbatim>\<open>ReplaceAttr\<close> does to the attributes of a record: the function is called on
  every attribute that is not a group, also inside groups.
\<close>

fun replace_attrs :: "(slog_attr \<Rightarrow> slog_attr) \<Rightarrow> slog_attr \<Rightarrow> slog_attr" where
  "replace_attrs f (k, SGroup as) = (k, SGroup (map (replace_attrs f) as))"
| "replace_attrs f (k, v) = f (k, v)"

record log_config =
  cfg_Level :: string
  cfg_Format :: string

definition parse_level :: "string \<Rightarrow> int" where
  "parse_level s =
     (let l = to_lower s
      in if l = ''debug'' then LevelDebug else if l = ''warn'' then LevelWarn
         else if l = ''error'' then LevelError else LevelInfo)"

text \<open>
  The handler \<^verbatim>\<open>New\<close> wraps, console or JSON: what it writes for a record.  Both formats replace the
  attributes the same way; the output is the record it formats.
\<close>

definition base_handler :: "log_config \<Rightarrow> log_record \<Rightarrow> log_record list \<Rightarrow> log_record list" where
  "base_handler cfg r out = out @ [r\<lparr>Attrs := map (replace_attrs Redactor) (Attrs r)\<rparr>]"

section \<open>Spans\<close>

datatype otel_value = OString string | OInt int | OFloat string | OBool bool

datatype span_call =
    RecordError go_error "(string \<times> otel_value) list"
  | SetStatusError string
  | AddEvent string "(string \<times> otel_value) list"

record span =
  IsRecording :: bool
  span_TraceID :: "string option"
  span_SpanID :: "string option"
  span_calls :: "span_call list"

text \<open>\<^verbatim>\<open>Value.String\<close> of the kinds that fall to the default case.\<close>

fun value_string :: "slog_value \<Rightarrow> string" where
  "value_string (SString s) = s"
| "value_string (SInt i) = itoa i"
| "value_string (SFloat t) = t"
| "value_string (SBool b) = (if b then ''true'' else ''false'')"
| "value_string (SError e) = err_text e"
| "value_string (SGroup as) = ''['' @ join_with (CHR '' '') (map (\<lambda>(k, v). k @ ''='' @ value_string v) as) @ '']''"
| "value_string (SOther t) = t"

definition otel_attr :: "slog_attr \<Rightarrow> string \<times> otel_value" where
  "otel_attr a =
     (case snd a of
        SString s \<Rightarrow> (fst a, OString s)
      | SInt i \<Rightarrow> (fst a, OInt i)
      | SFloat t \<Rightarrow> (fst a, OFloat t)
      | SBool b \<Rightarrow> (fst a, OBool b)
      | v \<Rightarrow> (fst a, OString (value_string v)))"

text \<open>The error the loop over the attributes leaves in \<^verbatim>\<open>errFound\<close>.\<close>

fun find_error :: "slog_attr list \<Rightarrow> go_error option \<Rightarrow> go_error option" where
  "find_error [] errFound = errFound"
| "find_error ((k, v) # as) errFound =
     (case v of
        SError e \<Rightarrow> find_error as (if k = ''error'' then Some e else errFound)
      | _ \<Rightarrow> find_error as errFound)"

definition enrichSpan :: "span \<Rightarrow> log_record \<Rightarrow> span" where
  "enrichSpan sp r =
     (let otelAttrs = map otel_attr (Attrs r);
          errFound = (case find_error (Attrs r) None of
                        None \<Rightarrow> if Level r \<ge> LevelError then Some (ErrorString (Message r)) else None
                      | Some e \<Rightarrow> Some e)
      in if Level r \<ge> LevelError
         then sp\<lparr>span_calls := span_calls sp @ [RecordError (the errFound) otelAttrs, SetStatusError (Message r)]\<rparr>
         else if Level r = LevelWarn
         then sp\<lparr>span_calls := span_calls sp @ [AddEvent ''log_warning'' (otelAttrs @ [(''message'', OString (Message r))])]\<rparr>
         else sp)"

definition add_ids :: "span \<Rightarrow> log_record \<Rightarrow> log_record" where
  "add_ids sp r = r\<lparr>Attrs := Attrs r @
     (case span_TraceID sp of Some t \<Rightarrow> [(''trace_id'', SString t)] | None \<Rightarrow> []) @
     (case span_SpanID sp of Some t \<Rightarrow> [(''span_id'', SString t)] | None \<Rightarrow> [])\<rparr>"

definition Handle ::
  "(log_record \<Rightarrow> 'o \<Rightarrow> 'o) \<Rightarrow> log_record \<Rightarrow> span \<times> 'o \<Rightarrow> span \<times> 'o" where
  "Handle inner r = (\<lambda>(sp, out).
     if IsRecording sp
     then (let r1 = add_ids sp r;
               sp1 = (if Level r1 \<ge> LevelWarn then enrichSpan sp r1 else sp)
           in (sp1, inner r1 out))
     else (sp, inner r out))"

text \<open>
  \<^verbatim>\<open>WithAttrs\<close> and \<^verbatim>\<open>WithGroup\<close> act on the handler inside: attributes bound to a logger come in front of a
  record's own, a group wraps them.
\<close>

definition WithAttrs :: "slog_attr list \<Rightarrow> (log_record \<Rightarrow> 'o \<Rightarrow> 'o) \<Rightarrow> log_record \<Rightarrow> 'o \<Rightarrow> 'o" where
  "WithAttrs attrs inner r out = inner (r\<lparr>Attrs := attrs @ Attrs r\<rparr>) out"

definition WithGroup :: "string \<Rightarrow> (log_record \<Rightarrow> 'o \<Rightarrow> 'o) \<Rightarrow> log_record \<Rightarrow> 'o \<Rightarrow> 'o" where
  "WithGroup name inner r out = inner (r\<lparr>Attrs := [(name, SGroup (Attrs r))]\<rparr>) out"

text \<open>A call on the logger \<^verbatim>\<open>New\<close> returns: \<^verbatim>\<open>slog\<close> asks \<^verbatim>\<open>Enabled\<close> first.\<close>

definition log_with :: "log_config \<Rightarrow> log_record \<Rightarrow> span \<times> log_record list \<Rightarrow> span \<times> log_record list" where
  "log_with cfg r st = (if Level r \<ge> parse_level (cfg_Level cfg) then Handle (base_handler cfg) r st else st)"

section \<open>Facts\<close>

text \<open>An attribute that shows a sensitive value, at any depth.\<close>

fun exposes :: "slog_attr \<Rightarrow> bool" where
  "exposes (k, SGroup as) \<longleftrightarrow> (\<exists>a \<in> set as. exposes a)"
| "exposes (k, v) \<longleftrightarrow> to_lower k \<in> sensitiveKeys \<and> v \<noteq> SString ''[REDACTED]''"

lemma replace_attrs_safe: "\<not> exposes (replace_attrs Redactor a)"
proof (induction Redactor a rule: replace_attrs.induct)
  case (1 k as)
  then show ?case by auto
qed (auto simp: Redactor_def)

lemma log_with_output:
  "log_with cfg r (sp, out) = (sp', out') \<Longrightarrow>
   out' = out \<or> (\<exists>r'. out' = out @ [r'\<lparr>Attrs := map (replace_attrs Redactor) (Attrs r')\<rparr>])"
  by (auto simp: log_with_def Handle_def base_handler_def Let_def split: if_splits)

lemma otel_attrs_of_record:
  "(k, SString v) \<in> set (Attrs r) \<Longrightarrow> (k, OString v) \<in> set (map otel_attr (Attrs (add_ids sp r)))"
  by (force simp: add_ids_def otel_attr_def image_iff)

text \<open>Attributes bound by \<^verbatim>\<open>With\<close> reach the log but never the span.\<close>

lemma bound_attrs_stay_off_span:
  "fst (Handle (WithAttrs attrs inner) r (sp, out)) = fst (Handle inner r (sp, out'))"
  by (simp add: Handle_def Let_def)

section \<open>Properties\<close>



text \<open>
  How a record marks the active span: an error record adds exactly one recorded exception,
  with the error attribute if there is one and the message otherwise, and sets the error
  status to the message; a record of level warn adds one event; every other level, also
  between warn and error, adds nothing; and a span that does not record is never touched.
\<close>

lemma Handle_marks_span:
  "span_calls (fst (Handle inner r (sp, out))) = span_calls sp @
     (if \<not> IsRecording sp \<or> (Level r < LevelError \<and> Level r \<noteq> LevelWarn) then []
      else if LevelError \<le> Level r
      then [RecordError (case find_error (Attrs (add_ids sp r)) None of Some e \<Rightarrow> e | None \<Rightarrow> ErrorString (Message r))
              (map otel_attr (Attrs (add_ids sp r))),
            SetStatusError (Message r)]
      else [AddEvent ''log_warning'' (map otel_attr (Attrs (add_ids sp r)) @ [(''message'', OString (Message r))])])"
  by (auto simp: Handle_def enrichSpan_def Let_def slog_levels add_ids_def split: option.splits)

end
