(* ===== verification/Connect.thy ===== *)
theory Connect
  imports Telemetry
begin

text \<open>
  The constructors that connect to a dependency and fail fast: \<^verbatim>\<open>cache.NewRedis\<close>,
  \<^verbatim>\<open>database.NewPostgres\<close>, \<^verbatim>\<open>messaging.NewProducer\<close> and \<^verbatim>\<open>audit.NewKafkaLogger\<close>; and the tracing hooks of
  the Redis client and of the Postgres pool.

  The client libraries are parameters: creating a client, pinging and closing it.  The four
  constructors are instances of the locale \<open>fail_fast\<close>.
\<close>

section \<open>Client libraries\<close>

record ('o, 'c, 'w) client_lib =
  NewClient :: "'o \<Rightarrow> 'w \<Rightarrow> (go_error + 'c) \<times> 'w"
  Ping :: "'c \<Rightarrow> duration \<Rightarrow> 'w \<Rightarrow> go_error option \<times> 'w"
  CloseClient :: "'c \<Rightarrow> 'w \<Rightarrow> 'w"

section \<open>Redis\<close>

record redis_config =
  Addr :: string
  Password :: string
  DB :: int

text \<open>The options, and whether the tracing hook is added.\<close>

record redis_options =
  opt_Addr :: string
  opt_Password :: string
  opt_DB :: int
  opt_Hook :: bool

definition redis_options_of :: "redis_config \<Rightarrow> redis_options" where
  "redis_options_of cfg = \<lparr>opt_Addr = Addr cfg, opt_Password = Password cfg, opt_DB = DB cfg, opt_Hook = True\<rparr>"

text \<open>\<^verbatim>\<open>redis.NewClient\<close>, here \<open>newClient\<close>, has no error.\<close>

definition NewRedis ::
  "(redis_options \<Rightarrow> 'w \<Rightarrow> 'c \<times> 'w) \<Rightarrow> ('o, 'c, 'w) client_lib \<Rightarrow> redis_config \<Rightarrow> 'w \<Rightarrow> (go_error + 'c) \<times> 'w" where
  "NewRedis newClient lib cfg w =
     (case newClient (redis_options_of cfg) w of
        (rdb, w1) \<Rightarrow>
          (case Ping lib rdb (3 * second) w1 of
             (Some err, w2) \<Rightarrow>
               (Inl (wrap_prefix (''cache: failed to connect to redis at '' @ Addr cfg @ '': '') err), CloseClient lib rdb w2)
           | (None, w2) \<Rightarrow> (Inr rdb, w2)))"

section \<open>Postgres\<close>

record postgres_config =
  DBDSN :: string
  DBMaxConns :: int
  DBMinConns :: int
  DBMaxConnIdle :: duration
  DBMaxConnLife :: duration
  DBConnectTimeout :: duration
  cfg_HealthCheckPeriod :: duration

text \<open>The environment variable each field is read from, with its default.\<close>

definition postgres_env :: "(string \<times> string \<times> string) list" where
  "postgres_env =
     [(''DBDSN'', ''DB_DSN'', []),
      (''DBMaxConns'', ''DB_MAX_OPEN_CONNS'', ''50''),
      (''DBMinConns'', ''DB_MIN_IDLE_CONNS'', ''10''),
      (''DBMaxConnIdle'', ''DB_CONN_MAX_LIFETIME'', ''30m''),
      (''DBMaxConnLife'', ''DB_CONN_MAX_IDLE_TIME'', ''15m''),
      (''DBConnectTimeout'', ''DB_CONN_TIMEOUT'', ''15m''),
      (''HealthCheckPeriod'', ''DB_HEALTHCHECK_PERIOD'', ''1m'')]"

record pool_config =
  MaxConns :: int
  MinConns :: int
  MaxConnLifetime :: duration
  MaxConnIdleTime :: duration
  ConnectTimeout :: duration
  HealthCheckPeriod :: duration
  pool_Tracer :: bool

text \<open>The settings of \<^verbatim>\<open>NewPostgres\<close> in the order of its assignments.\<close>

definition tune_pool :: "postgres_config \<Rightarrow> pool_config \<Rightarrow> pool_config" where
  "tune_pool cfg pc =
     pc\<lparr>MaxConns := DBMaxConns cfg, MinConns := DBMinConns cfg, MaxConnLifetime := DBMaxConnLife cfg,
        MaxConnIdleTime := DBMaxConnIdle cfg, ConnectTimeout := DBConnectTimeout cfg,
        HealthCheckPeriod := cfg_HealthCheckPeriod cfg, pool_Tracer := True,
        HealthCheckPeriod := 1 * minute\<rparr>"

definition NewPostgres ::
  "(string \<Rightarrow> go_error + pool_config) \<Rightarrow> (pool_config, 'c, 'w) client_lib \<Rightarrow> postgres_config \<Rightarrow> 'w \<Rightarrow> (go_error + 'c) \<times> 'w" where
  "NewPostgres parse lib cfg w =
     (case parse (DBDSN cfg) of
        Inl err \<Rightarrow> (Inl (wrap_prefix ''database: failed to parse DBDSN: '' err), w)
      | Inr poolConfig \<Rightarrow>
          (case NewClient lib (tune_pool cfg poolConfig) w of
             (Inl err, w1) \<Rightarrow> (Inl (wrap_prefix ''database: failed to create pool: '' err), w1)
           | (Inr pool, w1) \<Rightarrow>
               (case Ping lib pool (5 * second) w1 of
                  (Some err, w2) \<Rightarrow>
                    (Inl (wrap_prefix ''database: failed to ping postgres: '' err), CloseClient lib pool w2)
                | (None, w2) \<Rightarrow> (Inr pool, w2))))"

section \<open>Kafka\<close>

datatype partitioner = DefaultPartitioner | RoundRobin

record kgo_options =
  SeedBrokers :: "string list"
  Compression :: string
  AutoTopicCreation :: bool
  RetryTimeout :: "duration option"
  Partitioner :: partitioner

definition producer_options :: "string list \<Rightarrow> kgo_options" where
  "producer_options brokers = \<lparr>SeedBrokers = brokers, Compression = ''snappy'', AutoTopicCreation = True,
     RetryTimeout = Some (10 * second), Partitioner = DefaultPartitioner\<rparr>"

definition NewProducer ::
  "(kgo_options, 'c, 'w) client_lib \<Rightarrow> string list \<Rightarrow> 'w \<Rightarrow> (go_error + 'c) \<times> 'w" where
  "NewProducer lib brokers w =
     (case NewClient lib (producer_options brokers) w of
        (Inl err, w1) \<Rightarrow> (Inl (wrap_prefix ''kafka: failed to create franz-go client: '' err), w1)
      | (Inr client, w1) \<Rightarrow>
          (case Ping lib client (5 * second) w1 of
             (Some err, w2) \<Rightarrow> (Inl (wrap_prefix ''kafka: failed to ping brokers: '' err), CloseClient lib client w2)
           | (None, w2) \<Rightarrow> (Inr client, w2)))"

definition audit_options :: "string list \<Rightarrow> kgo_options" where
  "audit_options brokers = \<lparr>SeedBrokers = brokers, Compression = ''snappy'', AutoTopicCreation = True,
     RetryTimeout = None, Partitioner = RoundRobin\<rparr>"

text \<open>The logger it returns is the client and the topic.\<close>

definition NewKafkaLogger ::
  "(kgo_options, 'c, 'w) client_lib \<Rightarrow> string list \<Rightarrow> string \<Rightarrow> 'w \<Rightarrow> (go_error + ('c \<times> string)) \<times> 'w" where
  "NewKafkaLogger lib brokers topic0 w =
     (let topic = (if topic0 = [] then ''system.audit.events'' else topic0)
      in case NewClient lib (audit_options brokers) w of
           (Inl err, w1) \<Rightarrow> (Inl (wrap_prefix ''audit: failed to create franz-go client: '' err), w1)
         | (Inr client, w1) \<Rightarrow>
             (case Ping lib client (5 * second) w1 of
                (Some err, w2) \<Rightarrow> (Inl (wrap_prefix ''audit: failed to connect to brokers: '' err), CloseClient lib client w2)
              | (None, w2) \<Rightarrow> (Inr (client, topic), w2)))"

text \<open>\<^verbatim>\<open>Close\<close> of the producer and of the logger: the client is closed, there is no error.\<close>

definition Producer_Close :: "(kgo_options, 'c, 'w) client_lib \<Rightarrow> 'c \<Rightarrow> 'w \<Rightarrow> go_error option \<times> 'w" where
  "Producer_Close lib client w = (None, CloseClient lib client w)"

definition KafkaLogger_Close :: "(kgo_options, 'c, 'w) client_lib \<Rightarrow> 'c \<times> string \<Rightarrow> 'w \<Rightarrow> go_error option \<times> 'w" where
  "KafkaLogger_Close lib k w = (None, CloseClient lib (fst k) w)"

section \<open>The contract\<close>

text \<open>A library that keeps account of its open clients, and the two clean ways a constructor ends.\<close>

definition opens_clients :: "('w \<Rightarrow> 'c set) \<Rightarrow> ('w \<Rightarrow> (go_error + 'c) \<times> 'w) \<Rightarrow> bool" where
  "opens_clients open_in create \<longleftrightarrow>
     (\<forall>w. case create w of (Inl _, w1) \<Rightarrow> open_in w1 = open_in w
        | (Inr c, w1) \<Rightarrow> c \<notin> open_in w \<and> open_in w1 = insert c (open_in w))"

definition accounts :: "('w \<Rightarrow> 'c set) \<Rightarrow> ('o, 'c, 'w) client_lib \<Rightarrow> bool" where
  "accounts open_in lib \<longleftrightarrow>
     (\<forall>opts. opens_clients open_in (NewClient lib opts)) \<and>
     (\<forall>c d w. open_in (snd (Ping lib c d w)) = open_in w) \<and>
     (\<forall>c w. open_in (CloseClient lib c w) = open_in w - {c})"

definition clean_outcome ::
  "('w \<Rightarrow> 'c set) \<Rightarrow> ('o, 'c, 'w) client_lib \<Rightarrow> duration \<Rightarrow> ('r \<Rightarrow> 'c) \<Rightarrow> 'w \<Rightarrow> (go_error + 'r) \<times> 'w \<Rightarrow> bool" where
  "clean_outcome open_in lib timeout client w out \<longleftrightarrow>
     (case out of
        (Inl _, w') \<Rightarrow> open_in w' = open_in w
      | (Inr r, w') \<Rightarrow> open_in w' = insert (client r) (open_in w) \<and> (\<exists>w1. Ping lib (client r) timeout w1 = (None, w')))"

text \<open>
  A fail-fast constructor creates a client, pings it, and closes it again when the ping fails.
  \<open>client\<close> is the client in what it returns.
\<close>

locale fail_fast =
  fixes construct :: "'w \<Rightarrow> (go_error + 'r) \<times> 'w"
    and create :: "'w \<Rightarrow> (go_error + 'c) \<times> 'w"
    and lib :: "('o, 'c, 'w) client_lib"
    and timeout :: duration
    and client :: "'r \<Rightarrow> 'c"
  assumes create_fails: "create w = (Inl err, w1) \<Longrightarrow> \<exists>err'. construct w = (Inl err', w1)"
    and ping_fails: "create w = (Inr c, w1) \<Longrightarrow> Ping lib c timeout w1 = (Some err, w2) \<Longrightarrow>
      \<exists>err'. construct w = (Inl err', CloseClient lib c w2)"
    and connects: "create w = (Inr c, w1) \<Longrightarrow> Ping lib c timeout w1 = (None, w2) \<Longrightarrow>
      \<exists>r. construct w = (Inr r, w2) \<and> client r = c"
begin

text \<open>
  With a library that keeps account of its clients, a constructor leaves no client behind when
  it fails, and returns one that is open and answered a ping when it succeeds.
\<close>

lemma no_leak:
  assumes "opens_clients open_in create" and "accounts open_in lib"
  shows "clean_outcome open_in lib timeout client w (construct w)"
proof -
  obtain cr w1 where cr: "create w = (cr, w1)" by fastforce
  show ?thesis
  proof (cases cr)
    case (Inl err)
    with create_fails cr obtain err' where "construct w = (Inl err', w1)" by blast
    with spec [OF assms(1) [unfolded opens_clients_def], of w] cr Inl show ?thesis by (simp add: clean_outcome_def)
  next
    case (Inr c)
    with cr have c: "create w = (Inr c, w1)" by simp
    with spec [OF assms(1) [unfolded opens_clients_def], of w] have
      fresh: "c \<notin> open_in w" "open_in w1 = insert c (open_in w)" by simp_all
    obtain p w2 where p: "Ping lib c timeout w1 = (p, w2)" by fastforce
    then have w2: "open_in w2 = insert c (open_in w)" using assms(2) fresh(2) unfolding accounts_def by (metis snd_conv)
    show ?thesis
    proof (cases p)
      case None
      with connects [OF c] p obtain r where "construct w = (Inr r, w2)" "client r = c" by blast
      with w2 p None show ?thesis by (auto simp: clean_outcome_def)
    next
      case (Some err)
      with ping_fails [OF c] p obtain err' where "construct w = (Inl err', CloseClient lib c w2)" by blast
      with w2 fresh(1) assms(2) show ?thesis by (simp add: clean_outcome_def accounts_def)
    qed
  qed
qed

end

interpretation redis: fail_fast "NewRedis newClient lib cfg"
  "\<lambda>w. case newClient (redis_options_of cfg) w of (c, w1) \<Rightarrow> (Inr c, w1)" lib "3 * second" "\<lambda>c. c"
  by unfold_locales (auto simp: NewRedis_def split: prod.splits)

interpretation producer: fail_fast "NewProducer lib brokers" "NewClient lib (producer_options brokers)" lib "5 * second" "\<lambda>c. c"
  by unfold_locales (simp_all add: NewProducer_def)

interpretation kafka_logger: fail_fast "NewKafkaLogger lib brokers topic" "NewClient lib (audit_options brokers)" lib
  "5 * second" fst
  by unfold_locales (auto simp: NewKafkaLogger_def Let_def)

text \<open>For the pool, a connection string that does not parse counts as a client that cannot be created.\<close>

definition create_pool ::
  "(string \<Rightarrow> go_error + pool_config) \<Rightarrow> (pool_config, 'c, 'w) client_lib \<Rightarrow> postgres_config \<Rightarrow> 'w \<Rightarrow> (go_error + 'c) \<times> 'w" where
  "create_pool parse lib cfg w =
     (case parse (DBDSN cfg) of Inl err \<Rightarrow> (Inl err, w) | Inr pc \<Rightarrow> NewClient lib (tune_pool cfg pc) w)"

interpretation postgres: fail_fast "NewPostgres parse lib cfg" "create_pool parse lib cfg" lib "5 * second" "\<lambda>c. c"
  by unfold_locales (auto simp: NewPostgres_def create_pool_def split: sum.splits)

section \<open>Tracing hooks\<close>

text \<open>
  A span that a hook starts: its name and attributes, the calls on it and whether it has ended.
  A context is the number of its recording span, \<^term>\<open>None\<close> when the active span does not record.
\<close>

record hook_span =
  span_name :: string
  span_attrs :: "(string \<times> otel_value) list"
  hook_calls :: "span_call list"
  attrs_set :: "(string \<times> otel_value) list"
  ended :: bool

record 'w traced =
  spans :: "hook_span list"
  client :: 'w

definition start_span :: "string \<Rightarrow> (string \<times> otel_value) list \<Rightarrow> 'w traced \<Rightarrow> nat \<times> 'w traced" where
  "start_span name attrs s =
     (length (spans s),
      s\<lparr>spans := spans s @ [\<lparr>span_name = name, span_attrs = attrs, hook_calls = [], attrs_set = [], ended = False\<rparr>]\<rparr>)"

definition on_span :: "nat \<Rightarrow> (hook_span \<Rightarrow> hook_span) \<Rightarrow> 'w traced \<Rightarrow> 'w traced" where
  "on_span i f s = s\<lparr>spans := (spans s)[i := f (spans s ! i)]\<rparr>"

definition redis_Nil :: go_error where
  "redis_Nil = Sentinel ''redis: nil''"

text \<open>What both Redis hooks do once the span is chosen.\<close>

definition record_outcome :: "go_error option \<Rightarrow> hook_span \<Rightarrow> hook_span" where
  "record_outcome err sp =
     (case err of
        Some e \<Rightarrow> if e \<noteq> redis_Nil then sp\<lparr>hook_calls := hook_calls sp @ [RecordError e [], SetStatusError (err_text e)]\<rparr> else sp
      | None \<Rightarrow> sp)"

type_synonym 'w redis_next = "nat option \<Rightarrow> 'w traced \<Rightarrow> go_error option \<times> 'w traced"

definition DialHook :: "'d \<Rightarrow> 'd" where
  "DialHook next = next"

text \<open>\<open>cmd\<close> is the command's name and its text.\<close>

definition ProcessHook :: "'w redis_next \<Rightarrow> string \<times> string \<Rightarrow> 'w redis_next" where
  "ProcessHook next cmd ctx s =
     (if ctx = None then next ctx s
      else (case start_span ''redis.command''
                   [(''db.system'', OString ''redis''), (''db.operation'', OString (fst cmd)),
                    (''db.statement'', OString (snd cmd))] s of
              (sp, s1) \<Rightarrow>
                (case next (Some sp) s1 of
                   (err, s2) \<Rightarrow> (err, on_span sp (\<lambda>x. (record_outcome err x)\<lparr>ended := True\<rparr>) s2))))"

definition ProcessPipelineHook :: "'w redis_next \<Rightarrow> (string \<times> string) list \<Rightarrow> 'w redis_next" where
  "ProcessPipelineHook next cmds ctx s =
     (if ctx = None then next ctx s
      else (case start_span ''redis.pipeline''
                   [(''db.system'', OString ''redis''), (''db.operation'', OString ''pipeline''),
                    (''db.statement'', OString (''pipeline:'' @ itoa (int (length cmds)) @ ''_cmds'')),
                    (''db.redis.pipeline_length'', OInt (int (length cmds)))] s of
              (sp, s1) \<Rightarrow>
                (case next (Some sp) s1 of
                   (err, s2) \<Rightarrow> (err, on_span sp (\<lambda>x. (record_outcome err x)\<lparr>ended := True\<rparr>) s2))))"

definition TraceQueryStart :: "nat option \<Rightarrow> string \<Rightarrow> 'w traced \<Rightarrow> nat option \<times> 'w traced" where
  "TraceQueryStart ctx sql s =
     (if ctx = None then (ctx, s)
      else (case start_span ''db.query'' [(''db.system'', OString ''postgresql''), (''db.statement'', OString sql)] s of
              (sp, s1) \<Rightarrow> (Some sp, s1)))"

text \<open>\<open>res\<close> is the query's error or its command tag.\<close>

definition TraceQueryEnd :: "nat option \<Rightarrow> go_error + string \<Rightarrow> 'w traced \<Rightarrow> 'w traced" where
  "TraceQueryEnd ctx res s =
     (case ctx of
        None \<Rightarrow> s
      | Some sp \<Rightarrow>
          on_span sp (\<lambda>x. (case res of
              Inl err \<Rightarrow> x\<lparr>hook_calls := hook_calls x @ [RecordError err [], SetStatusError (err_text err)]\<rparr>
            | Inr tag \<Rightarrow> x\<lparr>attrs_set := attrs_set x @ [(''db.command_tag'', OString tag)]\<rparr>)\<lparr>ended := True\<rparr>) s)"

text \<open>A query between its two tracer calls; \<open>run\<close> sends it and keeps the spans that exist.\<close>

definition traced_query ::
  "(nat option \<Rightarrow> 'w traced \<Rightarrow> (go_error + string) \<times> 'w traced) \<Rightarrow> nat option \<Rightarrow> string \<Rightarrow> 'w traced \<Rightarrow> (go_error + string) \<times> 'w traced" where
  "traced_query run ctx sql s =
     (case TraceQueryStart ctx sql s of
        (ctx1, s1) \<Rightarrow> (case run ctx1 s1 of (res, s2) \<Rightarrow> (res, TraceQueryEnd ctx1 res s2)))"

definition keeps_spans :: "('w traced \<Rightarrow> 'a \<times> 'w traced) \<Rightarrow> bool" where
  "keeps_spans f \<longleftrightarrow> (\<forall>s. take (length (spans s)) (spans (snd (f s))) = spans s)"

lemma keeps_spans_split:
  "keeps_spans f \<Longrightarrow> f s = (a, t) \<Longrightarrow> \<exists>more. spans t = spans s @ more"
  unfolding keeps_spans_def by (metis append_take_drop_id snd_conv)

text \<open>
  \<open>span_around calls f s out\<close>: \<open>out\<close> is the result of one call of \<open>f\<close> under a new span; the spans that
  existed are unchanged, the new one has ended and carries the calls that the result asks for.
\<close>

definition span_around ::
  "('r \<Rightarrow> span_call list) \<Rightarrow> (nat option \<Rightarrow> 'w traced \<Rightarrow> 'r \<times> 'w traced) \<Rightarrow> 'w traced \<Rightarrow> 'r \<times> 'w traced \<Rightarrow> bool" where
  "span_around calls f s out \<longleftrightarrow>
     (\<exists>sp0 sp more res t. f (Some (length (spans s))) (s\<lparr>spans := spans s @ [sp0]\<rparr>) = (res, t) \<and>
        out = (res, t\<lparr>spans := spans s @ sp # more\<rparr>) \<and> ended sp \<and> hook_calls sp = calls res)"

lemma span_aroundI:
  assumes "keeps_spans (f (Some (length (spans s))))"
    and "f (Some (length (spans s))) (s\<lparr>spans := spans s @ [sp0]\<rparr>) = (res, t)"
    and "out = (res, on_span (length (spans s)) g t)" and "ended (g sp0)" and "hook_calls (g sp0) = calls res"
  shows "span_around calls f s out"
proof -
  from keeps_spans_split [OF assms(1,2)] obtain more where more: "spans t = spans s @ sp0 # more" by auto
  then have "on_span (length (spans s)) g t = t\<lparr>spans := spans s @ g sp0 # more\<rparr>"
    by (simp add: on_span_def nth_append list_update_append)
  with assms show ?thesis unfolding span_around_def by blast
qed

section \<open>Properties\<close>

text \<open>
  C37. The constructors fail fast without leaks: for a client library that keeps account of its
  open clients, each of \<^verbatim>\<open>NewRedis\<close>, \<^verbatim>\<open>NewPostgres\<close>, \<^verbatim>\<open>NewProducer\<close> and \<^verbatim>\<open>NewKafkaLogger\<close> either fails and
  leaves exactly the clients open that were open before, or returns a client that is open and
  has just answered its ping.
\<close>

theorem constructors_fail_fast:
  assumes "accounts redis_open redis_lib" and "accounts pool_open pool_lib" and "accounts kafka_open kafka_lib"
    and "\<And>opts. opens_clients redis_open (\<lambda>w. case newClient opts w of (c, w1) \<Rightarrow> (Inr c, w1))"
  shows "clean_outcome redis_open redis_lib (3 * second) (\<lambda>c. c) w (NewRedis newClient redis_lib rcfg w) \<and>
    clean_outcome pool_open pool_lib (5 * second) (\<lambda>c. c) v (NewPostgres parse pool_lib pcfg v) \<and>
    clean_outcome kafka_open kafka_lib (5 * second) (\<lambda>c. c) u (NewProducer kafka_lib brokers u) \<and>
    clean_outcome kafka_open kafka_lib (5 * second) fst u (NewKafkaLogger kafka_lib brokers topic u)"
proof (intro conjI)
  have "opens_clients pool_open (create_pool parse pool_lib pcfg)"
    using assms(2) by (auto simp: opens_clients_def create_pool_def accounts_def split: sum.split)
  then show "clean_outcome pool_open pool_lib (5 * second) (\<lambda>c. c) v (NewPostgres parse pool_lib pcfg v)"
    by (rule postgres.no_leak) (rule assms(2))
  show "clean_outcome redis_open redis_lib (3 * second) (\<lambda>c. c) w (NewRedis newClient redis_lib rcfg w)"
    by (rule redis.no_leak) (rule assms)+
  have kafka: "opens_clients kafka_open (NewClient kafka_lib opts)" for opts
    using assms(3) by (simp add: accounts_def)
  then show "clean_outcome kafka_open kafka_lib (5 * second) (\<lambda>c. c) u (NewProducer kafka_lib brokers u)"
    by (rule producer.no_leak) (rule assms(3))
  from kafka show "clean_outcome kafka_open kafka_lib (5 * second) fst u (NewKafkaLogger kafka_lib brokers topic u)"
    by (rule kafka_logger.no_leak) (rule assms(3))
qed

text \<open>A library that numbers its clients.\<close>

definition demo_lib :: "('o, nat, nat \<times> nat set) client_lib" where
  "demo_lib = \<lparr>NewClient = \<lambda>_ (n, open). (Inr n, (Suc n, insert n open)), Ping = \<lambda>_ _ w. (Some (ErrorString ''refused''), w),
     CloseClient = \<lambda>c (n, open). (n, open - {c})\<rparr>"

definition demo_open :: "nat \<times> nat set \<Rightarrow> nat set" where
  "demo_open w = snd w \<inter> {..<fst w}"

lemma demo_accounts: "accounts demo_open demo_lib"
  by (auto simp: accounts_def opens_clients_def demo_lib_def demo_open_def)

theorem constructors_fail_fast_witness:
  "clean_outcome demo_open (demo_lib :: (kgo_options, _, _) client_lib) (5 * second) (\<lambda>c. c) (0, {}) (NewProducer demo_lib [''b:9092''] (0, {})) \<and>
   NewProducer demo_lib [''b:9092''] (0, {}) =
     (Inl (wrap_prefix ''kafka: failed to ping brokers: '' (ErrorString ''refused'')), (1, {}))"
proof -
  have "opens_clients demo_open (\<lambda>w. case (\<lambda>(n, open). (n, (Suc n, insert n open))) w of (c, w1) \<Rightarrow> (Inr c, w1))"
    by (auto simp: opens_clients_def demo_open_def)
  from constructors_fail_fast [OF demo_accounts demo_accounts demo_accounts this,
      where u = "(0, {})" and brokers = "[''b:9092'']"]
  have "clean_outcome demo_open (demo_lib :: (kgo_options, _, _) client_lib) (5 * second) (\<lambda>c. c) (0, {}) (NewProducer demo_lib [''b:9092''] (0, {}))" by blast
  then show ?thesis by (simp add: NewProducer_def demo_lib_def)
qed

text \<open>
  C38. The tracing hooks are transparent: without a recording span a Redis command, a pipeline or a
  query runs exactly as without the hook; with one, the result is that of the call, the spans
  that existed are unchanged, and exactly one new span is there, ended, with an error status
  exactly when the call failed, the Redis answer \<^verbatim>\<open>redis.Nil\<close> not counting as a failure.
\<close>

theorem hooks_transparent:
  assumes "\<And>c. keeps_spans (next c)" and "\<And>c. keeps_spans (run c)"
  shows "ProcessHook next cmd None s = next None s \<and> ProcessPipelineHook next cmds None s = next None s \<and>
    traced_query run None sql s = run None s \<and>
    span_around (\<lambda>err. if err = None \<or> err = Some redis_Nil then []
      else [RecordError (the err) [], SetStatusError (err_text (the err))]) next s (ProcessHook next cmd (Some p) s) \<and>
    span_around (\<lambda>err. if err = None \<or> err = Some redis_Nil then []
      else [RecordError (the err) [], SetStatusError (err_text (the err))]) next s (ProcessPipelineHook next cmds (Some p) s) \<and>
    span_around (\<lambda>res. case res of Inl err \<Rightarrow> [RecordError err [], SetStatusError (err_text err)] | Inr _ \<Rightarrow> [])
      run s (traced_query run (Some p) sql s)"
proof (intro conjI)
  show "span_around (\<lambda>err. if err = None \<or> err = Some redis_Nil then []
      else [RecordError (the err) [], SetStatusError (err_text (the err))]) next s (ProcessHook next cmd (Some p) s)"
    by (cases "next (Some (length (spans s))) (snd (start_span ''redis.command'' [(''db.system'', OString ''redis''),
        (''db.operation'', OString (fst cmd)), (''db.statement'', OString (snd cmd))] s))")
      (auto intro!: span_aroundI [OF assms(1)] simp: ProcessHook_def start_span_def record_outcome_def split: option.split)
  show "span_around (\<lambda>err. if err = None \<or> err = Some redis_Nil then []
      else [RecordError (the err) [], SetStatusError (err_text (the err))]) next s (ProcessPipelineHook next cmds (Some p) s)"
    by (cases "next (Some (length (spans s))) (snd (start_span ''redis.pipeline'' [(''db.system'', OString ''redis''),
        (''db.operation'', OString ''pipeline''),
        (''db.statement'', OString (''pipeline:'' @ itoa (int (length cmds)) @ ''_cmds'')),
        (''db.redis.pipeline_length'', OInt (int (length cmds)))] s))")
      (auto intro!: span_aroundI [OF assms(1)] simp: ProcessPipelineHook_def start_span_def record_outcome_def split: option.split)
  show "span_around (\<lambda>res. case res of Inl err \<Rightarrow> [RecordError err [], SetStatusError (err_text err)] | Inr _ \<Rightarrow> [])
      run s (traced_query run (Some p) sql s)"
    by (cases "run (Some (length (spans s))) (snd (start_span ''db.query'' [(''db.system'', OString ''postgresql''),
        (''db.statement'', OString sql)] s))")
      (auto intro!: span_aroundI [OF assms(2)] simp: traced_query_def TraceQueryStart_def TraceQueryEnd_def start_span_def
        split: sum.split)
qed (simp_all add: ProcessHook_def ProcessPipelineHook_def traced_query_def TraceQueryStart_def TraceQueryEnd_def
      split: prod.split)

theorem hooks_transparent_witness:
  "ProcessHook (\<lambda>_ s. (Some redis_Nil, s)) (''get'', ''get k'') None \<lparr>spans = [], client = ()\<rparr> =
     (Some redis_Nil, \<lparr>spans = [], client = ()\<rparr>)"
  using hooks_transparent [of "\<lambda>_ s. (Some redis_Nil, s)" "\<lambda>_ s. (Inr [], s)" "(''get'', ''get k'')" "\<lparr>spans = [], client = ()\<rparr>"]
  by (simp add: keeps_spans_def)

end
