(* ===== verification/Server.thy ===== *)
theory Server
  imports Go_Channel
begin

text \<open>
  \<^verbatim>\<open>server/server.go\<close> and \<^verbatim>\<open>app/app.go\<close>: the lifecycle of the HTTP and the gRPC server and the runner
  around it.  \<open>Start_begin\<close> is \<^verbatim>\<open>Start\<close> up to its \<^verbatim>\<open>select\<close>; from there the two server goroutines, the
  goroutine in \<^verbatim>\<open>Start\<close>, the clients and the signal interleave as steps of \<open>server_step\<close>.
\<close>

section \<open>Configuration\<close>

record server_config =
  EnableHTTP :: bool
  EnableGRPC :: bool
  HTTPPort :: string
  GRPCPort :: string
  HTTPReadTimeout :: duration
  HTTPWriteTimeout :: duration
  ShutdownTimeout :: duration
  HTTPMTLSEnabled :: bool
  HTTPMTLSCACert :: string
  HTTPMTLSServerCert :: string
  HTTPMTLSServerKey :: string
  GRPCMTLSEnabled :: bool

datatype client_auth = NoClientCert | RequireAndVerifyClientCert

record tls_config =
  ClientCAs :: string
  ClientAuth :: client_auth
  MinVersion :: int

record http_server =
  srv_Addr :: string
  srv_ReadTimeout :: duration
  srv_ReadHeaderTimeout :: duration
  srv_WriteTimeout :: duration
  srv_IdleTimeout :: duration
  srv_TLSConfig :: "tls_config option"

definition VersionTLS12 :: int where "VersionTLS12 = 771"

text \<open>\<open>read\<close> is \<^verbatim>\<open>os.ReadFile\<close>, \<open>append_certs\<close> whether \<^verbatim>\<open>AppendCertsFromPEM\<close> found a certificate.\<close>

definition loadMTLSConfig ::
  "(string \<Rightarrow> go_error + string) \<Rightarrow> (string \<Rightarrow> bool) \<Rightarrow> string \<Rightarrow> go_error + tls_config" where
  "loadMTLSConfig read append_certs caPath =
     (case read caPath of
        Inl err \<Rightarrow> Inl (wrap_prefix ''could not read CA cert: '' err)
      | Inr caCert \<Rightarrow>
          if \<not> append_certs caCert then Inl (ErrorString ''failed to append CA cert'')
          else Inr \<lparr>ClientCAs = caCert, ClientAuth = RequireAndVerifyClientCert, MinVersion = VersionTLS12\<rparr>)"

section \<open>State\<close>

text \<open>A server goroutine: not started, serving, about to send its error, or finished.\<close>

datatype goroutine = NotStarted | Serving | Sending go_error | Finished

datatype main_pc = Selecting | StopHTTP | StopGRPC | WaitGRPC | Returned "go_error option"

text \<open>
  \<open>httpSrv\<close> is the field, with the TLS configuration it serves with; \<open>hasGrpc\<close> whether \<^verbatim>\<open>grpcSrv\<close> is not
  nil; \<open>rpcs\<close> the calls the gRPC server is processing.
\<close>

record server_state =
  httpSrv :: "http_server option"
  hasGrpc :: bool
  httpGo :: goroutine
  grpcGo :: goroutine
  httpStopped :: bool
  grpcStopped :: bool
  rpcs :: nat
  errChan :: "go_error chan"
  ctxDone :: bool
  main :: main_pc

section \<open>Start\<close>

definition base_server :: "server_config \<Rightarrow> http_server" where
  "base_server cfg = \<lparr>srv_Addr = CHR '':'' # HTTPPort cfg, srv_ReadTimeout = HTTPReadTimeout cfg,
     srv_ReadHeaderTimeout = 5 * second, srv_WriteTimeout = HTTPWriteTimeout cfg, srv_IdleTimeout = 120 * second,
     srv_TLSConfig = None\<rparr>"

definition started :: "server_config \<Rightarrow> bool \<Rightarrow> http_server option \<Rightarrow> server_state" where
  "started cfg grpcSrv srv =
     \<lparr>httpSrv = srv, hasGrpc = grpcSrv, httpGo = (if EnableHTTP cfg then Serving else NotStarted),
      grpcGo = (if EnableGRPC cfg then Serving else NotStarted), httpStopped = False, grpcStopped = False,
      rpcs = 0, errChan = make_chan 2, ctxDone = False, main = Selecting\<rparr>"

definition Start_begin ::
  "(string \<Rightarrow> go_error + string) \<Rightarrow> (string \<Rightarrow> bool) \<Rightarrow> server_config \<Rightarrow> bool \<Rightarrow> go_error + server_state" where
  "Start_begin read append_certs cfg grpcSrv =
     (if \<not> EnableHTTP cfg then Inr (started cfg grpcSrv None)
      else if HTTPMTLSEnabled cfg
      then (case loadMTLSConfig read append_certs (HTTPMTLSCACert cfg) of
              Inl err \<Rightarrow> Inl (wrap_prefix ''failed to load HTTP mTLS config: '' err)
            | Inr tls \<Rightarrow> Inr (started cfg grpcSrv (Some ((base_server cfg)\<lparr>srv_TLSConfig := Some tls\<rparr>))))
      else Inr (started cfg grpcSrv (Some (base_server cfg))))"

section \<open>Steps\<close>

definition http_failed :: "go_error \<Rightarrow> go_error" where "http_failed = wrap_prefix ''http server failed: ''"
definition grpc_listen_failed :: "go_error \<Rightarrow> go_error" where "grpc_listen_failed = wrap_prefix ''failed to listen grpc: ''"
definition grpc_failed :: "go_error \<Rightarrow> go_error" where "grpc_failed = wrap_prefix ''grpc server failed: ''"

definition http_ErrServerClosed :: go_error where
  "http_ErrServerClosed = Sentinel ''http: Server closed''"

datatype server_label =
    HttpReturns go_error | HttpSends | GrpcListenFails go_error | GrpcReturns "go_error option" | GrpcSends
  | RpcBegins | RpcEnds | Cancel | SelectDone | SelectErr | ShutdownHTTP | GracefulStop | GrpcDrained

text \<open>
  \<^verbatim>\<open>ListenAndServe\<close> returns \<^verbatim>\<open>ErrServerClosed\<close> once \<^verbatim>\<open>Shutdown\<close> was called, and \<^verbatim>\<open>Serve\<close> returns nil once
  \<^verbatim>\<open>GracefulStop\<close> was called; \<^verbatim>\<open>Shutdown\<close> returns, with an error or not, when it is done or its
  timeout is over; \<^verbatim>\<open>GracefulStop\<close> returns when no call is being processed.
\<close>

inductive server_step :: "server_state \<Rightarrow> server_label \<Rightarrow> server_state \<Rightarrow> bool" where
  http_fails: "httpGo s = Serving \<Longrightarrow> err \<noteq> http_ErrServerClosed \<Longrightarrow>
     server_step s (HttpReturns err) (s\<lparr>httpGo := Sending (http_failed err)\<rparr>)"
| http_closed: "httpGo s = Serving \<Longrightarrow> httpStopped s \<Longrightarrow>
     server_step s (HttpReturns http_ErrServerClosed) (s\<lparr>httpGo := Finished\<rparr>)"
| http_sends: "httpGo s = Sending e \<Longrightarrow> try_send e (errChan s) = Sent c \<Longrightarrow>
     server_step s HttpSends (s\<lparr>httpGo := Finished, errChan := c\<rparr>)"
| grpc_no_listener: "grpcGo s = Serving \<Longrightarrow>
     server_step s (GrpcListenFails err) (s\<lparr>grpcGo := Sending (grpc_listen_failed err)\<rparr>)"
| grpc_fails: "grpcGo s = Serving \<Longrightarrow>
     server_step s (GrpcReturns (Some err)) (s\<lparr>grpcGo := Sending (grpc_failed err)\<rparr>)"
| grpc_stops: "grpcGo s = Serving \<Longrightarrow> grpcStopped s \<Longrightarrow>
     server_step s (GrpcReturns None) (s\<lparr>grpcGo := Finished\<rparr>)"
| grpc_sends: "grpcGo s = Sending e \<Longrightarrow> try_send e (errChan s) = Sent c \<Longrightarrow>
     server_step s GrpcSends (s\<lparr>grpcGo := Finished, errChan := c\<rparr>)"
| rpc_begins: "grpcGo s = Serving \<Longrightarrow> \<not> grpcStopped s \<Longrightarrow> server_step s RpcBegins (s\<lparr>rpcs := Suc (rpcs s)\<rparr>)"
| rpc_ends: "rpcs s = Suc n \<Longrightarrow> server_step s RpcEnds (s\<lparr>rpcs := n\<rparr>)"
| cancel: "server_step s Cancel (s\<lparr>ctxDone := True\<rparr>)"
| select_done: "main s = Selecting \<Longrightarrow> ctxDone s \<Longrightarrow> server_step s SelectDone (s\<lparr>main := StopHTTP\<rparr>)"
| select_err: "main s = Selecting \<Longrightarrow> recv (errChan s) = Some (e, c) \<Longrightarrow>
     server_step s SelectErr (s\<lparr>main := Returned (Some e), errChan := c\<rparr>)"
| shutdown_http: "main s = StopHTTP \<Longrightarrow>
     server_step s ShutdownHTTP (s\<lparr>httpStopped := (httpSrv s \<noteq> None), main := StopGRPC\<rparr>)"
| graceful_stop: "main s = StopGRPC \<Longrightarrow>
     server_step s GracefulStop (if hasGrpc s then s\<lparr>grpcStopped := True, main := WaitGRPC\<rparr> else s\<lparr>main := Returned None\<rparr>)"
| grpc_drained: "main s = WaitGRPC \<Longrightarrow> rpcs s = 0 \<Longrightarrow> server_step s GrpcDrained (s\<lparr>main := Returned None\<rparr>)"

definition server_init ::
  "(string \<Rightarrow> go_error + string) \<Rightarrow> (string \<Rightarrow> bool) \<Rightarrow> server_config \<Rightarrow> bool \<Rightarrow> server_state \<Rightarrow> bool" where
  "server_init read append_certs cfg grpcSrv s \<longleftrightarrow> Start_begin read append_certs cfg grpcSrv = Inr s"

section \<open>The runner\<close>

datatype run_end = Exit int | ReturnsNormally | WaitsForSignal

text \<open>
  \<^verbatim>\<open>Runner.Run\<close> once \<^verbatim>\<open>fn\<close> has returned \<open>res\<close>: its log and how it ends; \<open>signalled\<close> says whether the
  context is cancelled.
\<close>

definition Run :: "go_error option \<Rightarrow> bool \<Rightarrow> string list \<times> run_end" where
  "Run res signalled =
     (case res of
        Some err \<Rightarrow> ([''Service starting...'', ''Service startup failed''], Exit 1)
      | None \<Rightarrow>
          if signalled
          then ([''Service starting...'', ''Shutdown signal received. Cleaning up...'', ''Service shutdown complete.''],
                ReturnsNormally)
          else ([''Service starting...''], WaitsForSignal))"

section \<open>Invariant\<close>

fun pending :: "goroutine \<Rightarrow> nat" where
  "pending Serving = 1"
| "pending (Sending e) = 1"
| "pending _ = 0"

text \<open>Each goroutine sends at most once, so the channel has room for whatever is still to come.\<close>

definition room_inv :: "server_state \<Rightarrow> bool" where
  "room_inv s \<longleftrightarrow> length (chan_buf (errChan s)) + pending (httpGo s) + pending (grpcGo s) \<le> 2 \<and>
     chan_cap (errChan s) = 2 \<and> \<not> chan_closed (errChan s)"

text \<open>The goroutine in \<^verbatim>\<open>Start\<close> is past the calls that its place in the code is behind.\<close>

fun stops_done :: "main_pc \<Rightarrow> bool \<times> bool \<times> bool" where
  "stops_done Selecting = (False, False, False)"
| "stops_done StopHTTP = (True, False, False)"
| "stops_done StopGRPC = (True, True, False)"
| "stops_done WaitGRPC = (True, True, True)"
| "stops_done (Returned None) = (True, True, True)"
| "stops_done (Returned (Some e)) = (False, False, False)"

definition order_inv :: "server_config \<Rightarrow> bool \<Rightarrow> server_state \<Rightarrow> bool" where
  "order_inv cfg grpcSrv s \<longleftrightarrow>
     (case stops_done (main s) of (cancelled, http, grpc) \<Rightarrow>
        (cancelled \<longrightarrow> ctxDone s) \<and> httpStopped s = (http \<and> EnableHTTP cfg) \<and> grpcStopped s = (grpc \<and> grpcSrv)) \<and>
     (httpSrv s \<noteq> None \<longleftrightarrow> EnableHTTP cfg) \<and> hasGrpc s = grpcSrv \<and>
     (main s = Returned None \<longrightarrow> grpcSrv \<longrightarrow> rpcs s = 0)"

definition server_inv :: "server_config \<Rightarrow> bool \<Rightarrow> server_state \<Rightarrow> bool" where
  "server_inv cfg grpcSrv s \<longleftrightarrow> room_inv s \<and> order_inv cfg grpcSrv s"

lemma server_inv_init: "server_init read append_certs cfg grpcSrv s \<Longrightarrow> server_inv cfg grpcSrv s"
  by (auto simp: server_init_def Start_begin_def started_def server_inv_def room_inv_def order_inv_def make_chan_def
      split: if_splits sum.splits)

lemma room_inv_step: "server_step s l t \<Longrightarrow> room_inv s \<Longrightarrow> room_inv t"
  by (erule server_step.cases)
    (auto simp: room_inv_def try_send_def recv_def split: if_splits list.splits)

lemma order_inv_step: "server_step s l t \<Longrightarrow> order_inv cfg grpcSrv s \<Longrightarrow> order_inv cfg grpcSrv t"
  by (erule server_step.cases) (auto simp: order_inv_def split: prod.splits)

lemma server_inv_step: "server_step s l t \<Longrightarrow> server_inv cfg grpcSrv s \<Longrightarrow> server_inv cfg grpcSrv t"
  by (simp add: server_inv_def room_inv_step order_inv_step)

interpretation server: inductive_invariant "server_init read append_certs cfg grpcSrv" server_step "server_inv cfg grpcSrv"
  by unfold_locales (rule server_inv_init, assumption, rule server_inv_step)

text \<open>A goroutine that has an error to send can always send it.\<close>

lemma room_can_send:
  assumes "room_inv s" and "httpGo s = Sending e \<or> grpcGo s = Sending e"
  shows "\<exists>c. try_send e (errChan s) = Sent c"
  using assms by (auto simp: room_inv_def try_send_def)

text \<open>While a call is being processed, \<^verbatim>\<open>GracefulStop\<close> does not return.\<close>

lemma stuck_in_stop:
  "server_step s l t \<Longrightarrow> l \<noteq> RpcEnds \<Longrightarrow> main s = WaitGRPC \<Longrightarrow> grpcStopped s \<Longrightarrow> 0 < rpcs s \<Longrightarrow>
   main t = WaitGRPC \<and> grpcStopped t \<and> rpcs t = rpcs s"
  by (erule server_step.cases) auto

section \<open>Properties\<close>

text \<open>
  C12. A clean end means a clean stop: whenever \<^verbatim>\<open>Start\<close> has returned nil, and so whenever the runner
  ends normally with it, the context was cancelled, the HTTP server (if enabled) was told to
  shut down, and the gRPC server (if present) was stopped with no call left.  And no goroutine
  is ever left blocked on the error channel.
\<close>

theorem Start_stops_cleanly:
  assumes "reach (server_init read append_certs cfg grpcSrv) server_step s"
  shows "(main s = Returned res \<and> snd (Run res (ctxDone s)) = ReturnsNormally \<longrightarrow>
      ctxDone s \<and> (EnableHTTP cfg \<longrightarrow> httpStopped s) \<and> (grpcSrv \<longrightarrow> grpcStopped s \<and> rpcs s = 0)) \<and>
    (httpGo s = Sending e \<or> grpcGo s = Sending e \<longrightarrow> (\<exists>c. try_send e (errChan s) = Sent c))"
proof -
  have inv: "room_inv s" "order_inv cfg grpcSrv s" using server.holds [OF assms] by (simp_all add: server_inv_def)
  moreover have "res = None" if "snd (Run res (ctxDone s)) = ReturnsNormally"
    using that by (cases res) (simp_all add: Run_def)
  ultimately show ?thesis using room_can_send by (auto simp: order_inv_def)
qed

definition both_servers :: server_config where
  "both_servers = \<lparr>EnableHTTP = True, EnableGRPC = True, HTTPPort = ''8080'', GRPCPort = ''9090'',
     HTTPReadTimeout = second, HTTPWriteTimeout = second, ShutdownTimeout = 10 * second, HTTPMTLSEnabled = False,
     HTTPMTLSCACert = [], HTTPMTLSServerCert = [], HTTPMTLSServerKey = [], GRPCMTLSEnabled = True\<rparr>"

definition running :: server_state where
  "running = started both_servers True (Some (base_server both_servers))"

lemma running_reach: "reach (server_init read append_certs both_servers True) server_step running"
  by (rule reach_init) (simp add: server_init_def Start_begin_def running_def both_servers_def)

theorem Start_stops_cleanly_witness:
  "\<exists>s. reach (server_init (\<lambda>_. Inr []) (\<lambda>_. True) both_servers True) server_step s \<and> main s = Returned None \<and>
     ctxDone s \<and> httpStopped s \<and> grpcStopped s"
proof -
  let ?R = "reach (server_init (\<lambda>_. Inr []) (\<lambda>_. True) both_servers True) server_step"
  let ?s1 = "running\<lparr>ctxDone := True\<rparr>"
  let ?s2 = "?s1\<lparr>main := StopHTTP\<rparr>"
  let ?s3 = "?s2\<lparr>httpStopped := (httpSrv ?s2 \<noteq> None), main := StopGRPC\<rparr>"
  let ?s4 = "if hasGrpc ?s3 then ?s3\<lparr>grpcStopped := True, main := WaitGRPC\<rparr> else ?s3\<lparr>main := Returned None\<rparr>"
  let ?s5 = "?s4\<lparr>main := Returned None\<rparr>"
  have "?R ?s1" by (rule reach_step [OF running_reach]) (rule server_step.cancel)
  moreover have "server_step ?s1 SelectDone ?s2"
    by (rule server_step.select_done) (simp_all add: running_def started_def)
  ultimately have "?R ?s2" by (rule reach_step)
  moreover have "server_step ?s2 ShutdownHTTP ?s3" by (rule server_step.shutdown_http) simp
  ultimately have "?R ?s3" by (rule reach_step)
  moreover have "server_step ?s3 GracefulStop ?s4" by (rule server_step.graceful_stop) simp
  ultimately have "?R ?s4" by (rule reach_step)
  moreover have "server_step ?s4 GrpcDrained ?s5"
    by (rule server_step.grpc_drained) (simp_all add: running_def started_def)
  ultimately have r: "?R ?s5" by (rule reach_step)
  have m: "main ?s5 = Returned None" "ctxDone ?s5" by (simp_all add: running_def started_def)
  then have "snd (Run None (ctxDone ?s5)) = ReturnsNormally" by (simp add: Run_def)
  with Start_stops_cleanly [OF r, of None] m(1) have
    "ctxDone ?s5 \<and> (EnableHTTP both_servers \<longrightarrow> httpStopped ?s5) \<and> (True \<longrightarrow> grpcStopped ?s5 \<and> rpcs ?s5 = 0)" by blast
  with r m show ?thesis by (intro exI [of _ ?s5]) (simp add: both_servers_def)
qed

text \<open>
  Two ways the shutdown falls short.  When one server fails, \<^verbatim>\<open>Start\<close> returns its error while the
  other one is still serving and nothing has stopped it.  And \<^verbatim>\<open>ShutdownTimeout\<close> does not bound the
  shutdown: as long as a call is being processed when \<^verbatim>\<open>GracefulStop\<close> is reached, no sequence of
  steps other than the end of a call makes \<^verbatim>\<open>Start\<close> return.
\<close>

lemma shutdown_gaps:
  "(\<exists>s err. reach (server_init read append_certs both_servers True) server_step s \<and>
      main s = Returned (Some (grpc_failed err)) \<and> httpGo s = Serving \<and> \<not> httpStopped s) \<and>
   (\<forall>s t. (\<lambda>s t. \<exists>l. l \<noteq> RpcEnds \<and> server_step s l t)\<^sup>*\<^sup>* s t \<longrightarrow> main s = WaitGRPC \<longrightarrow> grpcStopped s \<longrightarrow> 0 < rpcs s \<longrightarrow>
      main t = WaitGRPC)"
proof (intro conjI allI impI)
  let ?R = "reach (server_init read append_certs both_servers True) server_step"
  let ?e = "grpc_failed (ErrorString ''x'')"
  let ?s1 = "running\<lparr>grpcGo := Sending ?e\<rparr>"
  let ?c = "(make_chan 2)\<lparr>chan_buf := [?e]\<rparr>"
  let ?s2 = "?s1\<lparr>grpcGo := Finished, errChan := ?c\<rparr>"
  let ?s3 = "?s2\<lparr>main := Returned (Some ?e), errChan := make_chan 2\<rparr>"
  have "server_step running (GrpcReturns (Some (ErrorString ''x''))) ?s1"
    by (rule server_step.grpc_fails) (simp add: running_def started_def both_servers_def)
  with running_reach have "?R ?s1" by (rule reach_step)
  moreover have "server_step ?s1 GrpcSends ?s2"
    by (rule server_step.grpc_sends) (simp_all add: running_def started_def try_send_def make_chan_def)
  ultimately have "?R ?s2" by (rule reach_step)
  moreover have "server_step ?s2 SelectErr ?s3"
    by (rule server_step.select_err) (simp_all add: running_def started_def recv_def make_chan_def)
  ultimately have "?R ?s3" by (rule reach_step)
  then show "\<exists>s err. ?R s \<and> main s = Returned (Some (grpc_failed err)) \<and> httpGo s = Serving \<and> \<not> httpStopped s"
    by (intro exI [of _ ?s3] exI [of _ "ErrorString ''x''"]) (simp add: running_def started_def both_servers_def)
next
  fix s t assume "(\<lambda>s t. \<exists>l. l \<noteq> RpcEnds \<and> server_step s l t)\<^sup>*\<^sup>* s t" "main s = WaitGRPC" "grpcStopped s" "0 < rpcs s"
  then have "main t = WaitGRPC \<and> grpcStopped t \<and> 0 < rpcs t"
    by (induction rule: rtranclp_induct) (auto dest: stuck_in_stop)
  then show "main t = WaitGRPC" by simp
qed

lemma shutdown_gaps_witness:
  "main (running\<lparr>main := WaitGRPC, grpcStopped := True, rpcs := 1, ctxDone := True\<rparr>) = WaitGRPC"
proof -
  let ?s = "running\<lparr>main := WaitGRPC, grpcStopped := True, rpcs := 1\<rparr>"
  have "(\<lambda>s t. \<exists>l. l \<noteq> RpcEnds \<and> server_step s l t)\<^sup>*\<^sup>* ?s (?s\<lparr>ctxDone := True\<rparr>)"
    by (rule r_into_rtranclp) (auto intro!: exI [of _ Cancel] server_step.cancel)
  with shutdown_gaps [of "\<lambda>_. Inr []" "\<lambda>_. True"] have "main (?s\<lparr>ctxDone := True\<rparr>) = WaitGRPC" by fastforce
  then show ?thesis by simp
qed



end
