(* ===== verification/Hasher.thy ===== *)
theory Hasher
  imports Prelude
begin

text \<open>
  \<^verbatim>\<open>crypto/hash.go\<close>: password hashing.  bcrypt is a parameter: its cost limits, the function that
  hashes and the one that compares.
\<close>

record bcrypt_lib =
  MinCost :: int
  MaxCost :: int
  GenerateFromPassword :: "string \<Rightarrow> int \<Rightarrow> nat \<Rightarrow> go_error + string"
  CompareHashAndPassword :: "string \<Rightarrow> string \<Rightarrow> go_error option"

record hasher =
  cost :: int

definition NewHasher :: "bcrypt_lib \<Rightarrow> int \<Rightarrow> hasher" where
  "NewHasher lib cfgCost =
     (let c = (if cfgCost < MinCost lib \<or> cfgCost > MaxCost lib then 12 else cfgCost) in \<lparr>cost = c\<rparr>)"

text \<open>\<open>salt\<close> stands for the random salt of the call.\<close>

definition HashPassword :: "bcrypt_lib \<Rightarrow> hasher \<Rightarrow> nat \<Rightarrow> string \<Rightarrow> go_error + string" where
  "HashPassword lib h salt password =
     (if password = [] then Inl (ErrorString ''crypto: password cannot be empty'')
      else (case GenerateFromPassword lib password (cost h) salt of
              Inl err \<Rightarrow> Inl (wrap_prefix ''crypto: failed to hash password: '' err)
            | Inr bytes \<Rightarrow> Inr bytes))"

definition CheckPassword :: "bcrypt_lib \<Rightarrow> string \<Rightarrow> string \<Rightarrow> bool" where
  "CheckPassword lib hash password \<longleftrightarrow> CompareHashAndPassword lib hash password = None"

text \<open>
  What the package documents: the cost limits, that hashing succeeds for passwords of at most 72
  bytes with a cost in the limits and refuses longer ones, and that a hash matches the password it
  was made from.
\<close>

definition bcrypt_contract :: "bcrypt_lib \<Rightarrow> bool" where
  "bcrypt_contract lib \<longleftrightarrow> MinCost lib = 4 \<and> MaxCost lib = 31 \<and>
     (\<forall>p c salt. length p > 72 \<longrightarrow> isl (GenerateFromPassword lib p c salt)) \<and>
     (\<forall>p c salt. length p \<le> 72 \<and> MinCost lib \<le> c \<and> c \<le> MaxCost lib \<longrightarrow>
        (\<exists>h. GenerateFromPassword lib p c salt = Inr h \<and> CompareHashAndPassword lib h p = None))"

text \<open>
  A password survives hashing: whatever cost is configured, the hasher works with one inside
  bcrypt's limits, keeps a valid configured one, and every password of 1 to 72 bytes is hashed to
  something that \<^verbatim>\<open>CheckPassword\<close> accepts with it; the empty password and longer ones are errors.
\<close>

lemma password_roundtrip:
  assumes "bcrypt_contract lib"
  shows "4 \<le> cost (NewHasher lib cfgCost) \<and> cost (NewHasher lib cfgCost) \<le> 31 \<and>
    (4 \<le> cfgCost \<and> cfgCost \<le> 31 \<longrightarrow> cost (NewHasher lib cfgCost) = cfgCost) \<and>
    (case HashPassword lib (NewHasher lib cfgCost) salt p of
       Inl err \<Rightarrow> p = [] \<or> 72 < length p
     | Inr h \<Rightarrow> p \<noteq> [] \<and> length p \<le> 72 \<and> CheckPassword lib h p)"
proof -
  have cost: "4 \<le> cost (NewHasher lib cfgCost)" "cost (NewHasher lib cfgCost) \<le> 31"
    "4 \<le> cfgCost \<and> cfgCost \<le> 31 \<longrightarrow> cost (NewHasher lib cfgCost) = cfgCost"
    using assms by (auto simp: NewHasher_def bcrypt_contract_def)
  show ?thesis
  proof (cases "length p \<le> 72")
    case True
    with assms cost obtain h where "GenerateFromPassword lib p (cost (NewHasher lib cfgCost)) salt = Inr h"
      "CompareHashAndPassword lib h p = None" unfolding bcrypt_contract_def by metis
    with cost True show ?thesis by (simp add: HashPassword_def CheckPassword_def)
  next
    case False
    with assms have "isl (GenerateFromPassword lib p (cost (NewHasher lib cfgCost)) salt)"
      unfolding bcrypt_contract_def by (meson not_le_imp_less)
    with cost False show ?thesis by (auto simp: HashPassword_def isl_def)
  qed
qed

end
