(* ===== verification/Config_Loader.thy ===== *)
theory Config_Loader
  imports Prelude
begin

text \<open>
  \<^verbatim>\<open>config/loader.go\<close> and \<^verbatim>\<open>app/config.go\<close>: loading a configuration from a YAML file and the
  environment, and loading it from the environment with validation.  A configuration is a map from
  field names to texts; the file system, the YAML decoder, \<^verbatim>\<open>envconfig\<close> and the validator are
  parameters.
\<close>

type_synonym config = "string \<rightharpoonup> string"

record loader_env =
  stat :: "string \<Rightarrow> go_error option"
  open_file :: "string \<Rightarrow> go_error + string"
  yaml_decode :: "string \<Rightarrow> config \<Rightarrow> go_error + config"
  envconfig_Process :: "string \<Rightarrow> config \<Rightarrow> go_error + config"
  validate_Struct :: "config \<Rightarrow> go_error option"

record loader =
  envPrefix :: string
  configPath :: string

definition NewLoader :: "string \<Rightarrow> string \<Rightarrow> loader" where
  "NewLoader prefix path = \<lparr>envPrefix = prefix, configPath = path\<rparr>"

text \<open>The zero value of the configuration has no field set.\<close>

definition load_yaml :: "loader_env \<Rightarrow> loader \<Rightarrow> go_error + config" where
  "load_yaml env l =
     (if configPath l \<noteq> [] \<and> stat env (configPath l) = None
      then (case open_file env (configPath l) of
              Inl err \<Rightarrow> Inl (wrap_prefix ''failed to open config file: '' err)
            | Inr file \<Rightarrow>
                (case yaml_decode env file Map.empty of
                   Inl err \<Rightarrow> Inl (wrap_prefix ''failed to decode config file: '' err)
                 | Inr cfg \<Rightarrow> Inr cfg))
      else Inr Map.empty)"

definition Loader_Load :: "loader_env \<Rightarrow> loader \<Rightarrow> go_error + config" where
  "Loader_Load env l =
     (case load_yaml env l of
        Inl err \<Rightarrow> Inl err
      | Inr cfg \<Rightarrow>
          (case envconfig_Process env (envPrefix l) cfg of
             Inl err \<Rightarrow> Inl (wrap_prefix ''failed to process env vars: '' err)
           | Inr cfg' \<Rightarrow> Inr cfg'))"

text \<open>\<^verbatim>\<open>app.Loader.Load\<close>, which fills the struct it is given.\<close>

definition App_Load :: "loader_env \<Rightarrow> string \<Rightarrow> config \<Rightarrow> go_error + config" where
  "App_Load env prefix spec =
     (case envconfig_Process env prefix spec of
        Inl err \<Rightarrow> Inl (wrap_prefix ''config: failed to process env vars: '' err)
      | Inr spec' \<Rightarrow>
          (case validate_Struct env spec' of
             Some err \<Rightarrow> Inl (wrap_prefix ''config: validation failed: '' err)
           | None \<Rightarrow> Inr spec'))"

text \<open>
  \<^verbatim>\<open>envconfig\<close> as documented: a field gets its environment variable if it is set, else the default of
  its tag if it has one, and otherwise keeps its value.
\<close>

definition envconfig_contract :: "config \<Rightarrow> config \<Rightarrow> loader_env \<Rightarrow> bool" where
  "envconfig_contract vars defaults env \<longleftrightarrow>
     (\<forall>prefix cfg cfg'. envconfig_Process env prefix cfg = Inr cfg' \<longrightarrow>
        (\<forall>f. cfg' f = (case vars f of Some v \<Rightarrow> Some v
                       | None \<Rightarrow> (case defaults f of Some d \<Rightarrow> Some d | None \<Rightarrow> cfg f))))"

text \<open>
  The order of sources in a loaded configuration: an environment variable wins, as documented;
  but for a field whose tag has a default, the file's value never survives: without the variable
  the default replaces it.  Only a field without a default keeps the file's value.  And a
  configuration loaded with validation is always one the validator accepts.
\<close>

lemma Load_priority:
  assumes "envconfig_contract vars defaults env" and "load_yaml env l = Inr yaml" and "Loader_Load env l = Inr cfg"
  shows "(vars f = Some v \<longrightarrow> cfg f = Some v) \<and>
    (vars f = None \<and> defaults f = Some d \<longrightarrow> cfg f = Some d) \<and>
    (vars f = None \<and> defaults f = None \<longrightarrow> cfg f = yaml f) \<and>
    (\<forall>spec spec'. App_Load env prefix spec = Inr spec' \<longrightarrow> validate_Struct env spec' = None)"
proof -
  have "envconfig_Process env (envPrefix l) yaml = Inr cfg"
    using assms(2,3) by (simp add: Loader_Load_def split: sum.splits)
  with assms(1) have "cfg f = (case vars f of Some v \<Rightarrow> Some v
      | None \<Rightarrow> (case defaults f of Some d \<Rightarrow> Some d | None \<Rightarrow> yaml f))" unfolding envconfig_contract_def by blast
  moreover have "validate_Struct env spec' = None" if "App_Load env prefix spec = Inr spec'" for spec spec'
    using that by (auto simp: App_Load_def split: sum.splits option.splits)
  ultimately show ?thesis by simp
qed

end
