(* ===== verification/Spec2Isabelle.thy ===== *)
theory Spec2Isabelle
  imports Messaging Kafka_Delivery Audit_Logger Jwks_Concurrent Middleware_Chain Grpc_Chain Outage Connect Server Hasher
    Config_Loader
begin

text \<open>
  Verification of helix-fnd, a Go foundation library for microservices.  The library has four layers:
  the lifecycle of a process (configuration, runner, HTTP and gRPC server), the middlewares in front of
  every request (recovery, tracing, logging, metrics, authentication, rate limiting, idempotency), the
  clients of its dependencies (Kafka, Redis, Postgres, the key server), and cross-cutting services
  (audit trail, log and span enrichment, response envelopes, request contexts).  A request meets them in
  this order: the server hands it to the middlewares, these use the context slots, the key client and
  Redis, and answer through the response package; handlers publish to Kafka and log audit events; on
  the other side the consumer turns Kafka records into handler calls.

  \<^bold>\<open>Theories and sources\<close> (paths under \<^verbatim>\<open>src/\<close>)

  \<^item> \<^verbatim>\<open>Prelude\<close>: 64-bit integers and durations, error values with \<^verbatim>\<open>errors.Is\<close>, the functions of \<^verbatim>\<open>strings\<close>
    and \<^verbatim>\<open>strconv\<close> in use, reachability, and the locale \<open>inductive_invariant\<close>.
  \<^item> \<^verbatim>\<open>Go_Channel\<close>: buffered channels and their contract, the locale \<open>bounded_fifo\<close>.
  \<^item> \<^verbatim>\<open>Kafka_Consumer\<close>: \<^verbatim>\<open>messaging/consumer.go\<close>.  \<open>processWithRetry\<close> is a loop that may not end
    (\<^theory_text>\<open>partial_function\<close>), \<open>Start\<close> the poll loop; the events of a run are a trace.
  \<^item> \<^verbatim>\<open>Kafka_Delivery\<close>: sessions of a consumer group one after another, each a run of \<open>Start\<close> cut off anywhere.
  \<^item> \<^verbatim>\<open>Messaging\<close>: \<^verbatim>\<open>messaging/producer.go\<close> and \<^verbatim>\<open>messaging/manager.go\<close>.
  \<^item> \<^verbatim>\<open>Audit_Logger\<close>: \<^verbatim>\<open>audit/\<close>.  \<open>Log\<close> and \<open>handleDrop\<close> as functions, and callers, worker and \<open>Close\<close> as the
    step relation \<open>audit_step\<close> with \<open>handleDrop\<close> split at its atomic operations; \<open>Encode\<close> is the encoder of the
    worker with the text it has written and the error it keeps.
  \<^item> \<^verbatim>\<open>Base64url\<close>, \<^verbatim>\<open>Jwks\<close>: \<^verbatim>\<open>crypto/jwks_client.go\<close> and \<^verbatim>\<open>crypto/claims.go\<close>; \<^verbatim>\<open>Jwks_Concurrent\<close>: the same
    client used by any number of goroutines, as the step relation \<open>flight_step\<close>; \<^verbatim>\<open>Hasher\<close>: \<^verbatim>\<open>crypto/hash.go\<close>.
  \<^item> \<^verbatim>\<open>Contextx\<close>: \<^verbatim>\<open>pkg/contextx/context.go\<close>, contexts as chains of values.
  \<^item> \<^verbatim>\<open>Gate\<close>, \<^verbatim>\<open>Http\<close>, \<^verbatim>\<open>Grpc\<close>: what the middlewares use of \<^verbatim>\<open>net/http\<close> and of gRPC: header maps, response writers
    as records of functions over a world, the server's own writer, handlers that may panic, and the
    contract of a guarding middleware, the locale \<open>gate\<close>.
  \<^item> \<^verbatim>\<open>Json\<close>: the JSON encoder of the standard library (\<open>render\<close>) and, as its specification, a reader of JSON
    texts (\<open>read_json\<close>); \<^verbatim>\<open>Response\<close>: \<^verbatim>\<open>http/response/\<close> and \<^verbatim>\<open>database/errors.go\<close>.
  \<^item> \<^verbatim>\<open>Auth\<close>: \<^verbatim>\<open>server/middleware/auth.go\<close> and \<^verbatim>\<open>strategy_jwt.go\<close>.
  \<^item> \<^verbatim>\<open>Gcra\<close>, \<^verbatim>\<open>Rate_Limit\<close>: \<^verbatim>\<open>server/middleware/ratelimit.go\<close> (the Lua script, then the middleware) and
    \<^verbatim>\<open>grpc_ratelimit.go\<close>; \<^verbatim>\<open>Idempotency\<close>: \<^verbatim>\<open>idempotency.go\<close>.
  \<^item> \<^verbatim>\<open>Observe\<close>: \<^verbatim>\<open>base.go\<close>, \<^verbatim>\<open>metrics.go\<close>, \<^verbatim>\<open>recovery.go\<close>, \<^verbatim>\<open>grpc_recovery.go\<close>, \<^verbatim>\<open>trace.go\<close> of the middlewares.
  \<^item> \<^verbatim>\<open>Outage\<close>: the HTTP limiter while Redis is down; \<^verbatim>\<open>Middleware_Chain\<close>, \<^verbatim>\<open>Grpc_Chain\<close>: the middlewares and the
    interceptors one behind another.
  \<^item> \<^verbatim>\<open>Telemetry\<close>: \<^verbatim>\<open>log/logger.go\<close> and \<^verbatim>\<open>pkg/telemetry/otel_handler.go\<close>.
  \<^item> \<^verbatim>\<open>Connect\<close>: the constructors of \<^verbatim>\<open>cache/redis.go\<close>, \<^verbatim>\<open>database/postgres.go\<close>, \<^verbatim>\<open>messaging/producer.go\<close> and
    \<^verbatim>\<open>audit/kafka_logger.go\<close> (locale \<open>fail_fast\<close>), and the tracing hooks of Redis and Postgres.
  \<^item> \<^verbatim>\<open>Server\<close>: \<^verbatim>\<open>server/server.go\<close> and \<^verbatim>\<open>app/app.go\<close>; \<^verbatim>\<open>Health\<close>: \<^verbatim>\<open>server/health/checker.go\<close>;
    \<^verbatim>\<open>Config_Loader\<close>: \<^verbatim>\<open>config/loader.go\<close> and \<^verbatim>\<open>app/config.go\<close>.
  \<^item> This theory: properties that span components.

  \<^bold>\<open>State and effects.\<close>  A struct is a record with its field names, an error path is a value (\<^verbatim>\<open>Inl\<close>, an
  option, or a panic as \<open>Panics\<close>), and a function that changes state takes and returns it.  Code outside
  the repository (Redis, Kafka, the JWT and uuid libraries, bcrypt, chi, the OpenTelemetry API, the
  application's handlers) is a parameter; where a property needs more of it than its type, the
  documented behaviour is a named hypothesis: \<open>parse_contract\<close>, \<open>setNX_contract\<close>, \<open>script_contract\<close>,
  \<open>redis_replies\<close>, \<open>redis_down\<close>, \<open>bucket_contract\<close>, \<open>session_env\<close>, \<open>chi_contract\<close>, \<open>otelchi_contract\<close>, \<open>router_contract\<close>,
  \<open>label_contract\<close>, \<open>bcrypt_contract\<close>, \<open>envconfig_contract\<close>, \<open>accounts\<close>.  Each has a witness on a concrete
  function.

  \<^bold>\<open>What the lemmas show\<close>

  \<^item> Consumer: a run follows the abstract retry policy \<open>retry_policy\<close>; with a retry limit it returns for every
    environment; in strict mode an offset is committed only for a message that was handled or
    quarantined; attempts, backoff and order within a poll; over crashes and
    restarts no record is skipped; what a closed client, a poll with records and an error, and a record
    without trace headers do.
  \<^item> Audit: accepted events are neither lost, duplicated nor reordered under any interleaving, drops are
    counted exactly, \<open>Close\<close> ends and flushes, the text on the writer reads back as the accepted events,
    one failed write ends it, and the race in the drop report.
  \<^item> Keys and tokens: an accepted token is authentic, a constructed client keeps usable keys, fetching is
    all or nothing; concurrent refreshes never mix keys, every waiting verification ends, and a goroutine on
    its own does what the sequential callback does; behind the authentication middlewares only authentic
    requests reach a handler.
  \<^item> Limits: the script keeps burst plus rate per period, so the middleware does for every client; the
    exact retry time; what the emergency limiter admits during an outage; where the fallback differs
    between HTTP and gRPC; at most one run per idempotency key.
  \<^item> Requests: recovery contains panics, the request log is transparent, metrics count each request without panicking,
    identifiers are always assigned, database errors get their status, error texts read back as they were
    given; behind every chain of the middlewares responses are well formed (locales \<open>response_writer\<close> and
    \<open>typed_middleware\<close>), and a gRPC call through all interceptors always returns.
  \<^item> Process: constructors fail fast without leaks, tracing hooks are transparent, \<open>Start\<close> stops cleanly and
    where it does not, mutual TLS, redaction and its limit, trace contexts through Kafka.

  \<^bold>\<open>Bounds and fuel.\<close>  The argument \<open>n\<close> of \<open>Start\<close> (consumer) counts polls of an endless loop: the safety
  statements hold for every \<open>n\<close>, and within one poll the loop over a message is total for a positive
  \<open>MaxRetries\<close> (\<open>Start_total\<close>).  Integers are unbounded with the wrap-around written out by \<open>i64\<close>, except the
  drop counter and the RSA exponent, which are 64-bit words.  Times of the Lua script are exact
  rationals where Redis computes with doubles.

  The readers of \<^verbatim>\<open>Json\<close> take fuel; \<open>read_json\<close> gives them the length of the text, which the round trip lemma
  shows to be enough.

  \<^bold>\<open>Not modelled.\<close>  The text format of log output, the buckets and the exposition of metrics, and
  cancellation of contexts by time (a timeout is an argument of the call it bounds).  Constructors that only store their arguments have no
  definition of their own.
\<close>

section \<open>Authentication in front of the rate limiter\<close>

text \<open>
  The two guards in the order that lets the limiter see the authenticated principal: the
  authentication middleware outside, the rate limiter inside.
\<close>

interpretation auth_then_limit: two_gates
  "HTTPMiddleware authenticate" "http_auth_decide authenticate"
  "RateLimitMiddleware env emergency rps burst period" "http_limit_decide env emergency rps burst period"
  by unfold_locales

lemma with_claims_principal:
  "Subject cl \<noteq> [] \<Longrightarrow> Value (with_claims cl ctx) AuthPrincipalIDKey = Some (VString (Subject cl))"
  by (simp add: with_claims_def Let_def)

lemma limit_keeps_request:
  "http_limit_decide env emergency rps burst period (w, r) s = (Pass (w', r'), s') \<Longrightarrow> r' = r \<and> w' = w"
  by (auto simp: http_limit_decide_def Let_def split: prod.splits sum.splits if_splits)

lemma composed_pass_authentic:
  assumes "parse_contract jwks sig_ok parse" and "server_headers (Header r)"
    and "then_decide (http_auth_decide (Authenticate (VerifyToken jwks parse)))
      (http_limit_decide env emergency rps burst period) (w, r) s = (Pass (w', r'), s')"
  shows "w' = w \<and> (\<exists>tok cl x'. Header_Get (Header r) ''Authorization'' = ''Bearer '' @ tok \<and>
    authentic jwks sig_ok tok (ext s) x' cl \<and>
    (Subject cl \<noteq> [] \<longrightarrow> http_limit_key r' = ''rl:user:'' @ Subject cl))"
proof -
  let ?auth = "Authenticate (VerifyToken jwks parse)"
  from assms(3) obtain b t where d: "http_auth_decide ?auth (w, r) s = (Pass b, t)"
    "http_limit_decide env emergency rps burst period b t = (Pass (w', r'), s')"
    unfolding then_decide_Pass by blast
  show ?thesis
  proof (cases rule: jwt_strategy_cases [OF assms(1), of "http_payload r" s "WithEntryPoint (Context r) ''http''"])
    case (1 tok cl x')
    with d(1) have "b = (w, r\<lparr>Context := with_claims cl (WithEntryPoint (Context r) ''http'')\<rparr>)"
      by (simp add: http_auth_decide_def)
    with d(2) limit_keeps_request
    have r': "w' = w" "r' = r\<lparr>Context := with_claims cl (WithEntryPoint (Context r) ''http'')\<rparr>" by blast+
    then have "Subject cl \<noteq> [] \<longrightarrow> http_limit_key r' = ''rl:user:'' @ Subject cl"
      by (simp add: http_limit_key_def http_identity_def with_claims_principal value_text_def)
    moreover from 1(1) have "Header_Get (Header r) ''Authorization'' = ''Bearer '' @ tok"
      by (simp add: GetHeader_http [OF authorization_token assms(2), symmetric])
    ultimately show ?thesis using r'(1) 1(4) by blast
  next
    case (2 err s1)
    with d(1) show ?thesis by (simp add: http_auth_decide_def split: prod.splits)
  qed
qed


text \<open>A request with the token of the demonstration key server, and a limiter that is switched off.\<close>

definition bearer_get :: "unit request" where
  "bearer_get = \<lparr>Method = ''GET'', URL_Path = ''/'', Header = [(''Authorization'', [''Bearer t'']), (''X-Forwarded-For'', [''9.9.9.9''])],
     RemoteAddr = ''10.0.0.1:80'', Context = Background\<rparr>"

definition open_limiter :: "'x limiter_env" where
  "open_limiter = \<lparr>run_script = \<lambda>_ _ _ _ x. (Inr (-1), x), limiter_Allow = \<lambda>_ x. (True, x), grpc_SetHeader = \<lambda>_ x. x\<rparr>"


end
